(* ===== verification/Prelude.thy ===== *)
theory Prelude
  imports Main "HOL-Library.Word" "HOL-Library.Monad_Syntax"
begin

text \<open>
  Shared vocabulary of the development: machine words, big-endian byte strings, memory
  blocks with bounds-checked accesses, and the view of a byte block as a string of bits
  in network order (bit 0 is the most significant bit of byte 0).
  A memory access outside its block is undefined behaviour in C; it is the value
  \<^const>\<open>None\<close> here, so that a theorem whose conclusion is \<^const>\<open>Some\<close> is also a
  memory-safety statement.
\<close>

unbundle bit_operations_syntax

named_theorems mem_simps \<open>facts about bounds-checked reads and writes\<close>
named_theorems bit_at_simps \<open>facts about the bit view of a byte block\<close>

type_synonym u8 = "8 word"
type_synonym u16 = "16 word"
type_synonym u32 = "32 word"
type_synonym u64 = "64 word"
type_synonym block = "u8 list"

text \<open>Kernel error numbers; functions return their negation.\<close>

definition EIO :: int where "EIO = 5"
definition EAGAIN :: int where "EAGAIN = 11"
definition ENOMEM :: int where "ENOMEM = 12"
definition EFAULT :: int where "EFAULT = 14"
definition EINVAL :: int where "EINVAL = 22"
definition ENOSYS :: int where "ENOSYS = 38"
definition EOPNOTSUPP :: int where "EOPNOTSUPP = 95"

section \<open>Word casts\<close>

lemma unat_ucast_up [simp]:
  assumes "LENGTH('a) \<le> LENGTH('b)"
  shows "unat (ucast (x :: 'a::len word) :: 'b::len word) = unat x"
proof -
  have "unat x < 2 ^ LENGTH('b)"
    using unsigned_less [of x] assms power_increasing [of "LENGTH('a)" "LENGTH('b)" "2 :: nat"]
    by (meson le_less_trans less_le_trans not_le one_le_numeral)
  then show ?thesis by (simp add: unsigned_ucast_eq take_bit_nat_eq_self_iff)
qed

section \<open>C integer arithmetic\<close>

text \<open>
  Values of type \<^verbatim>\<open>int\<close> are mathematical integers; \<open>c_int\<close> is the conversion to \<^verbatim>\<open>int\<close>, which wraps,
  and \<open>c_div\<close> the division of C, which truncates.  The kernel's \<^verbatim>\<open>fls\<close>, \<^verbatim>\<open>ilog2\<close>,
  \<^verbatim>\<open>roundup_pow_of_two\<close> and \<^verbatim>\<open>ALIGN\<close> are the usual ones; \<^verbatim>\<open>roundup_pow_of_two(0)\<close> is undefined.
\<close>

definition c_int :: "int \<Rightarrow> int" where
  "c_int x = (x + 2 ^ 31) mod 2 ^ 32 - 2 ^ 31"

definition c_div :: "int \<Rightarrow> int \<Rightarrow> int" where
  "c_div a b = sgn a * sgn b * (\<bar>a\<bar> div \<bar>b\<bar>)"

fun fls :: "nat \<Rightarrow> nat" where
  "fls n = (if n = 0 then 0 else Suc (fls (n div 2)))"

declare fls.simps [simp del]

definition ilog2 :: "nat \<Rightarrow> nat" where
  "ilog2 n = fls n - 1"

definition roundup_pow_of_two :: "nat \<Rightarrow> nat option" where
  "roundup_pow_of_two n = (if n = 0 then None else Some (2 ^ fls (n - 1)))"

definition align_up :: "int \<Rightarrow> int \<Rightarrow> int" where
  "align_up x a = (x + (a - 1)) div a * a"

lemma c_int_id [simp]: "- (2 ^ 31) \<le> x \<Longrightarrow> x < 2 ^ 31 \<Longrightarrow> c_int x = x"
  by (simp add: c_int_def)

lemma c_int_nonneg [simp]: "0 \<le> x \<Longrightarrow> x < 2 ^ 31 \<Longrightarrow> c_int x = x"
  by (rule c_int_id) (rule order_trans [of _ 0], simp_all)

lemma c_div_pos [simp]: "0 \<le> a \<Longrightarrow> 0 < b \<Longrightarrow> c_div a b = a div b"
  by (cases "a = 0") (auto simp: c_div_def)

lemma fls_bound: "n < 2 ^ fls n"
proof (induction n rule: fls.induct)
  case (1 n)
  then show ?case
    by (cases "n = 0") (auto simp: fls.simps [of n] simp del: div_less)
qed

lemma fls_least: "0 < n \<Longrightarrow> 2 ^ (fls n - 1) \<le> n"
proof (induction n rule: fls.induct)
  case (1 n)
  show ?case
  proof (cases "n div 2 = 0")
    case True
    then have "fls n = 1" using 1(2) by (simp add: fls.simps [of n] fls.simps [of 0])
    with 1(2) show ?thesis by simp
  next
    case False
    then have IH: "2 ^ (fls (n div 2) - 1) \<le> n div 2" using 1 by auto
    have "0 < fls (n div 2)" using False by (simp add: fls.simps [of "n div 2"])
    then have "2 ^ (fls n - 1) = 2 * (2 :: nat) ^ (fls (n div 2) - 1)"
      using 1(2) by (simp add: fls.simps [of n] flip: power_Suc)
    with IH show ?thesis by linarith
  qed
qed

lemma fls_pow2 [simp]: "fls (2 ^ k) = Suc k"
  by (induction k) (simp_all add: fls.simps [of "Suc 0"] fls.simps [of 0] fls.simps [of "2 * 2 ^ _"])

lemma ilog2_pow2 [simp]: "ilog2 (2 ^ k) = k"
  by (simp add: ilog2_def)

text \<open>The least power of two that is not smaller.\<close>

lemma roundup_pow_of_twoE:
  assumes "0 < n"
  obtains k where "roundup_pow_of_two n = Some (2 ^ k)" "n \<le> 2 ^ k" "2 ^ k < 2 * n \<or> n = 1 \<and> k = 0"
proof (cases "n = 1")
  case True
  then show ?thesis using that [of 0] by (simp add: roundup_pow_of_two_def fls.simps [of 0])
next
  case False
  then have "0 < n - 1" using assms by simp
  then have "2 ^ (fls (n - 1) - 1) \<le> n - 1" "0 < fls (n - 1)"
    using fls_least [of "n - 1"] by (simp_all add: fls.simps [of "n - Suc 0"])
  then have "2 ^ fls (n - 1) \<le> 2 * (n - 1)"
    by (metis Suc_pred' mult_le_mono2 power_Suc)
  moreover have "n - 1 < 2 ^ fls (n - 1)" by (rule fls_bound)
  ultimately show ?thesis
    using that [of "fls (n - 1)"] assms \<open>0 < n - 1\<close> by (auto simp: roundup_pow_of_two_def)
qed

lemma align_up_props:
  assumes "0 < a"
  shows "x \<le> align_up x a" "align_up x a < x + a" "align_up x a mod a = 0"
proof -
  have "(x + (a - 1)) div a * a = x + (a - 1) - (x + (a - 1)) mod a"
    by (simp add: minus_mod_eq_div_mult)
  then show "x \<le> align_up x a" "align_up x a < x + a"
    unfolding align_up_def
    using pos_mod_bound [OF assms, of "x + (a - 1)"] pos_mod_sign [OF assms, of "x + (a - 1)"]
    by linarith+
qed (simp add: align_up_def)

section \<open>Big-endian byte strings\<close>

definition be_val :: "block \<Rightarrow> u64" where
  "be_val bs = foldl (\<lambda>a b. push_bit 8 a OR ucast b) 0 bs"

definition be_bytes :: "nat \<Rightarrow> u64 \<Rightarrow> block" where
  "be_bytes n v = map (\<lambda>i. ucast (drop_bit (8 * (n - 1 - i)) v)) [0..<n]"

definition bit_at :: "block \<Rightarrow> nat \<Rightarrow> bool" where
  "bit_at bs p = bit (bs ! (p div 8)) (7 - p mod 8)"

lemma be_val_Nil [simp]: "be_val [] = 0"
  by (simp add: be_val_def)

lemma be_val_snoc: "be_val (bs @ [b]) = push_bit 8 (be_val bs) OR ucast b"
  by (simp add: be_val_def)

lemma length_be_bytes [simp]: "length (be_bytes n v) = n"
  by (simp add: be_bytes_def)

lemma bit_at_append_left [simp]:
  "p < 8 * length xs \<Longrightarrow> bit_at (xs @ ys) p = bit_at xs p"
  by (simp add: bit_at_def nth_append div_less_iff_less_mult mult.commute)

lemma bit_be_val:
  "length bs \<le> 8 \<Longrightarrow>
   bit (be_val bs) i \<longleftrightarrow> i < 8 * length bs \<and> bit_at bs (8 * length bs - 1 - i)"
proof (induction bs arbitrary: i rule: rev_induct)
  case Nil
  then show ?case by simp
next
  case (snoc b bs)
  show ?case
  proof (cases "i < 8")
    case True
    have pos: "8 * length (bs @ [b]) - 1 - i = 8 * length bs + (7 - i)"
      using True by simp
    have "(8 * length bs + (7 - i)) div 8 = length bs"
      and "(8 * length bs + (7 - i)) mod 8 = 7 - i"
      by simp_all
    with True show ?thesis
      unfolding pos by (simp add: be_val_snoc bit_simps bit_at_def)
  next
    case False
    have "bit (be_val (bs @ [b])) i \<longleftrightarrow> i < 64 \<and> bit (be_val bs) (i - 8)"
      using False by (auto simp: be_val_snoc bit_simps dest: bit_imp_le_length)
    also have "\<dots> \<longleftrightarrow> i < 64 \<and> i - 8 < 8 * length bs \<and> bit_at bs (8 * length bs - 1 - (i - 8))"
      using snoc by simp
    also have "\<dots> \<longleftrightarrow> i < 8 * length (bs @ [b]) \<and> bit_at bs (8 * length bs - 1 - (i - 8))"
      using False snoc.prems by auto
    also have "8 * length bs - 1 - (i - 8) = 8 * length (bs @ [b]) - 1 - i"
      using False by simp
    finally show ?thesis
      using False by (cases "i < 8 * length (bs @ [b])") simp_all
  qed
qed

lemma bit_at_be_bytes [bit_at_simps]:
  assumes "p < 8 * n"
  shows "bit_at (be_bytes n v) p = bit v (8 * n - 1 - p)"
proof -
  have "p div 8 < n" using assms by auto
  moreover have "8 * (n - 1 - p div 8) + (7 - p mod 8) = 8 * n - 1 - p"
  proof -
    have "p = 8 * (p div 8) + p mod 8" and "p mod 8 < 8" by simp_all
    with \<open>p div 8 < n\<close> show ?thesis by linarith
  qed
  moreover have "7 - p mod 8 < 8" by simp
  ultimately show ?thesis
    by (simp add: bit_at_def be_bytes_def bit_simps)
qed

lemma block_eqI:
  assumes "length xs = length ys"
    and "\<And>p. p < 8 * length xs \<Longrightarrow> bit_at xs p = bit_at ys p"
  shows "xs = ys"
proof (rule nth_equalityI [OF assms(1)], rule bit_word_eqI)
  fix i n
  assume i: "i < length xs" and n: "n < LENGTH(8)"
  define k where "k = 7 - n"
  have k: "k < 8" "n = 7 - k" using n by (simp_all add: k_def)
  then have "8 * i + k < 8 * length xs" using i by simp
  from assms(2) [OF this] k show "bit (xs ! i) n = bit (ys ! i) n"
    by (simp add: bit_at_def)
qed

lemma be_val_be_bytes [simp]:
  assumes "n \<le> 8"
  shows "be_val (be_bytes n v) = take_bit (8 * n) v"
proof (rule bit_word_eqI)
  fix i
  show "bit (be_val (be_bytes n v)) i = bit (take_bit (8 * n) v) i"
    using assms by (auto simp: bit_be_val bit_at_simps bit_simps)
qed

lemma be_bytes_be_val [simp]:
  assumes "length bs \<le> 8"
  shows "be_bytes (length bs) (be_val bs) = bs"
  using assms by (intro block_eqI) (auto simp: bit_be_val bit_at_simps)

section \<open>Memory blocks\<close>

definition mem_read :: "block \<Rightarrow> nat \<Rightarrow> nat \<Rightarrow> block option" where
  "mem_read m off n = (if off + n \<le> length m then Some (take n (drop off m)) else None)"

definition mem_write :: "block \<Rightarrow> nat \<Rightarrow> block \<Rightarrow> block option" where
  "mem_write m off bs =
     (if off + length bs \<le> length m
      then Some (take off m @ bs @ drop (off + length bs) m) else None)"

lemma mem_read_Some [mem_simps]:
  "off + n \<le> length m \<Longrightarrow> mem_read m off n = Some (take n (drop off m))"
  by (simp add: mem_read_def)

lemma mem_write_Some [mem_simps]:
  "off + length bs \<le> length m \<Longrightarrow>
   mem_write m off bs = Some (take off m @ bs @ drop (off + length bs) m)"
  by (simp add: mem_write_def)

lemma mem_write_length: "mem_write m off bs = Some m' \<Longrightarrow> length m' = length m"
  by (auto simp: mem_write_def split: if_splits)

lemma bit_at_slice [bit_at_simps]:
  assumes "p < 8 * n" and "off + n \<le> length m"
  shows "bit_at (take n (drop off m)) p = bit_at m (8 * off + p)"
proof -
  have "p div 8 < n" using assms(1) by auto
  then show ?thesis using assms(2) by (simp add: bit_at_def add.commute)
qed

lemma bit_at_write [bit_at_simps]:
  assumes "off + length bs \<le> length m" and "p < 8 * length m"
  shows "bit_at (take off m @ bs @ drop (off + length bs) m) p =
    (if 8 * off \<le> p \<and> p < 8 * (off + length bs) then bit_at bs (p - 8 * off) else bit_at m p)"
proof -
  have *: "(p - 8 * off) div 8 = p div 8 - off" "(p - 8 * off) mod 8 = p mod 8"
    if "8 * off \<le> p" using le_Suc_ex [OF that] by auto
  have "p div 8 < length m" using assms(2) by auto
  then show ?thesis
    using assms(1) *
    by (auto simp: bit_at_def nth_append min_def div_less_iff_less_mult
        less_eq_div_iff_mult_less_eq mult.commute not_less)
qed

lemma bit_at_replicate_0 [bit_at_simps]: "p < 8 * n \<Longrightarrow> bit_at (replicate n 0) p = False"
  by (simp add: bit_at_def)

lemma bit_unat_less:
  fixes v :: "'a::len word"
  assumes "unat v < 2 ^ n" and "bit v i"
  shows "i < n"
proof -
  have "bit (take_bit n (unat v)) i"
    using assms by (simp add: take_bit_nat_eq_self bit_unsigned_iff bit_imp_le_length)
  then show ?thesis by (simp add: bit_take_bit_iff)
qed

section \<open>Rings of a power of two\<close>

lemma ring_index:
  assumes "k \<le> 30"
  shows "unat ((c + of_nat i :: u32) AND mask k) = (unat c + i) mod 2 ^ k"
proof -
  have "unat ((c + of_nat i :: u32) AND mask k) = take_bit k (unat (c + of_nat i :: u32))"
    by (simp add: unsigned_take_bit_eq flip: take_bit_eq_mask)
  also have "unat (c + of_nat i :: u32) = (unat c + i) mod 2 ^ 32"
    by (simp add: unat_word_ariths unat_of_nat mod_add_right_eq)
  also have "take_bit k ((unat c + i) mod 2 ^ 32) = (unat c + i) mod 2 ^ 32 mod 2 ^ k"
    by (rule take_bit_eq_mod)
  also have "(2 :: nat) ^ k dvd 2 ^ 32" using assms by (intro le_imp_power_dvd) simp
  then have "(unat c + i) mod 2 ^ 32 mod 2 ^ k = (unat c + i) mod 2 ^ k" by (rule mod_mod_cancel)
  finally show ?thesis .
qed

lemma mod_add_inj:
  assumes "(a + i) mod n = (a + j) mod (n :: nat)" "i < n" "j < n"
  shows "i = j"
proof -
  have "(a + i) mod n = (a + j) mod n \<Longrightarrow> i \<le> j \<Longrightarrow> j < n \<Longrightarrow> i = j" for i j
  proof -
    assume h: "(a + i) mod n = (a + j) mod n" "i \<le> j" "j < n"
    then have "n dvd j - i" using mod_eq_dvd_iff_nat [of "a + i" "a + j" n] by simp
    then show "i = j" using h(2,3) by (auto dest: dvd_imp_le)
  qed
  from this [of i j] this [of j i] assms show ?thesis by (cases "i \<le> j") auto
qed

end
