(* ===== verification/Packer.thy ===== *)
theory Packer
  imports Prelude
begin

text \<open>
  The table-driven field packer of \<^verbatim>\<open>drivers/infiniband/core/packer.c\<close>.
  A table of \<^verbatim>\<open>struct ib_field\<close> entries says, for each field, where it lives in an
  unpacked C structure (byte offset and size) and where on the wire (32-bit word, bit in
  that word counted from the most significant end, width).
  \<open>ib_pack\<close> and \<open>ib_unpack\<close> follow the three branches of the code: fields of at most 32
  bits, of 33 to 64 bits, and longer byte-aligned ones.
  A structure and a wire buffer are two distinct memory blocks.
  \<open>cpu_to_be32\<close> and \<open>cpu_to_be64\<close> permute the bytes of a word; the read-modify-write of a
  wire word through a big-endian mask is therefore written on the numeric value of the
  word, which bitwise operations commute with.
\<close>

section \<open>Field descriptors\<close>

record ib_field =
  struct_offset_bytes :: nat
  struct_size_bytes :: nat
  offset_words :: nat
  offset_bits :: nat
  size_bits :: nat
  field_name :: string

abbreviation mk_field :: "string \<Rightarrow> nat \<Rightarrow> nat \<Rightarrow> nat \<Rightarrow> nat \<Rightarrow> nat \<Rightarrow> ib_field" where
  "mk_field nm so ss ow ob sz \<equiv>
     \<lparr>struct_offset_bytes = so, struct_size_bytes = ss, offset_words = ow,
      offset_bits = ob, size_bits = sz, field_name = nm\<rparr>"

text \<open>The initialiser \<^verbatim>\<open>RESERVED\<close> leaves the structure offset and size at zero.\<close>

abbreviation RESERVED :: "nat \<Rightarrow> nat \<Rightarrow> nat \<Rightarrow> ib_field" where
  "RESERVED ow ob sz \<equiv> mk_field ''reserved'' 0 0 ow ob sz"

section \<open>Packing\<close>

definition value_read :: "nat \<Rightarrow> nat \<Rightarrow> block \<Rightarrow> u64 option" where
  "value_read offset sz structure =
     (if sz = 1 \<or> sz = 2 \<or> sz = 4 \<or> sz = 8
      then map_option be_val (mem_read structure offset sz)
      else Some 0)"

definition field_value :: "ib_field \<Rightarrow> block \<Rightarrow> u64 option" where
  "field_value f structure =
     (if struct_size_bytes f \<noteq> 0
      then value_read (struct_offset_bytes f) (struct_size_bytes f) structure
      else Some 0)"

definition pack_le32 :: "ib_field \<Rightarrow> block \<Rightarrow> block \<Rightarrow> block option" where
  "pack_le32 f structure buf =
     (if 32 < offset_bits f + size_bits f then None
      else let shift = 32 - offset_bits f - size_bits f;
               mask = (ucast (push_bit shift (2 ^ size_bits f - 1 :: u64)) :: u32);
               addr = 4 * offset_words f
           in Option.bind (field_value f structure) (\<lambda>v.
              Option.bind (mem_read buf addr 4) (\<lambda>old.
                let val = (ucast (push_bit shift v) :: u32);
                    new = (ucast (be_val old) AND NOT mask) OR (val AND mask)
                in mem_write buf addr (be_bytes 4 (ucast new)))))"

definition pack_le64 :: "ib_field \<Rightarrow> block \<Rightarrow> block \<Rightarrow> block option" where
  "pack_le64 f structure buf =
     (if 64 < offset_bits f + size_bits f then None
      else let shift = 64 - offset_bits f - size_bits f;
               mask = push_bit shift (drop_bit (64 - size_bits f) (NOT 0 :: u64));
               addr = 4 * offset_words f
           in Option.bind (field_value f structure) (\<lambda>v.
              Option.bind (mem_read buf addr 8) (\<lambda>old.
                let val = push_bit shift v;
                    new = (be_val old AND NOT mask) OR (val AND mask)
                in mem_write buf addr (be_bytes 8 new))))"

definition pack_long :: "ib_field \<Rightarrow> block \<Rightarrow> block \<Rightarrow> block option" where
  "pack_long f structure buf =
     (let addr = 4 * offset_words f + offset_bits f div 8;
          n = size_bits f div 8
      in if struct_size_bytes f \<noteq> 0
         then Option.bind (mem_read structure (struct_offset_bytes f) n) (mem_write buf addr)
         else mem_write buf addr (replicate n 0))"

definition pack_field :: "ib_field \<Rightarrow> block \<Rightarrow> block \<Rightarrow> block option" where
  "pack_field f structure buf =
     (if size_bits f \<le> 32 then pack_le32 f structure buf
      else if size_bits f \<le> 64 then pack_le64 f structure buf
      else pack_long f structure buf)"

fun ib_pack :: "ib_field list \<Rightarrow> block \<Rightarrow> block \<Rightarrow> block option" where
  "ib_pack [] structure buf = Some buf"
| "ib_pack (f # desc) structure buf =
     Option.bind (pack_field f structure buf) (ib_pack desc structure)"

section \<open>Unpacking\<close>

definition value_write :: "nat \<Rightarrow> nat \<Rightarrow> u64 \<Rightarrow> block \<Rightarrow> block option" where
  "value_write offset sz val structure =
     (if sz = 1 \<or> sz = 2 \<or> sz = 4 \<or> sz = 8
      then mem_write structure offset (be_bytes sz val)
      else Some structure)"

definition unpack_le32 :: "ib_field \<Rightarrow> block \<Rightarrow> block \<Rightarrow> block option" where
  "unpack_le32 f buf structure =
     (if 32 < offset_bits f + size_bits f then None
      else let shift = 32 - offset_bits f - size_bits f;
               mask = (ucast (push_bit shift (2 ^ size_bits f - 1 :: u64)) :: u32)
           in Option.bind (mem_read buf (4 * offset_words f) 4) (\<lambda>w.
                let val = drop_bit shift (ucast (be_val w) AND mask)
                in value_write (struct_offset_bytes f) (struct_size_bytes f)
                     (ucast val) structure))"

text \<open>
  The middle branch computes its address as \<^verbatim>\<open>(__be64 *) buf + offset_words\<close>, that is
  in steps of eight bytes, where \<open>pack_le64\<close> steps by four.
\<close>

definition unpack_le64 :: "ib_field \<Rightarrow> block \<Rightarrow> block \<Rightarrow> block option" where
  "unpack_le64 f buf structure =
     (if 64 < offset_bits f + size_bits f then None
      else let shift = 64 - offset_bits f - size_bits f;
               mask = push_bit shift (drop_bit (64 - size_bits f) (NOT 0 :: u64))
           in Option.bind (mem_read buf (8 * offset_words f) 8) (\<lambda>w.
                let val = drop_bit shift (be_val w AND mask)
                in value_write (struct_offset_bytes f) (struct_size_bytes f) val structure))"

definition unpack_long :: "ib_field \<Rightarrow> block \<Rightarrow> block \<Rightarrow> block option" where
  "unpack_long f buf structure =
     Option.bind
       (mem_read buf (4 * offset_words f + offset_bits f div 8) (size_bits f div 8))
       (mem_write structure (struct_offset_bytes f))"

definition unpack_field :: "ib_field \<Rightarrow> block \<Rightarrow> block \<Rightarrow> block option" where
  "unpack_field f buf structure =
     (if struct_size_bytes f = 0 then Some structure
      else if size_bits f \<le> 32 then unpack_le32 f buf structure
      else if size_bits f \<le> 64 then unpack_le64 f buf structure
      else unpack_long f buf structure)"

fun ib_unpack :: "ib_field list \<Rightarrow> block \<Rightarrow> block \<Rightarrow> block option" where
  "ib_unpack [] buf structure = Some structure"
| "ib_unpack (f # desc) buf structure =
     Option.bind (unpack_field f buf structure) (ib_unpack desc buf)"

text \<open>
  Callers pack one header after another into a buffer: \<^verbatim>\<open>ib_pack(table, s, buf + off)\<close>.
\<close>

definition pack_at :: "ib_field list \<Rightarrow> block \<Rightarrow> nat \<Rightarrow> block \<Rightarrow> block option" where
  "pack_at desc structure off buf =
     (if off \<le> length buf
      then map_option (\<lambda>b. take off buf @ b) (ib_pack desc structure (drop off buf)) else None)"

section \<open>What a field means on the wire\<close>

text \<open>
  A well-formed field occupies the wire bits \<open>wire_start f ..< wire_start f + size_bits f\<close>
  and the low \<open>size_bits f\<close> bits of its structure slot, which are the bits
  \<open>slot_low f ..< slot_end f\<close> of the structure seen as a bit string.
\<close>

definition wire_start :: "ib_field \<Rightarrow> nat" where
  "wire_start f = 32 * offset_words f + offset_bits f"

definition wire_bits :: "ib_field \<Rightarrow> nat \<Rightarrow> bool" where
  "wire_bits f p \<longleftrightarrow> wire_start f \<le> p \<and> p < wire_start f + size_bits f"

definition wire_need :: "ib_field \<Rightarrow> nat" where
  "wire_need f = 4 * offset_words f +
     (if size_bits f \<le> 32 then 4 else if size_bits f \<le> 64 then 8
      else offset_bits f div 8 + size_bits f div 8)"

definition slot_end :: "ib_field \<Rightarrow> nat" where
  "slot_end f = 8 * (struct_offset_bytes f + struct_size_bytes f)"

definition slot_low :: "ib_field \<Rightarrow> nat" where
  "slot_low f = slot_end f - size_bits f"

definition slot_bits :: "ib_field \<Rightarrow> nat \<Rightarrow> bool" where
  "slot_bits f p \<longleftrightarrow> 8 * struct_offset_bytes f \<le> p \<and> p < slot_end f"

definition slot_ok :: "ib_field \<Rightarrow> bool" where
  "slot_ok f \<longleftrightarrow> struct_size_bytes f = 0 \<or>
     struct_size_bytes f \<in> {1, 2, 4, 8} \<and> size_bits f \<le> 8 * struct_size_bytes f"

definition field_ok :: "ib_field \<Rightarrow> bool" where
  "field_ok f \<longleftrightarrow>
     (if size_bits f \<le> 32 then offset_bits f + size_bits f \<le> 32 \<and> slot_ok f
      else if size_bits f \<le> 64 then offset_bits f + size_bits f \<le> 64 \<and> slot_ok f
      else offset_bits f mod 8 = 0 \<and> size_bits f mod 8 = 0 \<and>
           (struct_size_bytes f = 0 \<or> size_bits f = 8 * struct_size_bytes f))"

lemma write_field_bits:
  assumes "addr + n \<le> length buf" and "ob + sz \<le> 8 * n" and "n \<le> 8"
    and new: "\<And>i. i < 8 * n \<Longrightarrow> bit new i =
      (if 8 * n - ob - sz \<le> i \<and> i < 8 * n - ob then bit v (i - (8 * n - ob - sz))
       else bit (be_val (take n (drop addr buf))) i)"
  shows "\<exists>b. mem_write buf addr (be_bytes n new) = Some b \<and> length b = length buf \<and>
    (\<forall>p < 8 * length buf. bit_at b p =
       (if 8 * addr + ob \<le> p \<and> p < 8 * addr + ob + sz
        then bit v (8 * addr + ob + sz - 1 - p) else bit_at buf p))"
proof -
  let ?b = "take addr buf @ be_bytes n new @ drop (addr + n) buf"
  have w: "mem_write buf addr (be_bytes n new) = Some ?b"
    using assms(1) by (simp add: mem_simps)
  have "bit_at ?b p = (if 8 * addr + ob \<le> p \<and> p < 8 * addr + ob + sz
        then bit v (8 * addr + ob + sz - 1 - p) else bit_at buf p)"
    if p: "p < 8 * length buf" for p
  proof (cases "8 * addr \<le> p \<and> p < 8 * (addr + n)")
    case True
    define i where "i = 8 * n - 1 - (p - 8 * addr)"
    have i: "i < 8 * n" "p = 8 * addr + (8 * n - 1 - i)"
      using True by (auto simp: i_def)
    have "p - 8 * addr < 8 * n" using True by auto
    then have "bit_at ?b p = bit new i"
      using bit_at_write [of addr "be_bytes n new" buf p] assms(1) p True
        bit_at_be_bytes [of "p - 8 * addr" n new]
      by (simp add: i_def)
    also have "\<dots> = (if 8 * n - ob - sz \<le> i \<and> i < 8 * n - ob
        then bit v (i - (8 * n - ob - sz)) else bit_at buf p)"
      using new [OF i(1)] i assms(1,3)
      by (simp add: bit_be_val bit_at_simps)
    also have "(8 * n - ob - sz \<le> i \<and> i < 8 * n - ob) \<longleftrightarrow>
        (8 * addr + ob \<le> p \<and> p < 8 * addr + ob + sz)"
      using i assms(2) by linarith
    also have "(if 8 * addr + ob \<le> p \<and> p < 8 * addr + ob + sz
        then bit v (i - (8 * n - ob - sz)) else bit_at buf p) =
       (if 8 * addr + ob \<le> p \<and> p < 8 * addr + ob + sz
        then bit v (8 * addr + ob + sz - 1 - p) else bit_at buf p)"
    proof -
      have "i - (8 * n - ob - sz) = 8 * addr + ob + sz - 1 - p"
        if "8 * addr + ob \<le> p" "p < 8 * addr + ob + sz"
        using i assms(2) that by linarith
      then show ?thesis by simp
    qed
    finally show ?thesis .
  next
    case False
    then have "bit_at ?b p = bit_at buf p"
      using bit_at_write [of addr "be_bytes n new" buf p] assms(1) p by auto
    moreover have "\<not> (8 * addr + ob \<le> p \<and> p < 8 * addr + ob + sz)"
      using False assms(2) by auto
    ultimately show ?thesis by auto
  qed
  with w assms(1) show ?thesis by simp
qed

lemma field_value_bits:
  assumes "slot_ok f" and "struct_size_bytes f = 0 \<or> slot_end f \<le> 8 * length s"
  obtains v where "field_value f s = Some v"
    and "\<And>i. bit v i \<longleftrightarrow>
      struct_size_bytes f \<noteq> 0 \<and> i < 8 * struct_size_bytes f \<and> bit_at s (slot_end f - 1 - i)"
proof (cases "struct_size_bytes f = 0")
  case True
  then show ?thesis using that [of 0] by (simp add: field_value_def)
next
  case False
  let ?n = "struct_size_bytes f" and ?o = "struct_offset_bytes f"
  have n: "?n \<le> 8" "?o + ?n \<le> length s"
    using assms False by (auto simp: slot_ok_def slot_end_def)
  let ?v = "be_val (take ?n (drop ?o s))"
  have "field_value f s = Some ?v"
    using assms(1) False n by (auto simp: field_value_def value_read_def slot_ok_def mem_simps)
  moreover have "bit ?v i \<longleftrightarrow> i < 8 * ?n \<and> bit_at s (slot_end f - 1 - i)" for i
  proof (cases "i < 8 * ?n")
    case True
    then have "8 * ?o + (8 * ?n - 1 - i) = slot_end f - 1 - i" by (simp add: slot_end_def)
    then show ?thesis using n True by (simp add: bit_be_val bit_at_simps)
  next
    case False
    then show ?thesis using n by (simp add: bit_be_val)
  qed
  ultimately show ?thesis using that False by blast
qed

section \<open>Every branch of the packer is a copy of bits\<close>

text \<open>
  \<open>packs_bits f s buf b\<close> is the meaning of packing one field: the wire bits of \<open>f\<close> are
  the low bits of its slot in \<open>s\<close> (zero for a reserved field), every other bit of the
  buffer is as before.  \<open>pack_field_bits\<close> shows that the shifting and masking of all three
  branches computes exactly this.
\<close>

definition packs_bits :: "ib_field \<Rightarrow> block \<Rightarrow> block \<Rightarrow> block \<Rightarrow> bool" where
  "packs_bits f s buf b \<longleftrightarrow> length b = length buf \<and>
     (\<forall>p < 8 * length buf. bit_at b p =
        (if wire_bits f p
         then struct_size_bytes f \<noteq> 0 \<and> bit_at s (slot_low f + (p - wire_start f))
         else bit_at buf p))"

lemma packs_bitsI:
  assumes "length b = length buf" and "slot_ok f"
    and v: "\<And>i. bit v i \<longleftrightarrow> struct_size_bytes f \<noteq> 0 \<and> i < 8 * struct_size_bytes f \<and>
             bit_at s (slot_end f - 1 - i)"
    and b: "\<forall>p < 8 * length buf. bit_at b p =
       (if wire_bits f p then bit v (wire_start f + size_bits f - 1 - p) else bit_at buf p)"
  shows "packs_bits f s buf b"
  unfolding packs_bits_def
proof (intro conjI allI impI)
  fix p assume p: "p < 8 * length buf"
  let ?i = "wire_start f + size_bits f - 1 - p"
  show "bit_at b p = (if wire_bits f p
         then struct_size_bytes f \<noteq> 0 \<and> bit_at s (slot_low f + (p - wire_start f))
         else bit_at buf p)"
  proof (cases "wire_bits f p \<and> struct_size_bytes f \<noteq> 0")
    case True
    then have "?i < 8 * struct_size_bytes f" "slot_end f - 1 - ?i = slot_low f + (p - wire_start f)"
      using assms(2) by (auto simp: wire_bits_def slot_ok_def slot_low_def slot_end_def)
    with True p b show ?thesis by (simp add: v)
  next
    case False
    with p b show ?thesis by (auto simp: v)
  qed
qed (rule assms(1))

lemma pack_le32_bits:
  assumes "field_ok f" and "size_bits f \<le> 32" and "wire_need f \<le> length buf"
    and "struct_size_bytes f = 0 \<or> slot_end f \<le> 8 * length s"
  shows "\<exists>b. pack_le32 f s buf = Some b \<and> packs_bits f s buf b"
proof -
  have ok: "offset_bits f + size_bits f \<le> 32" "slot_ok f"
    using assms(1,2) by (simp_all add: field_ok_def)
  obtain v where fv: "field_value f s = Some v"
    and v: "\<And>i. bit v i \<longleftrightarrow> struct_size_bytes f \<noteq> 0 \<and> i < 8 * struct_size_bytes f \<and>
             bit_at s (slot_end f - 1 - i)"
    using field_value_bits [OF ok(2) assms(4)] by blast
  let ?sh = "32 - offset_bits f - size_bits f" and ?a = "4 * offset_words f"
  let ?mask = "ucast (push_bit ?sh (2 ^ size_bits f - 1 :: u64)) :: u32"
  let ?old = "take 4 (drop ?a buf)"
  let ?new = "(ucast (be_val ?old) AND NOT ?mask) OR (ucast (push_bit ?sh v) AND ?mask) :: u32"
  have a: "?a + 4 \<le> length buf" using assms(2,3) by (simp add: wire_need_def)
  have "\<exists>b. mem_write buf ?a (be_bytes 4 (ucast ?new)) = Some b \<and> length b = length buf \<and>
    (\<forall>p < 8 * length buf. bit_at b p =
       (if 8 * ?a + offset_bits f \<le> p \<and> p < 8 * ?a + offset_bits f + size_bits f
        then bit v (8 * ?a + offset_bits f + size_bits f - 1 - p) else bit_at buf p))"
  proof (rule write_field_bits)
    fix i :: nat assume "i < 8 * 4"
    then show "bit (ucast ?new :: u64) i =
      (if 8 * 4 - offset_bits f - size_bits f \<le> i \<and> i < 8 * 4 - offset_bits f
       then bit v (i - (8 * 4 - offset_bits f - size_bits f)) else bit (be_val ?old) i)"
      using ok(1) by (auto simp: bit_simps mask_eq_exp_minus_1 [symmetric])
  qed (use a ok in simp_all)
  then obtain b where "mem_write buf ?a (be_bytes 4 (ucast ?new)) = Some b" "length b = length buf"
    and "\<forall>p < 8 * length buf. bit_at b p =
       (if wire_bits f p then bit v (wire_start f + size_bits f - 1 - p) else bit_at buf p)"
    by (auto simp: wire_bits_def wire_start_def)
  then show ?thesis
    using ok fv a packs_bitsI [OF _ ok(2) v] by (auto simp: pack_le32_def Let_def mem_simps)
qed


lemma pack_le64_bits:
  assumes "field_ok f" and "32 < size_bits f" "size_bits f \<le> 64"
    and "wire_need f \<le> length buf"
    and "struct_size_bytes f = 0 \<or> slot_end f \<le> 8 * length s"
  shows "\<exists>b. pack_le64 f s buf = Some b \<and> packs_bits f s buf b"
proof -
  have ok: "offset_bits f + size_bits f \<le> 64" "slot_ok f"
    using assms(1-3) by (simp_all add: field_ok_def)
  obtain v where fv: "field_value f s = Some v"
    and v: "\<And>i. bit v i \<longleftrightarrow> struct_size_bytes f \<noteq> 0 \<and> i < 8 * struct_size_bytes f \<and>
             bit_at s (slot_end f - 1 - i)"
    using field_value_bits [OF ok(2) assms(5)] by blast
  let ?sh = "64 - offset_bits f - size_bits f" and ?a = "4 * offset_words f"
  let ?mask = "push_bit ?sh (drop_bit (64 - size_bits f) (NOT 0 :: u64))"
  let ?old = "take 8 (drop ?a buf)"
  let ?new = "(be_val ?old AND NOT ?mask) OR (push_bit ?sh v AND ?mask)"
  have a: "?a + 8 \<le> length buf" using assms(2-4) by (simp add: wire_need_def)
  have "\<exists>b. mem_write buf ?a (be_bytes 8 ?new) = Some b \<and> length b = length buf \<and>
    (\<forall>p < 8 * length buf. bit_at b p =
       (if 8 * ?a + offset_bits f \<le> p \<and> p < 8 * ?a + offset_bits f + size_bits f
        then bit v (8 * ?a + offset_bits f + size_bits f - 1 - p) else bit_at buf p))"
  proof (rule write_field_bits)
    fix i :: nat assume "i < 8 * 8"
    then show "bit ?new i =
      (if 8 * 8 - offset_bits f - size_bits f \<le> i \<and> i < 8 * 8 - offset_bits f
       then bit v (i - (8 * 8 - offset_bits f - size_bits f)) else bit (be_val ?old) i)"
      using ok(1) assms(3) by (auto simp: bit_simps)
  qed (use a ok in simp_all)
  then obtain b where "mem_write buf ?a (be_bytes 8 ?new) = Some b" "length b = length buf"
    and "\<forall>p < 8 * length buf. bit_at b p =
       (if wire_bits f p then bit v (wire_start f + size_bits f - 1 - p) else bit_at buf p)"
    by (auto simp: wire_bits_def wire_start_def)
  then show ?thesis
    using ok fv a packs_bitsI [OF _ ok(2) v] by (auto simp: pack_le64_def Let_def mem_simps)
qed

lemma pack_long_bits:
  assumes "field_ok f" and "64 < size_bits f" and "wire_need f \<le> length buf"
    and "struct_size_bytes f = 0 \<or> slot_end f \<le> 8 * length s"
  shows "\<exists>b. pack_long f s buf = Some b \<and> packs_bits f s buf b"
proof -
  let ?n = "size_bits f div 8" and ?a = "4 * offset_words f + offset_bits f div 8"
  let ?bs = "if struct_size_bytes f = 0 then replicate ?n 0
             else take ?n (drop (struct_offset_bytes f) s)"
  let ?b = "take ?a buf @ ?bs @ drop (?a + ?n) buf"
  have n: "8 * ?n = size_bits f" "8 * (offset_bits f div 8) = offset_bits f"
    using assms(1,2) by (auto simp: field_ok_def)
  have s: "struct_offset_bytes f + ?n \<le> length s \<and> ?n = struct_size_bytes f"
    if "struct_size_bytes f \<noteq> 0"
    using assms that by (auto simp: field_ok_def slot_end_def)
  have a: "?a + ?n \<le> length buf" using assms(2,3) by (simp add: wire_need_def)
  have len: "length ?bs = ?n" using s by (auto simp: min_def)
  have "pack_long f s buf = Some ?b"
    using a s by (auto simp: pack_long_def mem_simps Let_def)
  moreover have "packs_bits f s buf ?b"
    unfolding packs_bits_def
  proof (intro conjI allI impI)
    show "length ?b = length buf" using a len by simp
  next
    fix p assume p: "p < 8 * length buf"
    have w: "wire_bits f p \<longleftrightarrow> 8 * ?a \<le> p \<and> p < 8 * (?a + ?n)" and st: "wire_start f = 8 * ?a"
      using n by (auto simp: wire_bits_def wire_start_def distrib_left)
    have bs: "bit_at ?bs q = (struct_size_bytes f \<noteq> 0 \<and> bit_at s (slot_low f + q))" if "q < 8 * ?n" for q
      using that s n by (auto simp: bit_at_replicate_0 bit_at_simps slot_low_def slot_end_def)
    have "bit_at ?b p = (if wire_bits f p then bit_at ?bs (p - wire_start f) else bit_at buf p)"
      using bit_at_write [of ?a ?bs buf p] a p unfolding len w st by simp
    moreover have "p - wire_start f < 8 * ?n" if "wire_bits f p"
      using that unfolding w st by auto
    ultimately show "bit_at ?b p = (if wire_bits f p
         then struct_size_bytes f \<noteq> 0 \<and> bit_at s (slot_low f + (p - wire_start f))
         else bit_at buf p)"
      using bs [of "p - wire_start f"] by presburger
  qed
  ultimately show ?thesis by blast
qed

lemma pack_field_bits:
  assumes "field_ok f" and "wire_need f \<le> length buf"
    and "struct_size_bytes f = 0 \<or> slot_end f \<le> 8 * length s"
  shows "\<exists>b. pack_field f s buf = Some b \<and> packs_bits f s buf b"
  using assms pack_le32_bits pack_le64_bits pack_long_bits by (auto simp: pack_field_def)

section \<open>Every branch of the unpacker is a copy of bits back\<close>

text \<open>
  \<open>unpack_start f\<close> is the wire bit the unpacker starts to read at; it agrees with
  \<open>wire_start f\<close> except for 33 to 64 bit fields away from word 0.
\<close>

definition unpack_start :: "ib_field \<Rightarrow> nat" where
  "unpack_start f =
     (if 32 < size_bits f \<and> size_bits f \<le> 64 then 64 else 32) * offset_words f + offset_bits f"

definition unpack_need :: "ib_field \<Rightarrow> nat" where
  "unpack_need f =
     (if size_bits f \<le> 32 then 4 * offset_words f + 4
      else if size_bits f \<le> 64 then 8 * offset_words f + 8
      else 4 * offset_words f + offset_bits f div 8 + size_bits f div 8)"

definition unpacks_bits :: "ib_field \<Rightarrow> block \<Rightarrow> block \<Rightarrow> block \<Rightarrow> bool" where
  "unpacks_bits f buf s s' \<longleftrightarrow> length s' = length s \<and>
     (\<forall>p < 8 * length s. bit_at s' p =
        (if slot_bits f p
         then slot_low f \<le> p \<and> bit_at buf (unpack_start f + (p - slot_low f))
         else bit_at s p))"

lemma value_write_bits:
  assumes "slot_ok f" and "struct_size_bytes f \<noteq> 0" and "slot_end f \<le> 8 * length s"
    and v: "\<And>i. i < 8 * struct_size_bytes f \<Longrightarrow>
      bit v i \<longleftrightarrow> i < size_bits f \<and> bit_at buf (unpack_start f + size_bits f - 1 - i)"
  shows "\<exists>s'. value_write (struct_offset_bytes f) (struct_size_bytes f) v s = Some s' \<and>
           unpacks_bits f buf s s'"
proof -
  let ?n = "struct_size_bytes f" and ?o = "struct_offset_bytes f"
  let ?s = "take ?o s @ be_bytes ?n v @ drop (?o + ?n) s"
  have n: "?o + ?n \<le> length s" using assms(3) by (simp add: slot_end_def)
  have "value_write ?o ?n v s = Some ?s"
    using assms(1,2) n by (auto simp: value_write_def slot_ok_def mem_simps)
  moreover have "unpacks_bits f buf s ?s"
    unfolding unpacks_bits_def
  proof (intro conjI allI impI)
    show "length ?s = length s" using n by simp
  next
    fix p assume p: "p < 8 * length s"
    show "bit_at ?s p = (if slot_bits f p
         then slot_low f \<le> p \<and> bit_at buf (unpack_start f + (p - slot_low f)) else bit_at s p)"
    proof (cases "slot_bits f p")
      case True
      let ?i = "slot_end f - 1 - p"
      have q: "p - 8 * ?o < 8 * ?n" "8 * ?n - 1 - (p - 8 * ?o) = ?i" "?i < 8 * ?n"
        using True by (auto simp: slot_bits_def slot_end_def)
      have "?i < size_bits f \<longleftrightarrow> slot_low f \<le> p"
        using True assms(1,2) by (auto simp: slot_bits_def slot_low_def slot_ok_def slot_end_def)
      moreover have "unpack_start f + size_bits f - 1 - ?i = unpack_start f + (p - slot_low f)"
        if "slot_low f \<le> p"
        using that True assms(1,2) by (auto simp: slot_bits_def slot_low_def slot_ok_def slot_end_def)
      ultimately show ?thesis
        using True bit_at_write [of ?o "be_bytes ?n v" s p] n p q bit_at_be_bytes [OF q(1), of v]
          v [OF q(3)]
        by (auto simp: slot_bits_def slot_end_def)
    next
      case False
      then show ?thesis
        using bit_at_write [of ?o "be_bytes ?n v" s p] n p by (auto simp: slot_bits_def slot_end_def)
    qed
  qed
  ultimately show ?thesis by blast
qed

lemma unpack_le32_bits:
  assumes "field_ok f" and "size_bits f \<le> 32" and "unpack_need f \<le> length buf"
    and "struct_size_bytes f \<noteq> 0" and "slot_end f \<le> 8 * length s"
  shows "\<exists>s'. unpack_le32 f buf s = Some s' \<and> unpacks_bits f buf s s'"
proof -
  have ok: "offset_bits f + size_bits f \<le> 32" "slot_ok f"
    using assms(1,2) by (simp_all add: field_ok_def)
  let ?sh = "32 - offset_bits f - size_bits f" and ?a = "4 * offset_words f"
  let ?mask = "ucast (push_bit ?sh (2 ^ size_bits f - 1 :: u64)) :: u32"
  let ?v = "ucast (drop_bit ?sh (ucast (be_val (take 4 (drop ?a buf))) AND ?mask :: u32)) :: u64"
  have a: "?a + 4 \<le> length buf" using assms(2,3) by (simp add: unpack_need_def)
  have "\<exists>s'. value_write (struct_offset_bytes f) (struct_size_bytes f) ?v s = Some s' \<and>
           unpacks_bits f buf s s'"
  proof (rule value_write_bits [OF ok(2) assms(4,5)])
    fix i assume "i < 8 * struct_size_bytes f"
    have "bit ?v i \<longleftrightarrow> i < size_bits f \<and> bit (be_val (take 4 (drop ?a buf))) (?sh + i)"
      using ok(1) by (auto simp: bit_simps mask_eq_exp_minus_1 [symmetric])
    also have "\<dots> \<longleftrightarrow> i < size_bits f \<and> bit_at buf (unpack_start f + size_bits f - 1 - i)"
    proof -
      have "bit (be_val (take 4 (drop ?a buf))) (?sh + i) \<longleftrightarrow>
          bit_at buf (unpack_start f + size_bits f - 1 - i)" if "i < size_bits f"
      proof -
        have "8 * ?a + (8 * 4 - 1 - (?sh + i)) = unpack_start f + size_bits f - 1 - i"
          and "?sh + i < 8 * 4"
          using ok(1) that assms(2) by (auto simp: unpack_start_def)
        then show ?thesis
          using bit_at_slice [of "8 * 4 - 1 - (?sh + i)" 4 ?a buf] a
          by (simp add: bit_be_val)
      qed
      then show ?thesis by blast
    qed
    finally show "bit ?v i \<longleftrightarrow>
      i < size_bits f \<and> bit_at buf (unpack_start f + size_bits f - 1 - i)" .
  qed
  then show ?thesis
    using ok a by (auto simp: unpack_le32_def Let_def mem_simps)
qed


lemma unpack_le64_bits:
  assumes "field_ok f" and "32 < size_bits f" "size_bits f \<le> 64"
    and "unpack_need f \<le> length buf"
    and "struct_size_bytes f \<noteq> 0" and "slot_end f \<le> 8 * length s"
  shows "\<exists>s'. unpack_le64 f buf s = Some s' \<and> unpacks_bits f buf s s'"
proof -
  have ok: "offset_bits f + size_bits f \<le> 64" "slot_ok f"
    using assms(1-3) by (simp_all add: field_ok_def)
  let ?sh = "64 - offset_bits f - size_bits f" and ?a = "8 * offset_words f"
  let ?mask = "push_bit ?sh (drop_bit (64 - size_bits f) (NOT 0 :: u64))"
  let ?v = "drop_bit ?sh (be_val (take 8 (drop ?a buf)) AND ?mask)"
  have a: "?a + 8 \<le> length buf" using assms(2-4) by (simp add: unpack_need_def)
  have "\<exists>s'. value_write (struct_offset_bytes f) (struct_size_bytes f) ?v s = Some s' \<and>
           unpacks_bits f buf s s'"
  proof (rule value_write_bits [OF ok(2) assms(5,6)])
    fix i assume "i < 8 * struct_size_bytes f"
    have "bit ?v i \<longleftrightarrow> i < size_bits f \<and> bit (be_val (take 8 (drop ?a buf))) (?sh + i)"
      using ok(1) by (auto simp: bit_simps)
    also have "\<dots> \<longleftrightarrow> i < size_bits f \<and> bit_at buf (unpack_start f + size_bits f - 1 - i)"
    proof -
      have "bit (be_val (take 8 (drop ?a buf))) (?sh + i) \<longleftrightarrow>
          bit_at buf (unpack_start f + size_bits f - 1 - i)" if "i < size_bits f"
      proof -
        have "8 * ?a + (8 * 8 - 1 - (?sh + i)) = unpack_start f + size_bits f - 1 - i"
          and "?sh + i < 8 * 8"
          using ok(1) that assms(2,3) by (auto simp: unpack_start_def)
        then show ?thesis
          using bit_at_slice [of "8 * 8 - 1 - (?sh + i)" 8 ?a buf] a
          by (simp add: bit_be_val)
      qed
      then show ?thesis by blast
    qed
    finally show "bit ?v i \<longleftrightarrow>
      i < size_bits f \<and> bit_at buf (unpack_start f + size_bits f - 1 - i)" .
  qed
  then show ?thesis
    using ok a by (auto simp: unpack_le64_def Let_def mem_simps)
qed

lemma unpack_long_bits:
  assumes "field_ok f" and "64 < size_bits f" and "unpack_need f \<le> length buf"
    and "struct_size_bytes f \<noteq> 0" and "slot_end f \<le> 8 * length s"
  shows "\<exists>s'. unpack_long f buf s = Some s' \<and> unpacks_bits f buf s s'"
proof -
  let ?n = "struct_size_bytes f" and ?a = "4 * offset_words f + offset_bits f div 8"
  let ?o = "struct_offset_bytes f"
  let ?bs = "take ?n (drop ?a buf)"
  let ?s = "take ?o s @ ?bs @ drop (?o + ?n) s"
  have n: "size_bits f div 8 = ?n" "slot_low f = 8 * ?o" "unpack_start f = 8 * ?a"
    using assms(1,2,4) by (auto simp: field_ok_def slot_low_def slot_end_def unpack_start_def)
  have a: "?a + ?n \<le> length buf" "?o + ?n \<le> length s"
    using assms(2,3,5) n by (simp_all add: unpack_need_def slot_end_def)
  then have len: "length ?bs = ?n" by simp
  have "unpack_long f buf s = Some ?s"
    using a n len by (simp add: unpack_long_def mem_simps)
  moreover have "unpacks_bits f buf s ?s"
    unfolding unpacks_bits_def
  proof (intro conjI allI impI)
    show "length ?s = length s" using a len by simp
  next
    fix p assume p: "p < 8 * length s"
    have w: "slot_bits f p \<longleftrightarrow> 8 * ?o \<le> p \<and> p < 8 * (?o + ?n)"
      by (simp add: slot_bits_def slot_end_def)
    have "bit_at ?s p = (if slot_bits f p then bit_at ?bs (p - 8 * ?o) else bit_at s p)"
      using bit_at_write [of ?o ?bs s p] a p unfolding len w by simp
    also have "\<dots> = (if slot_bits f p
         then slot_low f \<le> p \<and> bit_at buf (unpack_start f + (p - slot_low f)) else bit_at s p)"
      using bit_at_slice [of "p - 8 * ?o" ?n ?a buf] a(1) unfolding w n(2,3) by auto
    finally show "bit_at ?s p = \<dots>" .
  qed
  ultimately show ?thesis by blast
qed

lemma unpack_field_bits:
  assumes "field_ok f" and "unpack_need f \<le> length buf"
    and "struct_size_bytes f \<noteq> 0" and "slot_end f \<le> 8 * length s"
  shows "\<exists>s'. unpack_field f buf s = Some s' \<and> unpacks_bits f buf s s'"
  using assms unpack_le32_bits unpack_le64_bits unpack_long_bits by (auto simp: unpack_field_def)

section \<open>Tables\<close>

text \<open>
  \<open>table_ok wl sl desc\<close>: every field of the table is well formed, lies within \<open>wl\<close> wire
  bytes and \<open>sl\<close> structure bytes, and no two fields share a wire bit or a structure byte.
  It is executable, so a table of the driver is shown well formed by evaluation.
\<close>

definition wire_disjoint :: "ib_field \<Rightarrow> ib_field \<Rightarrow> bool" where
  "wire_disjoint f g \<longleftrightarrow>
     wire_start f + size_bits f \<le> wire_start g \<or> wire_start g + size_bits g \<le> wire_start f"

definition slot_disjoint :: "ib_field \<Rightarrow> ib_field \<Rightarrow> bool" where
  "slot_disjoint f g \<longleftrightarrow> struct_size_bytes f = 0 \<or> struct_size_bytes g = 0 \<or>
     slot_end f \<le> 8 * struct_offset_bytes g \<or> slot_end g \<le> 8 * struct_offset_bytes f"

definition unpack_agrees :: "ib_field \<Rightarrow> bool" where
  "unpack_agrees f \<longleftrightarrow> struct_size_bytes f = 0 \<or> size_bits f \<le> 32 \<or> 64 < size_bits f \<or>
     offset_words f = 0"

definition field_in :: "nat \<Rightarrow> nat \<Rightarrow> ib_field \<Rightarrow> bool" where
  "field_in wl sl f \<longleftrightarrow> wire_need f \<le> wl \<and>
     (struct_size_bytes f = 0 \<or> slot_end f \<le> 8 * sl)"

definition table_ok :: "nat \<Rightarrow> nat \<Rightarrow> ib_field list \<Rightarrow> bool" where
  "table_ok wl sl desc \<longleftrightarrow> list_all field_ok desc \<and> list_all (field_in wl sl) desc \<and>
     sorted_wrt wire_disjoint desc \<and> sorted_wrt slot_disjoint desc"

lemma wire_disjointD: "wire_disjoint f g \<Longrightarrow> wire_bits f p \<Longrightarrow> \<not> wire_bits g p"
  by (auto simp: wire_disjoint_def wire_bits_def)

lemma slot_disjointD:
  "slot_disjoint f g \<Longrightarrow> struct_size_bytes f \<noteq> 0 \<Longrightarrow> struct_size_bytes g \<noteq> 0 \<Longrightarrow>
   slot_bits f p \<Longrightarrow> \<not> slot_bits g p"
  by (auto simp: slot_disjoint_def slot_bits_def)

lemma ib_pack_bits:
  assumes "table_ok wl sl desc" and "wl \<le> length buf" and "sl \<le> length s"
  shows "\<exists>b. ib_pack desc s buf = Some b \<and> length b = length buf \<and>
    (\<forall>f \<in> set desc. \<forall>p < 8 * length buf. wire_bits f p \<longrightarrow>
       bit_at b p = (struct_size_bytes f \<noteq> 0 \<and> bit_at s (slot_low f + (p - wire_start f)))) \<and>
    (\<forall>p < 8 * length buf. (\<forall>f \<in> set desc. \<not> wire_bits f p) \<longrightarrow> bit_at b p = bit_at buf p)"
  using assms(1,2)
proof (induction desc arbitrary: buf)
  case Nil
  then show ?case by simp
next
  case (Cons f desc)
  have f: "field_ok f" "wire_need f \<le> length buf"
      "struct_size_bytes f = 0 \<or> slot_end f \<le> 8 * length s"
    and d: "table_ok wl sl desc" and dis: "\<forall>g \<in> set desc. wire_disjoint f g"
    using Cons.prems assms(3) by (auto simp: table_ok_def field_in_def)
  obtain b where b: "pack_field f s buf = Some b" "packs_bits f s buf b"
    using pack_field_bits [OF f] by blast
  then have len: "length b = length buf" by (simp add: packs_bits_def)
  obtain c where c: "ib_pack desc s b = Some c" "length c = length b"
    and in_d: "\<forall>g \<in> set desc. \<forall>p < 8 * length b. wire_bits g p \<longrightarrow>
       bit_at c p = (struct_size_bytes g \<noteq> 0 \<and> bit_at s (slot_low g + (p - wire_start g)))"
    and out_d: "\<forall>p < 8 * length b. (\<forall>g \<in> set desc. \<not> wire_bits g p) \<longrightarrow> bit_at c p = bit_at b p"
    using Cons.IH [OF d, of b] Cons.prems(2) len by auto
  have "bit_at c p = (struct_size_bytes f \<noteq> 0 \<and> bit_at s (slot_low f + (p - wire_start f)))"
    if p: "p < 8 * length buf" "wire_bits f p" for p
  proof -
    have "\<forall>g \<in> set desc. \<not> wire_bits g p" using dis wire_disjointD p(2) by blast
    then have "bit_at c p = bit_at b p" using out_d p(1) len by simp
    with p b(2) show ?thesis by (simp add: packs_bits_def)
  qed
  moreover have "bit_at c p = bit_at buf p"
    if "p < 8 * length buf" "\<forall>g \<in> set (f # desc). \<not> wire_bits g p" for p
    using that out_d len b(2) by (auto simp: packs_bits_def)
  ultimately show ?case using b(1) c in_d len by auto
qed

lemma ib_unpack_bits:
  assumes "table_ok wl sl desc" and "list_all unpack_agrees desc"
    and "wl \<le> length buf" and "sl \<le> length s"
  shows "\<exists>s'. ib_unpack desc buf s = Some s' \<and> length s' = length s \<and>
    (\<forall>f \<in> set desc. \<forall>p < 8 * length s. struct_size_bytes f \<noteq> 0 \<longrightarrow> slot_bits f p \<longrightarrow>
       bit_at s' p = (slot_low f \<le> p \<and> bit_at buf (wire_start f + (p - slot_low f)))) \<and>
    (\<forall>p < 8 * length s. (\<forall>f \<in> set desc. struct_size_bytes f \<noteq> 0 \<longrightarrow> \<not> slot_bits f p) \<longrightarrow>
       bit_at s' p = bit_at s p)"
  using assms(1,2,4)
proof (induction desc arbitrary: s)
  case Nil
  then show ?case by simp
next
  case (Cons f desc)
  have d: "table_ok wl sl desc" "list_all unpack_agrees desc"
    and dis: "\<forall>g \<in> set desc. slot_disjoint f g"
    using Cons.prems by (auto simp: table_ok_def)
  show ?case
  proof (cases "struct_size_bytes f = 0")
    case True
    then have "unpack_field f buf s = Some s" by (simp add: unpack_field_def)
    then show ?thesis using Cons.IH [OF d Cons.prems(3)] True by auto
  next
    case False
    have st: "unpack_start f = wire_start f" and f: "field_ok f" "unpack_need f \<le> length buf"
      "slot_end f \<le> 8 * length s"
      using Cons.prems assms(3) False
      by (auto simp: table_ok_def field_in_def unpack_agrees_def unpack_need_def wire_need_def
          unpack_start_def wire_start_def split: if_splits)
    obtain t where t: "unpack_field f buf s = Some t" "unpacks_bits f buf s t"
      using unpack_field_bits [OF f(1,2) False f(3)] by blast
    then have len: "length t = length s" by (simp add: unpacks_bits_def)
    obtain u where u: "ib_unpack desc buf t = Some u" "length u = length t"
      and in_d: "\<forall>g \<in> set desc. \<forall>p < 8 * length t. struct_size_bytes g \<noteq> 0 \<longrightarrow> slot_bits g p \<longrightarrow>
         bit_at u p = (slot_low g \<le> p \<and> bit_at buf (wire_start g + (p - slot_low g)))"
      and out_d: "\<forall>p < 8 * length t.
         (\<forall>g \<in> set desc. struct_size_bytes g \<noteq> 0 \<longrightarrow> \<not> slot_bits g p) \<longrightarrow> bit_at u p = bit_at t p"
      using Cons.IH [OF d, of t] Cons.prems(3) len by auto
    have "bit_at u p = (slot_low f \<le> p \<and> bit_at buf (wire_start f + (p - slot_low f)))"
      if p: "p < 8 * length s" "slot_bits f p" for p
    proof -
      have "\<forall>g \<in> set desc. struct_size_bytes g \<noteq> 0 \<longrightarrow> \<not> slot_bits g p"
        using dis slot_disjointD False p(2) by blast
      then have "bit_at u p = bit_at t p" using out_d p(1) len by simp
      with p t(2) st show ?thesis by (simp add: unpacks_bits_def)
    qed
    moreover have "bit_at u p = bit_at s p"
      if "p < 8 * length s" "\<forall>g \<in> set (f # desc). struct_size_bytes g \<noteq> 0 \<longrightarrow> \<not> slot_bits g p" for p
      using that out_d len t(2) False by (auto simp: unpacks_bits_def)
    ultimately show ?thesis using t(1) u in_d len by auto
  qed
qed


section \<open>Round trips\<close>

text \<open>
  The interface between the packer and its clients: a client supplies a table, the
  packer promises the laws proved in the locale \<open>wire_table\<close>.  \<open>slot f s\<close> is the memory
  of the field \<open>f\<close> in the structure \<open>s\<close>; \<open>slot_fits f s\<close> says that its value fits the
  field's width on the wire.
\<close>

definition slot :: "ib_field \<Rightarrow> block \<Rightarrow> block" where
  "slot f s = take (struct_size_bytes f) (drop (struct_offset_bytes f) s)"

definition slot_fits :: "ib_field \<Rightarrow> block \<Rightarrow> bool" where
  "slot_fits f s \<longleftrightarrow> struct_size_bytes f = 0 \<or> size_bits f = 8 * struct_size_bytes f \<or>
     unat (be_val (slot f s)) < 2 ^ size_bits f"

lemma slot_fitsD:
  assumes "slot_fits f s" and "field_ok f" and "struct_size_bytes f \<noteq> 0"
    and "slot_end f \<le> 8 * length s" and "slot_bits f p" and "bit_at s p"
  shows "slot_low f \<le> p"
proof (rule ccontr)
  assume low: "\<not> slot_low f \<le> p"
  let ?n = "struct_size_bytes f" and ?i = "slot_end f - 1 - p"
  have ne: "size_bits f \<noteq> 8 * ?n"
    using low assms(5) by (auto simp: slot_low_def slot_end_def slot_bits_def)
  then have sz: "size_bits f \<le> 8 * ?n" "?n \<le> 8"
    using assms(2,3) by (auto simp: field_ok_def slot_ok_def split: if_splits)
  have n: "length (slot f s) = ?n" using assms(4) by (simp add: slot_def slot_end_def)
  have i: "?i < 8 * ?n" "size_bits f \<le> ?i" "8 * struct_offset_bytes f + (8 * ?n - 1 - ?i) = p"
    using low assms(5) sz by (auto simp: slot_low_def slot_bits_def slot_end_def)
  have "bit_at (slot f s) (8 * ?n - 1 - ?i) = bit_at s p"
    unfolding slot_def using i assms(4) bit_at_slice [of "8 * ?n - 1 - ?i" ?n "struct_offset_bytes f" s]
    by (simp add: slot_end_def)
  then have "bit (be_val (slot f s)) ?i"
    using i(1) n sz(2) assms(6) by (simp add: bit_be_val)
  moreover have "unat (be_val (slot f s)) < 2 ^ size_bits f"
    using assms(1,3) ne by (auto simp: slot_fits_def)
  ultimately show False using i(2) bit_unat_less by fastforce
qed

lemma wire_end_need: "field_ok f \<Longrightarrow> wire_start f + size_bits f \<le> 8 * wire_need f"
proof (cases "size_bits f \<le> 64")
  case True
  then show "field_ok f \<Longrightarrow> ?thesis"
    by (auto simp: field_ok_def wire_need_def wire_start_def split: if_splits)
next
  case False
  assume "field_ok f"
  with False have "8 * (offset_bits f div 8) = offset_bits f" "8 * (size_bits f div 8) = size_bits f"
    by (auto simp: field_ok_def)
  with False show ?thesis by (simp add: wire_need_def wire_start_def)
qed

locale wire_table =
  fixes desc :: "ib_field list" and wl sl :: nat
  assumes table: "table_ok wl sl desc" and agrees: "list_all unpack_agrees desc"
begin

lemma member:
  assumes "f \<in> set desc"
  shows "field_ok f" "wire_need f \<le> wl" "struct_size_bytes f = 0 \<or> slot_end f \<le> 8 * sl"
  using table assms by (auto simp: table_ok_def field_in_def list_all_iff)

lemma wire_in: "f \<in> set desc \<Longrightarrow> wire_bits f p \<Longrightarrow> p < 8 * wl"
  using member [of f] wire_end_need [of f] by (simp add: wire_bits_def)

lemma slot_in: "f \<in> set desc \<Longrightarrow> struct_size_bytes f \<noteq> 0 \<Longrightarrow> slot_bits f p \<Longrightarrow> p < 8 * sl"
  using member [of f] by (auto simp: slot_bits_def)

lemma slot_wire:
  assumes "f \<in> set desc" "struct_size_bytes f \<noteq> 0" "slot_bits f p" "slot_low f \<le> p"
  shows "wire_bits f (wire_start f + (p - slot_low f))"
  using assms member(1) [OF assms(1)]
  by (auto simp: wire_bits_def slot_low_def slot_bits_def slot_end_def field_ok_def slot_ok_def
      split: if_splits)

lemma roundtrip_bits:
  assumes "wl \<le> length buf" "sl \<le> length s" "sl \<le> length s0"
  shows "\<exists>w s'. ib_pack desc s buf = Some w \<and> length w = length buf \<and>
    ib_unpack desc w s0 = Some s' \<and> length s' = length s0 \<and>
    (\<forall>f \<in> set desc. \<forall>p. struct_size_bytes f \<noteq> 0 \<longrightarrow> slot_bits f p \<longrightarrow>
       bit_at s' p = (slot_low f \<le> p \<and> bit_at s p)) \<and>
    (\<forall>p < 8 * length s0. (\<forall>f \<in> set desc. struct_size_bytes f \<noteq> 0 \<longrightarrow> \<not> slot_bits f p) \<longrightarrow>
       bit_at s' p = bit_at s0 p)"
proof -
  obtain w where w: "ib_pack desc s buf = Some w" "length w = length buf"
    and wb: "\<forall>f \<in> set desc. \<forall>p < 8 * length buf. wire_bits f p \<longrightarrow>
       bit_at w p = (struct_size_bytes f \<noteq> 0 \<and> bit_at s (slot_low f + (p - wire_start f)))"
    using ib_pack_bits [OF table assms(1,2)] by blast
  obtain s' where s': "ib_unpack desc w s0 = Some s'" "length s' = length s0"
    and sb: "\<forall>f \<in> set desc. \<forall>p < 8 * length s0. struct_size_bytes f \<noteq> 0 \<longrightarrow> slot_bits f p \<longrightarrow>
       bit_at s' p = (slot_low f \<le> p \<and> bit_at w (wire_start f + (p - slot_low f)))"
    and out: "\<forall>p < 8 * length s0. (\<forall>f \<in> set desc. struct_size_bytes f \<noteq> 0 \<longrightarrow> \<not> slot_bits f p) \<longrightarrow>
       bit_at s' p = bit_at s0 p"
    using ib_unpack_bits [OF table agrees, of w s0] assms w(2) by auto
  have "bit_at s' p = (slot_low f \<le> p \<and> bit_at s p)"
    if f: "f \<in> set desc" "struct_size_bytes f \<noteq> 0" "slot_bits f p" for f p
  proof -
    have "p < 8 * length s0" using slot_in [OF f] assms(3) by simp
    then have "bit_at s' p = (slot_low f \<le> p \<and> bit_at w (wire_start f + (p - slot_low f)))"
      using sb f by blast
    moreover have "bit_at w (wire_start f + (p - slot_low f)) = bit_at s p" if "slot_low f \<le> p"
    proof -
      let ?q = "wire_start f + (p - slot_low f)"
      have "wire_bits f ?q" using slot_wire [OF f that] .
      moreover from this have "?q < 8 * length buf" using wire_in [OF f(1)] assms(1) by fastforce
      ultimately show ?thesis using wb f that by simp
    qed
    ultimately show ?thesis by blast
  qed
  with w s' out show ?thesis by blast
qed

lemma roundtrip_fields:
  assumes "wl \<le> length buf" "sl \<le> length s" "sl \<le> length s0"
  shows "\<exists>w s'. ib_pack desc s buf = Some w \<and> length w = length buf \<and>
    ib_unpack desc w s0 = Some s' \<and> length s' = length s0 \<and>
    (\<forall>f \<in> set desc. slot_fits f s \<longrightarrow> slot f s' = slot f s)"
proof -
  obtain w s' where ws: "ib_pack desc s buf = Some w" "length w = length buf"
    "ib_unpack desc w s0 = Some s'" "length s' = length s0"
    and b: "\<forall>f \<in> set desc. \<forall>p. struct_size_bytes f \<noteq> 0 \<longrightarrow> slot_bits f p \<longrightarrow>
       bit_at s' p = (slot_low f \<le> p \<and> bit_at s p)"
    using roundtrip_bits [OF assms(1-3)] by blast
  have "slot f s' = slot f s" if f: "f \<in> set desc" and fits: "slot_fits f s" for f
  proof (cases "struct_size_bytes f = 0")
    case True
    then show ?thesis by (simp add: slot_def)
  next
    case False
    let ?n = "struct_size_bytes f" and ?o = "struct_offset_bytes f"
    have e: "slot_end f \<le> 8 * sl" using member(3) [OF f] False by simp
    then have e': "?o + ?n \<le> length s" "?o + ?n \<le> length s'"
      using assms(2,3) ws(4) by (simp_all add: slot_end_def)
    show ?thesis
    proof (rule block_eqI)
      show "length (slot f s') = length (slot f s)" using e' by (simp add: slot_def)
    next
      fix p assume "p < 8 * length (slot f s')"
      then have p: "p < 8 * ?n" using e' by (simp add: slot_def)
      then have sb: "slot_bits f (8 * ?o + p)" by (simp add: slot_bits_def slot_end_def)
      have "bit_at s (8 * ?o + p) \<Longrightarrow> slot_low f \<le> 8 * ?o + p"
        using slot_fitsD [OF fits member(1) [OF f] False _ sb] e assms(2) by simp
      then have "bit_at s' (8 * ?o + p) = bit_at s (8 * ?o + p)"
        using b f False sb by blast
      then show "bit_at (slot f s') p = bit_at (slot f s) p"
        using p e' by (simp add: slot_def bit_at_simps)
    qed
  qed
  with ws show ?thesis by blast
qed

lemma roundtrip:
  assumes "wl \<le> length buf" "sl \<le> length s" "sl \<le> length s0"
    and "\<And>f. f \<in> set desc \<Longrightarrow> slot_fits f s"
  shows "\<exists>w s'. ib_pack desc s buf = Some w \<and> length w = length buf \<and>
    ib_unpack desc w s0 = Some s' \<and> length s' = length s0 \<and>
    (\<forall>f \<in> set desc. slot f s' = slot f s)"
  using roundtrip_fields [OF assms(1-3)] assms(4) by blast

lemma repack:
  assumes "wl \<le> length w" "sl \<le> length s0" "wl \<le> length buf"
    and zero: "\<And>f p. f \<in> set desc \<Longrightarrow> struct_size_bytes f = 0 \<Longrightarrow> wire_bits f p \<Longrightarrow> \<not> bit_at w p"
  shows "\<exists>s b. ib_unpack desc w s0 = Some s \<and> ib_pack desc s buf = Some b \<and>
    (\<forall>f \<in> set desc. \<forall>p. wire_bits f p \<longrightarrow> bit_at b p = bit_at w p)"
proof -
  obtain s where s: "ib_unpack desc w s0 = Some s" "length s = length s0"
    and sb: "\<forall>f \<in> set desc. \<forall>p < 8 * length s0. struct_size_bytes f \<noteq> 0 \<longrightarrow> slot_bits f p \<longrightarrow>
       bit_at s p = (slot_low f \<le> p \<and> bit_at w (wire_start f + (p - slot_low f)))"
    using ib_unpack_bits [OF table agrees assms(1,2)] by blast
  obtain b where b: "ib_pack desc s buf = Some b"
    and bb: "\<forall>f \<in> set desc. \<forall>p < 8 * length buf. wire_bits f p \<longrightarrow>
       bit_at b p = (struct_size_bytes f \<noteq> 0 \<and> bit_at s (slot_low f + (p - wire_start f)))"
    using ib_pack_bits [OF table assms(3), of s] assms(2) s(2) by auto
  have "bit_at b p = bit_at w p" if f: "f \<in> set desc" "wire_bits f p" for f p
  proof (cases "struct_size_bytes f = 0")
    case True
    then show ?thesis using bb f zero wire_in [OF f] assms(3) by fastforce
  next
    case False
    let ?q = "slot_low f + (p - wire_start f)"
    have q: "slot_bits f ?q" "slot_low f \<le> ?q" "wire_start f + (?q - slot_low f) = p"
      using f False member(1) [OF f(1)]
      by (auto simp: wire_bits_def slot_low_def slot_bits_def slot_end_def field_ok_def slot_ok_def
          split: if_splits)
    have "p < 8 * length buf" using wire_in [OF f] assms(3) by simp
    then have "bit_at b p = bit_at s ?q" using bb f False by blast
    also have "\<dots> = bit_at w p"
      using sb f(1) False q slot_in [OF f(1) False q(1)] assms(2) by fastforce
    finally show ?thesis .
  qed
  with s b show ?thesis by blast
qed

lemma unpack_prefix:
  assumes "take wl w = take wl w'" "wl \<le> length w" "wl \<le> length w'" "sl \<le> length s"
  shows "ib_unpack desc w s = ib_unpack desc w' s"
proof -
  obtain t where t: "ib_unpack desc w s = Some t" "length t = length s"
    and tb: "\<forall>f \<in> set desc. \<forall>p < 8 * length s. struct_size_bytes f \<noteq> 0 \<longrightarrow> slot_bits f p \<longrightarrow>
       bit_at t p = (slot_low f \<le> p \<and> bit_at w (wire_start f + (p - slot_low f)))"
    and to: "\<forall>p < 8 * length s. (\<forall>f \<in> set desc. struct_size_bytes f \<noteq> 0 \<longrightarrow> \<not> slot_bits f p) \<longrightarrow>
       bit_at t p = bit_at s p"
    using ib_unpack_bits [OF table agrees assms(2,4)] by blast
  obtain u where u: "ib_unpack desc w' s = Some u" "length u = length s"
    and ub: "\<forall>f \<in> set desc. \<forall>p < 8 * length s. struct_size_bytes f \<noteq> 0 \<longrightarrow> slot_bits f p \<longrightarrow>
       bit_at u p = (slot_low f \<le> p \<and> bit_at w' (wire_start f + (p - slot_low f)))"
    and uo: "\<forall>p < 8 * length s. (\<forall>f \<in> set desc. struct_size_bytes f \<noteq> 0 \<longrightarrow> \<not> slot_bits f p) \<longrightarrow>
       bit_at u p = bit_at s p"
    using ib_unpack_bits [OF table agrees assms(3,4)] by blast
  have ww: "bit_at w q = bit_at w' q" if "q < 8 * wl" for q
    using bit_at_slice [of q wl 0 w] bit_at_slice [of q wl 0 w'] that assms(1-3) by simp
  have "t = u"
  proof (rule block_eqI)
    show "length t = length u" using t(2) u(2) by simp
  next
    fix p assume "p < 8 * length t"
    then have p: "p < 8 * length s" using t(2) by simp
    show "bit_at t p = bit_at u p"
    proof (cases "\<exists>f \<in> set desc. struct_size_bytes f \<noteq> 0 \<and> slot_bits f p")
      case True
      then obtain f where f: "f \<in> set desc" "struct_size_bytes f \<noteq> 0" "slot_bits f p" by blast
      show ?thesis
        using tb ub f p ww [OF wire_in [OF f(1) slot_wire [OF f]]] by blast
    next
      case False
      then show ?thesis using to uo p by blast
    qed
  qed
  with t u show ?thesis by simp
qed

lemma pack_keeps_tail:
  assumes "\<forall>f \<in> set desc. wire_start f + size_bits f \<le> 8 * n" "n \<le> length w"
    "wl \<le> length w" "sl \<le> length s" "ib_pack desc s w = Some d"
  shows "drop n d = drop n w"
proof -
  have d: "length d = length w"
    "\<forall>p < 8 * length w. (\<forall>f \<in> set desc. \<not> wire_bits f p) \<longrightarrow> bit_at d p = bit_at w p"
    using ib_pack_bits [OF table assms(3,4)] assms(5) by auto
  have out: "\<not> wire_bits f (8 * n + q)" if "f \<in> set desc" for f q
    using assms(1) that by (fastforce simp: wire_bits_def)
  let ?m = "length w - n"
  have tail: "bit_at (drop n v) q = bit_at v (8 * n + q)" if "length v = length w" "q < 8 * ?m" for v q
    using bit_at_slice [of q ?m n v] that assms(2) by simp
  show ?thesis
  proof (rule block_eqI)
    fix q assume "q < 8 * length (drop n d)"
    then have q: "q < 8 * ?m" using d(1) by simp
    then have "8 * n + q < 8 * length w" using assms(2) by simp
    then show "bit_at (drop n d) q = bit_at (drop n w) q"
      using d(2) out tail [OF d(1) q] tail [OF refl q] by simp
  qed (use d(1) in simp)
qed

lemma pack_at_spec:
  assumes "off + wl \<le> length buf" "sl \<le> length s"
  shows "\<exists>b. pack_at desc s off buf = Some b \<and> length b = length buf \<and> take off b = take off buf \<and>
    ((\<forall>f \<in> set desc. slot_fits f s) \<longrightarrow> (\<forall>w s0. take (off + wl) w = take (off + wl) b \<longrightarrow>
       off + wl \<le> length w \<longrightarrow> sl \<le> length s0 \<longrightarrow>
       (\<exists>s'. ib_unpack desc (drop off w) s0 = Some s' \<and> length s' = length s0 \<and>
          (\<forall>f \<in> set desc. slot f s' = slot f s))))"
proof -
  have off: "wl \<le> length (drop off buf)" using assms(1) by simp
  obtain d where d: "ib_pack desc s (drop off buf) = Some d" "length d = length (drop off buf)"
    using ib_pack_bits [OF table off assms(2)] by blast
  let ?b = "take off buf @ d"
  have b: "pack_at desc s off buf = Some ?b" "length ?b = length buf" "take off ?b = take off buf"
    using assms(1) d by (simp_all add: pack_at_def)
  have "\<exists>s'. ib_unpack desc (drop off w) s0 = Some s' \<and> length s' = length s0 \<and>
          (\<forall>f \<in> set desc. slot f s' = slot f s)"
    if fits: "\<forall>f \<in> set desc. slot_fits f s"
      and w: "take (off + wl) w = take (off + wl) ?b" "off + wl \<le> length w" "sl \<le> length s0" for w s0
  proof -
    obtain s' where s': "ib_unpack desc d s0 = Some s'" "length s' = length s0"
      "\<forall>f \<in> set desc. slot f s' = slot f s"
      using roundtrip [OF off assms(2) w(3)] fits d(1) by force
    have "take wl (drop off w) = drop off (take (off + wl) w)" by (simp add: drop_take)
    also have "\<dots> = take wl d" using w(1) assms(1) by (simp add: drop_take)
    finally have "ib_unpack desc (drop off w) s0 = ib_unpack desc d s0"
      using unpack_prefix [of "drop off w" d s0] w(2,3) d(2) off by simp
    with s' show ?thesis by simp
  qed
  with b show ?thesis by blast
qed

lemma unpack_total:
  assumes "wl \<le> length w" "sl \<le> length s"
  obtains s' where "ib_unpack desc w s = Some s'"
  using ib_unpack_bits [OF table agrees assms] by blast

lemma aligned_field:
  assumes "f \<in> set desc" "struct_size_bytes f \<noteq> 0" "size_bits f = 8 * struct_size_bytes f"
    "wire_start f = 8 * k" "ib_pack desc s w = Some d" "wl \<le> length w" "sl \<le> length s"
  shows "take (struct_size_bytes f) (drop k d) = slot f s"
proof -
  have d: "length d = length w" and bits: "\<forall>f \<in> set desc. \<forall>p < 8 * length w. wire_bits f p \<longrightarrow>
       bit_at d p = (struct_size_bytes f \<noteq> 0 \<and> bit_at s (slot_low f + (p - wire_start f)))"
    using ib_pack_bits [OF table assms(6,7)] assms(5) by auto
  let ?n = "struct_size_bytes f"
  have low: "slot_low f = 8 * struct_offset_bytes f"
    using assms(3) by (simp add: slot_low_def slot_end_def)
  have so: "struct_offset_bytes f + ?n \<le> length s"
    using member(3) [OF assms(1)] assms(2,7) by (simp add: slot_end_def)
  have ko: "k + ?n \<le> length d"
    using wire_end_need [OF member(1) [OF assms(1)]] member(2) [OF assms(1)] assms(3,4,6) d by simp
  show ?thesis
  proof (rule block_eqI)
    show "length (take ?n (drop k d)) = length (slot f s)"
      using ko so by (simp add: slot_def)
  next
    fix p assume "p < 8 * length (take ?n (drop k d))"
    then have p: "p < 8 * ?n" by simp
    then have w: "wire_bits f (8 * k + p)" using assms(3,4) by (simp add: wire_bits_def)
    have "bit_at (take ?n (drop k d)) p = bit_at d (8 * k + p)" using bit_at_slice [OF p ko] .
    also have "\<dots> = bit_at s (8 * struct_offset_bytes f + p)"
      using bits assms(1,2,4) w p ko d low by simp
    also have "\<dots> = bit_at (slot f s) p" using bit_at_slice [OF p so] by (simp add: slot_def)
    finally show "bit_at (take ?n (drop k d)) p = bit_at (slot f s) p" .
  qed
qed

end

section \<open>Properties of the packer\<close>

text \<open>
  C28. For every well-formed table, packing never leaves its two memory blocks, and the
  result is exactly the copy of bits the table describes: the wire bits of a field are the
  low \<open>size_bits\<close> bits of its structure slot, reserved fields are zero, and every bit that
  belongs to no field keeps its value.
\<close>

theorem ib_pack_copies_bits:
  assumes "table_ok wl sl desc" and "wl \<le> length buf" and "sl \<le> length s"
  shows "\<exists>b. ib_pack desc s buf = Some b \<and> length b = length buf \<and>
    (\<forall>p < 8 * length buf. bit_at b p =
       (case find (\<lambda>f. wire_bits f p) desc of
          None \<Rightarrow> bit_at buf p
        | Some f \<Rightarrow> struct_size_bytes f \<noteq> 0 \<and> bit_at s (slot_low f + (p - wire_start f))))"
proof -
  obtain b where b: "ib_pack desc s buf = Some b" "length b = length buf"
    and inb: "\<forall>f \<in> set desc. \<forall>p < 8 * length buf. wire_bits f p \<longrightarrow>
       bit_at b p = (struct_size_bytes f \<noteq> 0 \<and> bit_at s (slot_low f + (p - wire_start f)))"
    and out: "\<forall>p < 8 * length buf. (\<forall>f \<in> set desc. \<not> wire_bits f p) \<longrightarrow> bit_at b p = bit_at buf p"
    using ib_pack_bits [OF assms] by blast
  have "bit_at b p = (case find (\<lambda>f. wire_bits f p) desc of
          None \<Rightarrow> bit_at buf p
        | Some f \<Rightarrow> struct_size_bytes f \<noteq> 0 \<and> bit_at s (slot_low f + (p - wire_start f)))"
    if p: "p < 8 * length buf" for p
  proof (cases "find (\<lambda>f. wire_bits f p) desc")
    case None
    then have "\<forall>f \<in> set desc. \<not> wire_bits f p" by (auto simp: find_None_iff)
    then show ?thesis using None out p by simp
  next
    case (Some f)
    then have "f \<in> set desc" "wire_bits f p" by (auto simp: find_Some_iff in_set_conv_nth)
    then show ?thesis using Some inb p by simp
  qed
  with b show ?thesis by blast
qed

text \<open>A table with a 4-bit, a reserved 4-bit and a 16-bit field, packed over a buffer of ones.\<close>

theorem ib_pack_copies_bits_witness:
  "\<exists>b. ib_pack [mk_field ''a'' 0 1 0 0 4, RESERVED 0 4 4, mk_field ''b'' 2 2 0 8 16]
         [5, 0, 1, 2] [255, 255, 255, 255] = Some b \<and> length b = 4 \<and>
       b = [80, 1, 2, 255]"
proof -
  let ?d = "[mk_field ''a'' 0 1 0 0 4, RESERVED 0 4 4, mk_field ''b'' 2 2 0 8 16]"
  have "table_ok 4 4 ?d" by code_simp
  from ib_pack_copies_bits [OF this, of "[255, 255, 255, 255]" "[5, 0, 1, 2]"]
  obtain b where "ib_pack ?d [5, 0, 1, 2] [255, 255, 255, 255] = Some b" "length b = 4"
    by auto
  moreover have "ib_pack ?d [5, 0, 1, 2] [255, 255, 255, 255] = Some [80, 1, 2, 255]"
    by code_simp
  ultimately show ?thesis by simp
qed

text \<open>
  C33. Round trip.  Let a table be well formed: its fields lie inside the buffer and the structure, overlap in neither, and are shaped as
  the packer requires; and let its fields of 33 to 64 bits stand at word 0.  Then packing a structure and unpacking the
  result into any structure restores every field whose value fits its wire width, whatever the others hold, and no access leaves its memory block.
\<close>

theorem ib_unpack_ib_pack:
  assumes "table_ok wl sl desc" and "list_all unpack_agrees desc"
    and "wl \<le> length buf" and "sl \<le> length s" and "sl \<le> length s0"
  shows "\<exists>w s'. ib_pack desc s buf = Some w \<and> ib_unpack desc w s0 = Some s' \<and>
    list_all (\<lambda>f. slot_fits f s \<longrightarrow> slot f s' = slot f s) desc"
proof -
  have "wire_table desc wl sl" using assms(1,2) by (rule wire_table.intro)
  from wire_table.roundtrip_fields [OF this assms(3-5)] show ?thesis
    by (auto simp: list_all_iff)
qed

theorem ib_unpack_ib_pack_witness:
  "\<exists>w s'. ib_pack [mk_field ''a'' 0 1 0 0 4, mk_field ''b'' 2 2 0 8 16] [21, 0, 1, 2] [0, 0, 0, 0] = Some w \<and>
     ib_unpack [mk_field ''a'' 0 1 0 0 4, mk_field ''b'' 2 2 0 8 16] w [9, 9, 9, 9] = Some s' \<and>
     take 2 (drop 2 s') = [1, 2] \<and> s' ! 0 \<noteq> 21"
proof -
  let ?d = "[mk_field ''a'' 0 1 0 0 4, mk_field ''b'' 2 2 0 8 16]"
  have 1: "table_ok 4 4 ?d" and 2: "list_all unpack_agrees ?d"
    and 3: "slot_fits (mk_field ''b'' 2 2 0 8 16) [21, 0, 1, 2]"
    by code_simp+
  from ib_unpack_ib_pack [OF 1 2, of "[0, 0, 0, 0]" "[21, 0, 1, 2]" "[9, 9, 9, 9]"] 3
  obtain w s' where w: "ib_pack ?d [21, 0, 1, 2] [0, 0, 0, 0] = Some w"
    and s': "ib_unpack ?d w [9, 9, 9, 9] = Some s'" "slot (mk_field ''b'' 2 2 0 8 16) s' = slot (mk_field ''b'' 2 2 0 8 16) [21, 0, 1, 2]" by auto
  have "ib_pack ?d [21, 0, 1, 2] [0, 0, 0, 0] = Some [80, 1, 2, 0]" by code_simp
  with w have "w = [80, 1, 2, 0]" by simp
  moreover have "ib_unpack ?d [80, 1, 2, 0] [9, 9, 9, 9] = Some [5, 9, 1, 2]" by code_simp
  ultimately have "s' = [5, 9, 1, 2]" using s'(1) by (metis option.inject)
  then have "s' ! 0 \<noteq> 21" by simp
  moreover have "take 2 (drop 2 s') = [1, 2]" using s'(2) by (simp add: slot_def)
  ultimately show ?thesis using w s'(1) by blast
qed

text \<open>
  The converse round trip: unpacking a wire image and packing the structure again
  reproduces every wire bit of every field of the table, provided the reserved bits of the
  image are zero.
\<close>

theorem ib_pack_ib_unpack:
  assumes "table_ok wl sl desc" and "list_all unpack_agrees desc"
    and "wl \<le> length w" and "sl \<le> length s0" and "wl \<le> length buf"
    and "\<forall>f \<in> set desc. \<forall>p. struct_size_bytes f = 0 \<and> wire_bits f p \<longrightarrow> \<not> bit_at w p"
  shows "\<exists>s b. ib_unpack desc w s0 = Some s \<and> ib_pack desc s buf = Some b \<and>
    (\<forall>f \<in> set desc. \<forall>p. wire_bits f p \<longrightarrow> bit_at b p = bit_at w p)"
proof -
  have "wire_table desc wl sl" using assms(1,2) by (rule wire_table.intro)
  from wire_table.repack [OF this assms(3-5)] assms(6) show ?thesis by blast
qed

theorem ib_pack_ib_unpack_witness:
  "\<exists>s b. ib_unpack [mk_field ''a'' 0 1 0 0 4] [80, 1, 2, 0] [9] = Some s \<and>
     ib_pack [mk_field ''a'' 0 1 0 0 4] s [0, 0, 0, 0] = Some b \<and> bit_at b 1"
proof -
  let ?f = "mk_field ''a'' 0 1 0 0 4"
  have 1: "table_ok 4 1 [?f]" and 2: "list_all unpack_agrees [?f]" by code_simp+
  have 3: "wire_bits ?f 1" "bit_at [80, 1, 2, 0] 1" by code_simp+
  from ib_pack_ib_unpack [OF 1 2, of "[80, 1, 2, 0]" "[9]" "[0, 0, 0, 0]"] 3
  show ?thesis by auto
qed

text \<open>
  The middle branch of the unpacker steps its address by eight bytes per word.  A 33 to
  64 bit field that does not stand at word 0 is therefore read past the end of a buffer
  that is just long enough to hold it, although packing it into the same buffer succeeds.
\<close>

theorem unpack_le64_overruns:
  assumes "field_ok f" and "32 < size_bits f" and "size_bits f \<le> 64"
    and "0 < offset_words f" and "struct_size_bytes f \<noteq> 0" and "slot_end f \<le> 8 * length s"
    and "length buf = wire_need f"
  shows "\<exists>w. pack_field f s buf = Some w \<and> unpack_field f w s = None"
proof -
  obtain w where w: "pack_field f s buf = Some w" "packs_bits f s buf w"
    using pack_field_bits [OF assms(1), of buf s] assms(6,7) by auto
  then have "length w = 4 * offset_words f + 8"
    using assms(2,3,7) by (simp add: packs_bits_def wire_need_def)
  then have "unpack_field f w s = None"
    using assms(2-5) by (simp add: unpack_field_def unpack_le64_def mem_read_def Let_def)
  with w(1) show ?thesis by blast
qed

theorem unpack_le64_overruns_witness:
  "\<exists>w. pack_field (mk_field ''guid'' 0 8 1 0 64) [1, 2, 3, 4, 5, 6, 7, 8] (replicate 12 0) = Some w \<and>
     unpack_field (mk_field ''guid'' 0 8 1 0 64) w [1, 2, 3, 4, 5, 6, 7, 8] = None"
  by (rule unpack_le64_overruns) (simp_all add: field_ok_def slot_ok_def slot_end_def wire_need_def)

end
