(* ===== verification/UdHeader.thy ===== *)
theory UdHeader
  imports Packer
begin

text \<open>
  The headers of an unreliable-datagram packet, \<^verbatim>\<open>drivers/infiniband/core/ud_header.c\<close> and
  the structures of \<^verbatim>\<open>include/rdma/ib_pack.h\<close>: the eight field tables, the unpacked
  structures with their C memory layout, and \<^verbatim>\<open>ib_ud_header_init\<close>, \<^verbatim>\<open>ib_ud_header_pack\<close> and
  \<^verbatim>\<open>ib_ud_header_unpack\<close>.  Big-endian C types (\<^verbatim>\<open>__be16\<close>, \<^verbatim>\<open>__be32\<close>) are words holding the
  value they stand for; their byte order appears in the memory image of a structure.
  Integers the code only tests for truth are booleans, payload lengths are naturals.
\<close>

section \<open>Unpacked headers and their layout\<close>

definition IB_LRH_BYTES :: nat where "IB_LRH_BYTES = 8"
definition IB_ETH_BYTES :: nat where "IB_ETH_BYTES = 14"
definition IB_VLAN_BYTES :: nat where "IB_VLAN_BYTES = 4"
definition IB_GRH_BYTES :: nat where "IB_GRH_BYTES = 40"
definition IB_IP4_BYTES :: nat where "IB_IP4_BYTES = 20"
definition IB_UDP_BYTES :: nat where "IB_UDP_BYTES = 8"
definition IB_BTH_BYTES :: nat where "IB_BTH_BYTES = 12"
definition IB_DETH_BYTES :: nat where "IB_DETH_BYTES = 8"

lemmas header_bytes = IB_LRH_BYTES_def IB_ETH_BYTES_def IB_VLAN_BYTES_def IB_GRH_BYTES_def
  IB_IP4_BYTES_def IB_UDP_BYTES_def IB_BTH_BYTES_def IB_DETH_BYTES_def

definition IB_LNH_IBA_LOCAL :: u8 where "IB_LNH_IBA_LOCAL = 2"
definition IB_LNH_IBA_GLOBAL :: u8 where "IB_LNH_IBA_GLOBAL = 3"
definition IB_OPCODE_UD_SEND_ONLY :: u8 where "IB_OPCODE_UD_SEND_ONLY = 0x64"
definition IB_OPCODE_UD_SEND_ONLY_WITH_IMMEDIATE :: u8 where
  "IB_OPCODE_UD_SEND_ONLY_WITH_IMMEDIATE = 0x65"

lemmas header_codes = IB_LNH_IBA_LOCAL_def IB_LNH_IBA_GLOBAL_def IB_OPCODE_UD_SEND_ONLY_def
  IB_OPCODE_UD_SEND_ONLY_WITH_IMMEDIATE_def

record ib_unpacked_lrh =
  virtual_lane :: u8
  link_version :: u8
  service_level :: u8
  link_next_header :: u8
  destination_lid :: u16
  packet_length :: u16
  source_lid :: u16

record ib_unpacked_grh =
  ip_version :: u8
  traffic_class :: u8
  flow_label :: u32
  payload_length :: u16
  next_header :: u8
  hop_limit :: u8
  source_gid :: block
  destination_gid :: block

record ib_unpacked_bth =
  opcode :: u8
  solicited_event :: u8
  mig_req :: u8
  pad_count :: u8
  transport_header_version :: u8
  pkey :: u16
  destination_qpn :: u32
  ack_req :: u8
  psn :: u32

record ib_unpacked_deth =
  qkey :: u32
  source_qpn :: u32

record ib_unpacked_eth =
  dmac_h :: block
  dmac_l :: block
  smac_h :: block
  smac_l :: block
  eth_type :: u16

record ib_unpacked_ip4 =
  ver :: u8
  hdr_len :: u8
  tos :: u8
  tot_len :: u16
  ip4_id :: u16
  frag_off :: u16
  ttl :: u8
  protocol :: u8
  check :: u16
  saddr :: u32
  daddr :: u32

record ib_unpacked_udp =
  sport :: u16
  dport :: u16
  udp_length :: u16
  csum :: u16

record ib_unpacked_vlan =
  tag :: u16
  vlan_type :: u16

record ib_ud_header =
  lrh_present :: bool
  lrh :: ib_unpacked_lrh
  eth_present :: bool
  eth :: ib_unpacked_eth
  vlan_present :: bool
  vlan :: ib_unpacked_vlan
  grh_present :: bool
  grh :: ib_unpacked_grh
  ipv4_present :: bool
  ip4 :: ib_unpacked_ip4
  udp_present :: bool
  udp :: ib_unpacked_udp
  bth :: ib_unpacked_bth
  deth :: ib_unpacked_deth
  immediate_present :: bool
  immediate_data :: u32

text \<open>Members of a structure in memory.  Padding bytes are zero.\<close>

abbreviation be16 :: "u16 \<Rightarrow> block" where "be16 x \<equiv> be_bytes 2 (ucast x)"
abbreviation be32 :: "u32 \<Rightarrow> block" where "be32 x \<equiv> be_bytes 4 (ucast x)"

definition rd8 :: "nat \<Rightarrow> block \<Rightarrow> u8" where "rd8 o' s = ucast (be_val (take 1 (drop o' s)))"
definition rd16 :: "nat \<Rightarrow> block \<Rightarrow> u16" where "rd16 o' s = ucast (be_val (take 2 (drop o' s)))"
definition rd32 :: "nat \<Rightarrow> block \<Rightarrow> u32" where "rd32 o' s = ucast (be_val (take 4 (drop o' s)))"

lemmas rd_defs = rd8_def rd16_def rd32_def

lemma be_val_single [simp]: "be_val [b] = ucast b"
  using be_val_snoc [of "[]" b] by (simp add: be_val_Nil)

lemma ucast_be_bytes [simp]:
  "ucast (be_val (be16 a)) = (a :: u16)" "ucast (be_val (be32 c)) = (c :: u32)"
  "ucast (ucast (b :: u8) :: u64) = b"
  by (simp_all, (rule bit_word_eqI; auto simp: bit_simps)+)

definition lrh_mem :: "ib_unpacked_lrh \<Rightarrow> block" where
  "lrh_mem h = [virtual_lane h, link_version h, service_level h, link_next_header h] @
     be16 (destination_lid h) @ be16 (packet_length h) @ be16 (source_lid h)"

definition mem_lrh :: "block \<Rightarrow> ib_unpacked_lrh" where
  "mem_lrh s = \<lparr>virtual_lane = rd8 0 s, link_version = rd8 1 s, service_level = rd8 2 s,
     link_next_header = rd8 3 s, destination_lid = rd16 4 s, packet_length = rd16 6 s,
     source_lid = rd16 8 s\<rparr>"

definition grh_mem :: "ib_unpacked_grh \<Rightarrow> block" where
  "grh_mem h = [ip_version h, traffic_class h, 0, 0] @ be32 (flow_label h) @
     be16 (payload_length h) @ [next_header h, hop_limit h, 0, 0, 0, 0] @
     source_gid h @ destination_gid h"

definition mem_grh :: "block \<Rightarrow> ib_unpacked_grh" where
  "mem_grh s = \<lparr>ip_version = rd8 0 s, traffic_class = rd8 1 s, flow_label = rd32 4 s,
     payload_length = rd16 8 s, next_header = rd8 10 s, hop_limit = rd8 11 s,
     source_gid = take 16 (drop 16 s), destination_gid = take 16 (drop 32 s)\<rparr>"

definition bth_mem :: "ib_unpacked_bth \<Rightarrow> block" where
  "bth_mem h = [opcode h, solicited_event h, mig_req h, pad_count h, transport_header_version h, 0] @
     be16 (pkey h) @ be32 (destination_qpn h) @ [ack_req h, 0, 0, 0] @ be32 (psn h)"

definition mem_bth :: "block \<Rightarrow> ib_unpacked_bth" where
  "mem_bth s = \<lparr>opcode = rd8 0 s, solicited_event = rd8 1 s, mig_req = rd8 2 s, pad_count = rd8 3 s,
     transport_header_version = rd8 4 s, pkey = rd16 6 s, destination_qpn = rd32 8 s,
     ack_req = rd8 12 s, psn = rd32 16 s\<rparr>"

definition deth_mem :: "ib_unpacked_deth \<Rightarrow> block" where
  "deth_mem h = be32 (qkey h) @ be32 (source_qpn h)"

definition mem_deth :: "block \<Rightarrow> ib_unpacked_deth" where
  "mem_deth s = \<lparr>qkey = rd32 0 s, source_qpn = rd32 4 s\<rparr>"

definition eth_mem :: "ib_unpacked_eth \<Rightarrow> block" where
  "eth_mem h = dmac_h h @ dmac_l h @ smac_h h @ smac_l h @ be16 (eth_type h)"

definition ip4_mem :: "ib_unpacked_ip4 \<Rightarrow> block" where
  "ip4_mem h = [ver h, hdr_len h, tos h, 0] @ be16 (tot_len h) @ be16 (ip4_id h) @
     be16 (frag_off h) @ [ttl h, protocol h] @ be16 (check h) @ [0, 0] @
     be32 (saddr h) @ be32 (daddr h)"

definition udp_mem :: "ib_unpacked_udp \<Rightarrow> block" where
  "udp_mem h = be16 (sport h) @ be16 (dport h) @ be16 (udp_length h) @ be16 (csum h)"

definition vlan_mem :: "ib_unpacked_vlan \<Rightarrow> block" where
  "vlan_mem h = be16 (tag h) @ be16 (vlan_type h)"

text \<open>The arrays inside the structures have their declared sizes.\<close>

definition grh_wf :: "ib_unpacked_grh \<Rightarrow> bool" where
  "grh_wf h \<longleftrightarrow> length (source_gid h) = 16 \<and> length (destination_gid h) = 16"

definition eth_wf :: "ib_unpacked_eth \<Rightarrow> bool" where
  "eth_wf h \<longleftrightarrow> length (dmac_h h) = 4 \<and> length (dmac_l h) = 2 \<and> length (smac_h h) = 2 \<and>
     length (smac_l h) = 4"

lemma mem_lengths [simp]:
  "length (lrh_mem a) = 10" "length (bth_mem b) = 20" "length (deth_mem c) = 8"
  "length (ip4_mem d) = 24" "length (udp_mem e) = 8" "length (vlan_mem f) = 4"
  "grh_wf g \<Longrightarrow> length (grh_mem g) = 48" "eth_wf h \<Longrightarrow> length (eth_mem h) = 14"
  by (simp_all add: lrh_mem_def bth_mem_def deth_mem_def ip4_mem_def udp_mem_def vlan_mem_def
    grh_mem_def grh_wf_def eth_mem_def eth_wf_def)

section \<open>Field tables\<close>

definition lrh_table :: "ib_field list" where
  "lrh_table = [
     mk_field ''lrh:virtual_lane'' 0 1 0 0 4,
     mk_field ''lrh:link_version'' 1 1 0 4 4,
     mk_field ''lrh:service_level'' 2 1 0 8 4,
     RESERVED 0 12 2,
     mk_field ''lrh:link_next_header'' 3 1 0 14 2,
     mk_field ''lrh:destination_lid'' 4 2 0 16 16,
     RESERVED 1 0 5,
     mk_field ''lrh:packet_length'' 6 2 1 5 11,
     mk_field ''lrh:source_lid'' 8 2 1 16 16]"

definition eth_table :: "ib_field list" where
  "eth_table = [
     mk_field ''eth:dmac_h'' 0 4 0 0 32,
     mk_field ''eth:dmac_l'' 4 2 1 0 16,
     mk_field ''eth:smac_h'' 6 2 1 16 16,
     mk_field ''eth:smac_l'' 8 4 2 0 32,
     mk_field ''eth:type'' 12 2 3 0 16]"

definition vlan_table :: "ib_field list" where
  "vlan_table = [
     mk_field ''vlan:tag'' 0 2 0 0 16,
     mk_field ''vlan:type'' 2 2 0 16 16]"

definition ip4_table :: "ib_field list" where
  "ip4_table = [
     mk_field ''ip4:ver'' 0 1 0 0 4,
     mk_field ''ip4:hdr_len'' 1 1 0 4 4,
     mk_field ''ip4:tos'' 2 1 0 8 8,
     mk_field ''ip4:tot_len'' 4 2 0 16 16,
     mk_field ''ip4:id'' 6 2 1 0 16,
     mk_field ''ip4:frag_off'' 8 2 1 16 16,
     mk_field ''ip4:ttl'' 10 1 2 0 8,
     mk_field ''ip4:protocol'' 11 1 2 8 8,
     mk_field ''ip4:check'' 12 2 2 16 16,
     mk_field ''ip4:saddr'' 16 4 3 0 32,
     mk_field ''ip4:daddr'' 20 4 4 0 32]"

definition udp_table :: "ib_field list" where
  "udp_table = [
     mk_field ''udp:sport'' 0 2 0 0 16,
     mk_field ''udp:dport'' 2 2 0 16 16,
     mk_field ''udp:length'' 4 2 1 0 16,
     mk_field ''udp:csum'' 6 2 1 16 16]"

definition grh_table :: "ib_field list" where
  "grh_table = [
     mk_field ''grh:ip_version'' 0 1 0 0 4,
     mk_field ''grh:traffic_class'' 1 1 0 4 8,
     mk_field ''grh:flow_label'' 4 4 0 12 20,
     mk_field ''grh:payload_length'' 8 2 1 0 16,
     mk_field ''grh:next_header'' 10 1 1 16 8,
     mk_field ''grh:hop_limit'' 11 1 1 24 8,
     mk_field ''grh:source_gid'' 16 16 2 0 128,
     mk_field ''grh:destination_gid'' 32 16 6 0 128]"

definition bth_table :: "ib_field list" where
  "bth_table = [
     mk_field ''bth:opcode'' 0 1 0 0 8,
     mk_field ''bth:solicited_event'' 1 1 0 8 1,
     mk_field ''bth:mig_req'' 2 1 0 9 1,
     mk_field ''bth:pad_count'' 3 1 0 10 2,
     mk_field ''bth:transport_header_version'' 4 1 0 12 4,
     mk_field ''bth:pkey'' 6 2 0 16 16,
     RESERVED 1 0 8,
     mk_field ''bth:destination_qpn'' 8 4 1 8 24,
     mk_field ''bth:ack_req'' 12 1 2 0 1,
     RESERVED 2 1 7,
     mk_field ''bth:psn'' 16 4 2 8 24]"

definition deth_table :: "ib_field list" where
  "deth_table = [
     mk_field ''deth:qkey'' 0 4 0 0 32,
     RESERVED 1 0 8,
     mk_field ''deth:source_qpn'' 4 4 1 8 24]"

text \<open>
  Every table satisfies the packer's contract.  The Ethernet table needs two bytes more than
  the 14 of its header, because its last field is written by a read-modify-write of a whole
  32-bit word.
\<close>

interpretation lrh: wire_table lrh_table 8 10 by unfold_locales code_simp+
interpretation eth: wire_table eth_table 16 14 by unfold_locales code_simp+
interpretation vlan: wire_table vlan_table 4 4 by unfold_locales code_simp+
interpretation ip4: wire_table ip4_table 20 24 by unfold_locales code_simp+
interpretation udp: wire_table udp_table 8 8 by unfold_locales code_simp+
interpretation grh: wire_table grh_table 40 48 by unfold_locales code_simp+
interpretation bth: wire_table bth_table 12 20 by unfold_locales code_simp+
interpretation deth: wire_table deth_table 8 8 by unfold_locales code_simp+

section \<open>Operations\<close>

definition ETH_P_8021Q :: u16 where "ETH_P_8021Q = 0x8100"
definition IPPROTO_UDP :: u8 where "IPPROTO_UDP = 17"

text \<open>
  \<^verbatim>\<open>ip_fast_csum\<close> is the kernel's checksum routine.  It is a parameter that receives the bytes of
  the on-stack \<^verbatim>\<open>struct iphdr\<close> and its length in words.
\<close>

definition iphdr_bytes :: "ib_unpacked_ip4 \<Rightarrow> block" where
  "iphdr_bytes h = [push_bit 4 4 OR 5, tos h] @ be16 (tot_len h) @ be16 (ip4_id h) @
     be16 (frag_off h) @ [ttl h, protocol h] @ be16 0 @ be32 (saddr h) @ be32 (daddr h)"

definition ib_ud_ip4_csum :: "(block \<Rightarrow> nat \<Rightarrow> u16) \<Rightarrow> ib_ud_header \<Rightarrow> u16" where
  "ib_ud_ip4_csum ip_fast_csum header = ip_fast_csum (iphdr_bytes (ip4 header)) 5"

definition zero_header :: ib_ud_header where
  "zero_header = \<lparr>
     lrh_present = False, lrh = \<lparr>virtual_lane = 0, link_version = 0, service_level = 0,
       link_next_header = 0, destination_lid = 0, packet_length = 0, source_lid = 0\<rparr>,
     eth_present = False, eth = \<lparr>dmac_h = replicate 4 0, dmac_l = replicate 2 0,
       smac_h = replicate 2 0, smac_l = replicate 4 0, eth_type = 0\<rparr>,
     vlan_present = False, vlan = \<lparr>tag = 0, vlan_type = 0\<rparr>,
     grh_present = False, grh = \<lparr>ip_version = 0, traffic_class = 0, flow_label = 0,
       payload_length = 0, next_header = 0, hop_limit = 0, source_gid = replicate 16 0,
       destination_gid = replicate 16 0\<rparr>,
     ipv4_present = False, ip4 = \<lparr>ver = 0, hdr_len = 0, tos = 0, tot_len = 0, ip4_id = 0,
       frag_off = 0, ttl = 0, protocol = 0, check = 0, saddr = 0, daddr = 0\<rparr>,
     udp_present = False, udp = \<lparr>sport = 0, dport = 0, udp_length = 0, csum = 0\<rparr>,
     bth = \<lparr>opcode = 0, solicited_event = 0, mig_req = 0, pad_count = 0,
       transport_header_version = 0, pkey = 0, destination_qpn = 0, ack_req = 0, psn = 0\<rparr>,
     deth = \<lparr>qkey = 0, source_qpn = 0\<rparr>,
     immediate_present = False, immediate_data = 0\<rparr>"

definition init_lrh :: "nat \<Rightarrow> bool \<Rightarrow> ib_unpacked_lrh \<Rightarrow> ib_unpacked_lrh" where
  "init_lrh payload_bytes grhp h = h\<lparr>link_version := 0,
     link_next_header := (if grhp then IB_LNH_IBA_GLOBAL else IB_LNH_IBA_LOCAL),
     packet_length := of_nat ((IB_LRH_BYTES + IB_BTH_BYTES + IB_DETH_BYTES +
       (if grhp then IB_GRH_BYTES else 0) + payload_bytes + 4 + 3) div 4)\<rparr>"

definition init_grh :: "nat \<Rightarrow> nat \<Rightarrow> bool \<Rightarrow> ib_unpacked_grh \<Rightarrow> ib_unpacked_grh" where
  "init_grh payload_bytes udp_bytes udpp h = h\<lparr>ip_version := 6,
     payload_length := ucast ((of_nat (udp_bytes + IB_BTH_BYTES + IB_DETH_BYTES + payload_bytes +
       4 + 3) :: u64) AND NOT 3),
     next_header := (if udpp then IPPROTO_UDP else 0x1b)\<rparr>"

definition init_ip4 :: "nat \<Rightarrow> nat \<Rightarrow> ib_unpacked_ip4 \<Rightarrow> ib_unpacked_ip4" where
  "init_ip4 payload_bytes udp_bytes h = h\<lparr>ver := 4, hdr_len := 5,
     tot_len := of_nat (IB_IP4_BYTES + udp_bytes + IB_BTH_BYTES + IB_DETH_BYTES + payload_bytes + 4),
     protocol := IPPROTO_UDP\<rparr>"

definition init_bth :: "nat \<Rightarrow> bool \<Rightarrow> ib_unpacked_bth \<Rightarrow> ib_unpacked_bth" where
  "init_bth payload_bytes immp h = h\<lparr>
     opcode := (if immp then IB_OPCODE_UD_SEND_ONLY_WITH_IMMEDIATE else IB_OPCODE_UD_SEND_ONLY),
     pad_count := ucast ((4 - of_nat payload_bytes :: u32) AND 3),
     transport_header_version := 0\<rparr>"

text \<open>The result is the return code and the structure the caller's pointer is left with.\<close>

definition ib_ud_header_init ::
  "nat \<Rightarrow> bool \<Rightarrow> bool \<Rightarrow> bool \<Rightarrow> bool \<Rightarrow> int \<Rightarrow> bool \<Rightarrow> bool \<Rightarrow> int \<times> ib_ud_header" where
  "ib_ud_header_init payload_bytes lrhp ethp vlanp grhp0 ipv udpp immp =
     (let udp_bytes = (if udpp then IB_UDP_BYTES else 0);
          grhp = (grhp0 \<and> ipv = 0);
          h0 = zero_header
      in if udpp \<and> ipv \<noteq> 4 \<and> ipv \<noteq> 6 then (- EINVAL, h0)
         else
           let h1 = (if lrhp then h0\<lparr>lrh := init_lrh payload_bytes grhp (lrh h0)\<rparr> else h0);
               h2 = (if vlanp then h1\<lparr>eth := (eth h1)\<lparr>eth_type := ETH_P_8021Q\<rparr>\<rparr> else h1);
               h3 = (if ipv = 6 \<or> grhp
                     then h2\<lparr>grh := init_grh payload_bytes udp_bytes udpp (grh h2)\<rparr> else h2);
               h4 = (if ipv = 4 then h3\<lparr>ip4 := init_ip4 payload_bytes udp_bytes (ip4 h3)\<rparr> else h3);
               h5 = (if udpp \<and> ipv \<noteq> 0
                     then h4\<lparr>udp := (udp h4)\<lparr>udp_length := of_nat (IB_UDP_BYTES + IB_BTH_BYTES +
                       IB_DETH_BYTES + payload_bytes + 4)\<rparr>\<rparr> else h4);
               h6 = h5\<lparr>bth := init_bth payload_bytes immp (bth h5)\<rparr>
           in (0, h6\<lparr>lrh_present := lrhp, eth_present := ethp, vlan_present := vlanp,
                 grh_present := (grhp \<or> ipv = 6), ipv4_present := (ipv = 4),
                 udp_present := udpp, immediate_present := immp\<rparr>))"

text \<open>
  One \<^verbatim>\<open>if (present) { ib_pack(...); len += BYTES; }\<close> of \<^verbatim>\<open>ib_ud_header_pack\<close>; the state is
  \<^verbatim>\<open>len\<close> and the buffer.
\<close>

definition pack_part :: "bool \<Rightarrow> ib_field list \<Rightarrow> block \<Rightarrow> nat \<Rightarrow> nat \<times> block \<Rightarrow> (nat \<times> block) option"
  where
  "pack_part present desc structure bytes st =
     (if present then map_option (\<lambda>b. (fst st + bytes, b)) (pack_at desc structure (fst st) (snd st))
      else Some st)"

definition pack_imm :: "bool \<Rightarrow> u32 \<Rightarrow> nat \<times> block \<Rightarrow> (nat \<times> block) option" where
  "pack_imm present imm st =
     (if present then map_option (\<lambda>b. (fst st + 4, b)) (mem_write (snd st) (fst st) (be32 imm))
      else Some st)"

definition ib_ud_header_pack :: "ib_ud_header \<Rightarrow> block \<Rightarrow> (nat \<times> block) option" where
  "ib_ud_header_pack header buf = do {
     st \<leftarrow> pack_part (lrh_present header) lrh_table (lrh_mem (lrh header)) IB_LRH_BYTES (0, buf);
     st \<leftarrow> pack_part (eth_present header) eth_table (eth_mem (eth header)) IB_ETH_BYTES st;
     st \<leftarrow> pack_part (vlan_present header) vlan_table (vlan_mem (vlan header)) IB_VLAN_BYTES st;
     st \<leftarrow> pack_part (grh_present header) grh_table (grh_mem (grh header)) IB_GRH_BYTES st;
     st \<leftarrow> pack_part (ipv4_present header) ip4_table (ip4_mem (ip4 header)) IB_IP4_BYTES st;
     st \<leftarrow> pack_part (udp_present header) udp_table (udp_mem (udp header)) IB_UDP_BYTES st;
     st \<leftarrow> pack_part True bth_table (bth_mem (bth header)) IB_BTH_BYTES st;
     st \<leftarrow> pack_part True deth_table (deth_mem (deth header)) IB_DETH_BYTES st;
     pack_imm (immediate_present header) (immediate_data header) st }"

text \<open>\<^verbatim>\<open>ib_ud_header_unpack\<close>, cut where the code's \<^verbatim>\<open>buf\<close> has passed one more header.\<close>

definition unpack_deth :: "block \<Rightarrow> ib_ud_header \<Rightarrow> (int \<times> ib_ud_header) option" where
  "unpack_deth buf header = do {
     s \<leftarrow> ib_unpack deth_table buf (deth_mem (deth header));
     let header = header\<lparr>deth := mem_deth s\<rparr>;
     if immediate_present header then do {
       m \<leftarrow> mem_read buf IB_DETH_BYTES 4;
       Some (0, header\<lparr>immediate_data := ucast (be_val m)\<rparr>) }
     else Some (0, header) }"

definition unpack_bth :: "block \<Rightarrow> ib_ud_header \<Rightarrow> (int \<times> ib_ud_header) option" where
  "unpack_bth buf header = do {
     s \<leftarrow> ib_unpack bth_table buf (bth_mem (bth header));
     let header = header\<lparr>bth := mem_bth s\<rparr>;
     if opcode (bth header) \<noteq> IB_OPCODE_UD_SEND_ONLY \<and>
        opcode (bth header) \<noteq> IB_OPCODE_UD_SEND_ONLY_WITH_IMMEDIATE then Some (- EINVAL, header)
     else do {
       let header = header\<lparr>immediate_present :=
         (opcode (bth header) = IB_OPCODE_UD_SEND_ONLY_WITH_IMMEDIATE)\<rparr>;
       if transport_header_version (bth header) \<noteq> 0 then Some (- EINVAL, header)
       else unpack_deth (drop IB_BTH_BYTES buf) header } }"

definition unpack_grh :: "block \<Rightarrow> ib_ud_header \<Rightarrow> (int \<times> ib_ud_header) option" where
  "unpack_grh buf header = do {
     let header = header\<lparr>grh_present := True\<rparr>;
     s \<leftarrow> ib_unpack grh_table buf (grh_mem (grh header));
     let header = header\<lparr>grh := mem_grh s\<rparr>;
     if ip_version (grh header) \<noteq> 6 then Some (- EINVAL, header)
     else if next_header (grh header) \<noteq> 0x1b then Some (- EINVAL, header)
     else unpack_bth (drop IB_GRH_BYTES buf) header }"

definition ib_ud_header_unpack :: "block \<Rightarrow> ib_ud_header \<Rightarrow> (int \<times> ib_ud_header) option" where
  "ib_ud_header_unpack buf header = do {
     s \<leftarrow> ib_unpack lrh_table buf (lrh_mem (lrh header));
     let header = header\<lparr>lrh := mem_lrh s\<rparr>;
     let buf = drop IB_LRH_BYTES buf;
     if link_version (lrh header) \<noteq> 0 then Some (- EINVAL, header)
     else if link_next_header (lrh header) = IB_LNH_IBA_LOCAL
       then unpack_bth buf (header\<lparr>grh_present := False\<rparr>)
     else if link_next_header (lrh header) = IB_LNH_IBA_GLOBAL then unpack_grh buf header
     else Some (- EINVAL, header) }"

section \<open>Values that fit their fields\<close>

definition lrh_fits :: "ib_unpacked_lrh \<Rightarrow> bool" where
  "lrh_fits h \<longleftrightarrow> virtual_lane h < 16 \<and> link_version h < 16 \<and> service_level h < 16 \<and>
     link_next_header h < 4 \<and> packet_length h < 2 ^ 11"

definition grh_fits :: "ib_unpacked_grh \<Rightarrow> bool" where
  "grh_fits h \<longleftrightarrow> grh_wf h \<and> ip_version h < 16 \<and> flow_label h < 2 ^ 20"

definition bth_fits :: "ib_unpacked_bth \<Rightarrow> bool" where
  "bth_fits h \<longleftrightarrow> solicited_event h < 2 \<and> mig_req h < 2 \<and> pad_count h < 4 \<and>
     transport_header_version h < 16 \<and> destination_qpn h < 2 ^ 24 \<and> ack_req h < 2 \<and> psn h < 2 ^ 24"

definition deth_fits :: "ib_unpacked_deth \<Rightarrow> bool" where
  "deth_fits h \<longleftrightarrow> source_qpn h < 2 ^ 24"

lemma unat_be_val [simp]:
  "unat (ucast (b :: u8) :: u64) = unat b"
  "unat (be_val (be16 a)) = unat a" "unat (be_val (be32 c)) = unat c"
proof -
  show "unat (ucast (b :: u8) :: u64) = unat b" by simp
  have "be_val (be16 a) = ucast a" "be_val (be32 c) = ucast c"
    by (simp_all, (rule bit_word_eqI; auto simp: bit_simps dest: bit_imp_le_length)+)
  then show "unat (be_val (be16 a)) = unat a" "unat (be_val (be32 c)) = unat c"
    by simp_all
qed

lemma lrh_slots_fit: "lrh_fits h \<Longrightarrow> \<forall>f \<in> set lrh_table. slot_fits f (lrh_mem h)"
  by (simp add: lrh_fits_def lrh_table_def slot_fits_def slot_def lrh_mem_def word_less_nat_alt
      del: be_val_be_bytes)

lemma grh_slots_fit: "grh_fits h \<Longrightarrow> \<forall>f \<in> set grh_table. slot_fits f (grh_mem h)"
  by (simp add: grh_fits_def grh_wf_def grh_table_def slot_fits_def slot_def grh_mem_def
      word_less_nat_alt del: be_val_be_bytes)

lemma bth_slots_fit: "bth_fits h \<Longrightarrow> \<forall>f \<in> set bth_table. slot_fits f (bth_mem h)"
  by (simp add: bth_fits_def bth_table_def slot_fits_def slot_def bth_mem_def word_less_nat_alt
      del: be_val_be_bytes)

lemma deth_slots_fit: "deth_fits h \<Longrightarrow> \<forall>f \<in> set deth_table. slot_fits f (deth_mem h)"
  by (simp add: deth_fits_def deth_table_def slot_fits_def slot_def deth_mem_def word_less_nat_alt
      del: be_val_be_bytes)

lemma mem_lrh_slots:
  "\<forall>f \<in> set lrh_table. slot f s = slot f (lrh_mem h) \<Longrightarrow> mem_lrh s = h"
  by (simp add: lrh_table_def slot_def mem_lrh_def rd_defs lrh_mem_def del: be_val_be_bytes)

lemma mem_grh_slots:
  "\<forall>f \<in> set grh_table. slot f s = slot f (grh_mem h) \<Longrightarrow> grh_wf h \<Longrightarrow> mem_grh s = h"
  by (simp add: grh_table_def grh_wf_def slot_def mem_grh_def rd_defs grh_mem_def
      del: be_val_be_bytes)

lemma mem_bth_slots:
  "\<forall>f \<in> set bth_table. slot f s = slot f (bth_mem h) \<Longrightarrow> mem_bth s = h"
  by (simp add: bth_table_def slot_def mem_bth_def rd_defs bth_mem_def del: be_val_be_bytes)

lemma mem_deth_slots:
  "\<forall>f \<in> set deth_table. slot f s = slot f (deth_mem h) \<Longrightarrow> mem_deth s = h"
  by (simp add: deth_table_def slot_def mem_deth_def rd_defs deth_mem_def del: be_val_be_bytes)

section \<open>Packing one header\<close>

text \<open>
  A part that is packed at offset \<open>off\<close> leaves everything before it and after it alone, and
  any buffer that agrees with the result up to the end of the part unpacks to the same slots.
\<close>

definition unpacks_to :: "ib_field list \<Rightarrow> nat \<Rightarrow> nat \<Rightarrow> nat \<Rightarrow> block \<Rightarrow> block \<Rightarrow> bool" where
  "unpacks_to desc wl sl off b s \<longleftrightarrow> (\<forall>w s0. take (off + wl) w = take (off + wl) b \<longrightarrow>
     off + wl \<le> length w \<longrightarrow> sl \<le> length s0 \<longrightarrow>
     (\<exists>s'. ib_unpack desc (drop off w) s0 = Some s' \<and> (\<forall>f \<in> set desc. slot f s' = slot f s)))"

context wire_table begin

lemma pack_part_spec:
  assumes "present \<Longrightarrow> sl \<le> length s" "present \<Longrightarrow> off + wl \<le> length buf" "n \<le> wl"
    "\<forall>f \<in> set desc. wire_start f + size_bits f \<le> 8 * n"
  shows "\<exists>b. pack_part present desc s n (off, buf) = Some (off + (if present then n else 0), b) \<and>
    length b = length buf \<and> take off b = take off buf \<and>
    drop (off + (if present then n else 0)) b = drop (off + (if present then n else 0)) buf \<and>
    (present \<longrightarrow> (\<forall>f \<in> set desc. slot_fits f s) \<longrightarrow> unpacks_to desc wl sl off b s)"
proof (cases present)
  case True
  note len = assms(1,2) [OF True]
  obtain b where b: "pack_at desc s off buf = Some b" "length b = length buf"
      "take off b = take off buf"
      "(\<forall>f \<in> set desc. slot_fits f s) \<longrightarrow> unpacks_to desc wl sl off b s"
    using pack_at_spec [OF len(2,1)] unfolding unpacks_to_def by blast
  then obtain d where d: "ib_pack desc s (drop off buf) = Some d" "b = take off buf @ d"
    using len by (auto simp: pack_at_def split: if_splits)
  have "drop n d = drop n (drop off buf)"
    by (rule pack_keeps_tail [OF assms(4) _ _ len(1) d(1)]) (use len(2) assms(3) in auto)
  then have "drop (off + n) b = drop (off + n) buf" using d(2) len by (simp add: add.commute)
  with b True show ?thesis by (simp add: pack_part_def)
qed (simp add: pack_part_def)

end

text \<open>No table has a field that reaches past the header's declared number of bytes.\<close>

lemma tail_ok:
  "\<forall>f \<in> set lrh_table. wire_start f + size_bits f \<le> 8 * IB_LRH_BYTES"
  "\<forall>f \<in> set eth_table. wire_start f + size_bits f \<le> 8 * IB_ETH_BYTES"
  "\<forall>f \<in> set vlan_table. wire_start f + size_bits f \<le> 8 * IB_VLAN_BYTES"
  "\<forall>f \<in> set grh_table. wire_start f + size_bits f \<le> 8 * IB_GRH_BYTES"
  "\<forall>f \<in> set ip4_table. wire_start f + size_bits f \<le> 8 * IB_IP4_BYTES"
  "\<forall>f \<in> set udp_table. wire_start f + size_bits f \<le> 8 * IB_UDP_BYTES"
  "\<forall>f \<in> set bth_table. wire_start f + size_bits f \<le> 8 * IB_BTH_BYTES"
  "\<forall>f \<in> set deth_table. wire_start f + size_bits f \<le> 8 * IB_DETH_BYTES"
  by (simp_all add: lrh_table_def eth_table_def vlan_table_def grh_table_def ip4_table_def
    udp_table_def bth_table_def deth_table_def wire_start_def header_bytes)

section \<open>Packing all headers\<close>

text \<open>
  \<open>packs f n m\<close>: given \<open>m\<close> bytes of room, the step \<open>f\<close> succeeds, advances by \<open>n\<close> bytes and
  changes nothing outside these \<open>n\<close> bytes.
\<close>

definition packs :: "(nat \<times> block \<Rightarrow> (nat \<times> block) option) \<Rightarrow> nat \<Rightarrow> nat \<Rightarrow> bool" where
  "packs f n m \<longleftrightarrow> (\<forall>off buf. off + m \<le> length buf \<longrightarrow>
     (\<exists>b. f (off, buf) = Some (off + n, b) \<and> length b = length buf \<and> take off b = take off buf \<and>
        drop (off + n) b = drop (off + n) buf))"

lemma packsD:
  assumes "packs f n m" "off + m \<le> length buf"
  obtains b where "f (off, buf) = Some (off + n, b)" "length b = length buf"
    "take off b = take off buf" "drop (off + n) b = drop (off + n) buf"
  using assms unfolding packs_def by blast

lemma take_eq_le: "take n xs = take n ys \<Longrightarrow> m \<le> n \<Longrightarrow> take m xs = take m ys"
  by (metis min.absorb1 take_take)

lemma drop_eq_le: "drop m xs = drop m ys \<Longrightarrow> m \<le> n \<Longrightarrow> drop n xs = drop n ys"
  by (metis drop_drop le_add_diff_inverse2)

lemma packs_bind:
  assumes f: "packs f n1 m1" and g: "packs g n2 m2" 
  shows "packs (\<lambda>st. f st \<bind> g) (n1 + n2) (max m1 (n1 + m2))"
  unfolding packs_def
proof (intro allI impI)
  fix off buf assume room: "off + max m1 (n1 + m2) \<le> length (buf :: block)"
  have r: "off + m1 \<le> length buf" "off + n1 + m2 \<le> length buf" using room by simp_all
  obtain b where b: "f (off, buf) = Some (off + n1, b)" "length b = length buf"
      "take off b = take off buf" "drop (off + n1) b = drop (off + n1) buf"
    by (rule packsD [OF f r(1)])
  obtain c where c: "g (off + n1, b) = Some (off + n1 + n2, c)" "length c = length b"
      "take (off + n1) c = take (off + n1) b" "drop (off + n1 + n2) c = drop (off + n1 + n2) b"
    using packsD [OF g, of "off + n1" b] r(2) b(2) by auto
  show "\<exists>b. f (off, buf) \<bind> g = Some (off + (n1 + n2), b) \<and> length b = length buf \<and>
      take off b = take off buf \<and> drop (off + (n1 + n2)) b = drop (off + (n1 + n2)) buf"
    using b c take_eq_le [OF c(3), of off] drop_eq_le [OF b(4), of "off + n1 + n2"]
    by (simp add: add.assoc)
qed

context wire_table begin

lemma packs_part:
  assumes "present \<Longrightarrow> sl \<le> length s" "n \<le> wl"
    "\<forall>f \<in> set desc. wire_start f + size_bits f \<le> 8 * n"
  shows "packs (pack_part present desc s n) (if present then n else 0) (if present then wl else 0)"
  unfolding packs_def
proof (intro allI impI)
  fix off and buf :: block assume "off + (if present then wl else 0) \<le> length buf"
  then show "\<exists>b. pack_part present desc s n (off, buf) = Some (off + (if present then n else 0), b) \<and>
      length b = length buf \<and> take off b = take off buf \<and>
      drop (off + (if present then n else 0)) b = drop (off + (if present then n else 0)) buf"
    using pack_part_spec [of present s off buf n, OF assms(1) _ assms(2,3)] by auto
qed

end

lemma packs_imm: "packs (pack_imm present imm) (if present then 4 else 0) (if present then 4 else 0)"
  by (auto simp: packs_def pack_imm_def mem_write_def)

lemmas packs_parts =
  lrh.packs_part [OF _ _ tail_ok(1)] eth.packs_part [OF _ _ tail_ok(2)]
  vlan.packs_part [OF _ _ tail_ok(3)] grh.packs_part [OF _ _ tail_ok(4)]
  ip4.packs_part [OF _ _ tail_ok(5)] udp.packs_part [OF _ _ tail_ok(6)]
  bth.packs_part [OF _ _ tail_ok(7)] deth.packs_part [OF _ _ tail_ok(8)] packs_imm

definition ud_header_bytes :: "ib_ud_header \<Rightarrow> nat" where
  "ud_header_bytes h =
     (if lrh_present h then IB_LRH_BYTES else 0) + ((if eth_present h then IB_ETH_BYTES else 0) +
     ((if vlan_present h then IB_VLAN_BYTES else 0) + ((if grh_present h then IB_GRH_BYTES else 0) +
     ((if ipv4_present h then IB_IP4_BYTES else 0) + ((if udp_present h then IB_UDP_BYTES else 0) +
     (IB_BTH_BYTES + (IB_DETH_BYTES + (if immediate_present h then 4 else 0))))))))"

lemma pack_all:
  assumes "grh_wf (grh h)" and "eth_wf (eth h)" and "ud_header_bytes h \<le> length buf"
  shows "\<exists>b. ib_ud_header_pack h buf = Some (ud_header_bytes h, b) \<and> length b = length buf \<and>
    drop (ud_header_bytes h) b = drop (ud_header_bytes h) buf"
proof -
  have sizes: "IB_LRH_BYTES \<le> 8" "IB_ETH_BYTES \<le> 16" "IB_VLAN_BYTES \<le> 4" "IB_GRH_BYTES \<le> 40"
    "IB_IP4_BYTES \<le> 20" "IB_UDP_BYTES \<le> 8" "IB_BTH_BYTES \<le> 12" "IB_DETH_BYTES \<le> 8"
    by (simp_all add: header_bytes)
  note parts = packs_parts(1) [OF _ sizes(1), of "lrh_present h" "lrh_mem (lrh h)", simplified]
    packs_parts(2) [OF _ sizes(2), of "eth_present h" "eth_mem (eth h)", simplified assms(2) mem_lengths, simplified]
    packs_parts(3) [OF _ sizes(3), of "vlan_present h" "vlan_mem (vlan h)", simplified]
    packs_parts(4) [OF _ sizes(4), of "grh_present h" "grh_mem (grh h)", simplified assms(1) mem_lengths, simplified]
    packs_parts(5) [OF _ sizes(5), of "ipv4_present h" "ip4_mem (ip4 h)", simplified]
    packs_parts(6) [OF _ sizes(6), of "udp_present h" "udp_mem (udp h)", simplified]
    packs_parts(7) [OF _ sizes(7), of True "bth_mem (bth h)", simplified]
    packs_parts(8) [OF _ sizes(8), of True "deth_mem (deth h)", simplified]
    packs_parts(9) [of "immediate_present h" "immediate_data h"]
  note all = packs_bind [OF parts(1) packs_bind [OF parts(2) packs_bind [OF parts(3)
    packs_bind [OF parts(4) packs_bind [OF parts(5) packs_bind [OF parts(6)
    packs_bind [OF parts(7) packs_bind [OF parts(8) parts(9)]]]]]]]]
  show ?thesis
    by (rule packsD [OF all, of 0 buf])
      (use assms(3) in \<open>auto simp: ib_ud_header_pack_def ud_header_bytes_def header_bytes\<close>)
qed

section \<open>The InfiniBand round trip\<close>

text \<open>A header \<^verbatim>\<open>ib_ud_header_unpack\<close> accepts: link header, optional GRH, BTH, DETH.\<close>

definition ib_packet :: "ib_ud_header \<Rightarrow> bool" where
  "ib_packet h \<longleftrightarrow> lrh_present h \<and> \<not> eth_present h \<and> \<not> vlan_present h \<and> \<not> ipv4_present h \<and>
     \<not> udp_present h \<and> link_version (lrh h) = 0 \<and>
     link_next_header (lrh h) = (if grh_present h then IB_LNH_IBA_GLOBAL else IB_LNH_IBA_LOCAL) \<and>
     (grh_present h \<longrightarrow> ip_version (grh h) = 6 \<and> next_header (grh h) = 0x1b) \<and>
     opcode (bth h) = (if immediate_present h then IB_OPCODE_UD_SEND_ONLY_WITH_IMMEDIATE
       else IB_OPCODE_UD_SEND_ONLY) \<and> transport_header_version (bth h) = 0"

definition ud_fits :: "ib_ud_header \<Rightarrow> bool" where
  "ud_fits h \<longleftrightarrow> lrh_fits (lrh h) \<and> grh_fits (grh h) \<and> bth_fits (bth h) \<and> deth_fits (deth h)"

lemma unpacks_to_prefix:
  "unpacks_to desc wl sl off b s \<Longrightarrow> take (off + wl) c = take (off + wl) b \<Longrightarrow>
     unpacks_to desc wl sl off c s"
  by (simp add: unpacks_to_def)

lemma unpacks_toD:
  assumes "unpacks_to desc wl sl off w s" "off + wl \<le> length w" "sl \<le> length s0"
  obtains s' where "ib_unpack desc (drop off w) s0 = Some s'" "\<forall>f \<in> set desc. slot f s' = slot f s"
  using assms unfolding unpacks_to_def by blast

text \<open>What the unpacker finds in the buffer once all four parts and the immediate are in place.\<close>

lemma unpack_deth_ok:
  assumes "unpacks_to deth_table 8 8 off w (deth_mem d)" "off + 8 \<le> length w"
    "immediate_present h \<Longrightarrow> off + 12 \<le> length w \<and> take 4 (drop (off + 8) w) = be32 imm"
  shows "unpack_deth (drop off w) h = Some (0, h\<lparr>deth := d,
    immediate_data := (if immediate_present h then imm else immediate_data h)\<rparr>)"
proof -
  obtain s where s: "ib_unpack deth_table (drop off w) (deth_mem (deth h)) = Some s" "mem_deth s = d"
    by (rule unpacks_toD [OF assms(1,2), of "deth_mem (deth h)"]) (auto dest: mem_deth_slots)
  then show ?thesis
    using assms(3) by (auto simp: unpack_deth_def mem_read_def header_bytes add.commute
        simp del: be_val_be_bytes)
qed

lemma unpack_bth_ok:
  assumes "unpacks_to bth_table 12 20 off w (bth_mem t)" "off + 12 \<le> length w"
    "opcode t = (if immp then IB_OPCODE_UD_SEND_ONLY_WITH_IMMEDIATE else IB_OPCODE_UD_SEND_ONLY)"
    "transport_header_version t = 0"
  shows "unpack_bth (drop off w) h =
    unpack_deth (drop (off + 12) w) (h\<lparr>bth := t, immediate_present := immp\<rparr>)"
proof -
  obtain s where s: "ib_unpack bth_table (drop off w) (bth_mem (bth h)) = Some s" "mem_bth s = t"
    by (rule unpacks_toD [OF assms(1,2), of "bth_mem (bth h)"]) (auto dest: mem_bth_slots)
  then show ?thesis
    using assms(3,4) by (auto simp: unpack_bth_def header_bytes header_codes add.commute)
qed

lemma unpack_grh_ok:
  assumes "unpacks_to grh_table 40 48 off w (grh_mem g)" "off + 40 \<le> length w" "grh_wf g"
    "ip_version g = 6" "next_header g = 0x1b" "grh_wf (grh h)"
  shows "unpack_grh (drop off w) h = unpack_bth (drop (off + 40) w) (h\<lparr>grh_present := True, grh := g\<rparr>)"
proof -
  obtain s where s: "ib_unpack grh_table (drop off w) (grh_mem (grh h)) = Some s" "mem_grh s = g"
    by (rule unpacks_toD [OF assms(1,2), of "grh_mem (grh h)"])
      (use assms(3,6) in \<open>auto dest: mem_grh_slots\<close>)
  then show ?thesis
    using assms(4,5) by (auto simp: unpack_grh_def header_bytes add.commute)
qed

lemma unpack_lrh_ok:
  assumes "unpacks_to lrh_table 8 10 0 w (lrh_mem l)" "8 \<le> length w" "link_version l = 0"
    "link_next_header l = (if grhp then IB_LNH_IBA_GLOBAL else IB_LNH_IBA_LOCAL)"
  shows "ib_ud_header_unpack w h = (if grhp then unpack_grh (drop 8 w) (h\<lparr>lrh := l\<rparr>)
    else unpack_bth (drop 8 w) (h\<lparr>lrh := l, grh_present := False\<rparr>))"
proof -
  obtain s where s: "ib_unpack lrh_table w (lrh_mem (lrh h)) = Some s" "mem_lrh s = l"
    by (rule unpacks_toD [OF assms(1), of "lrh_mem (lrh h)"])
      (use assms(2) in \<open>auto dest: mem_lrh_slots\<close>)
  then show ?thesis
    using assms(3,4) by (auto simp: ib_ud_header_unpack_def header_bytes header_codes)
qed

lemma pack_part_absent: "pack_part False desc s n st = Some st"
  by (simp add: pack_part_def)

lemma pack_ib_parts:
  assumes "ib_packet h" "ud_fits h" "ud_header_bytes h \<le> length buf"
  shows "\<exists>w. ib_ud_header_pack h buf = Some (ud_header_bytes h, w) \<and> length w = length buf \<and>
    unpacks_to lrh_table 8 10 0 w (lrh_mem (lrh h)) \<and>
    (grh_present h \<longrightarrow> unpacks_to grh_table 40 48 8 w (grh_mem (grh h))) \<and>
    (let o1 = (if grh_present h then 48 else 8) in
      unpacks_to bth_table 12 20 o1 w (bth_mem (bth h)) \<and>
      unpacks_to deth_table 8 8 (o1 + 12) w (deth_mem (deth h)) \<and>
      (immediate_present h \<longrightarrow> take 4 (drop (o1 + 20) w) = be32 (immediate_data h)))"
proof -
  note ib = assms(1) [unfolded ib_packet_def] and fits = assms(2) [unfolded ud_fits_def]
  define o1 where "o1 = (if grh_present h then 48 else 8 :: nat)"
  have len: "o1 + 20 + (if immediate_present h then 4 else 0) \<le> length buf"
    and o1: "8 + (if grh_present h then 40 else 0) = o1"
    "o1 + 20 + (if immediate_present h then 4 else 0) = ud_header_bytes h"
    using assms(3) ib by (auto simp: ud_header_bytes_def header_bytes o1_def split: if_splits)
  have o1': "8 \<le> o1" "grh_present h \<Longrightarrow> o1 = 48" by (auto simp: o1_def)
  obtain b1 where b1: "pack_part (lrh_present h) lrh_table (lrh_mem (lrh h)) IB_LRH_BYTES (0, buf)
      = Some (8, b1)" "length b1 = length buf" "unpacks_to lrh_table 8 10 0 b1 (lrh_mem (lrh h))"
    using lrh.pack_part_spec [of True "lrh_mem (lrh h)" 0 buf, OF _ _ _ tail_ok(1)] ib fits len o1'
      lrh_slots_fit [of "lrh h"] by (auto simp: header_bytes)
  have grh_len: "48 \<le> length (grh_mem (grh h))" using fits by (simp add: grh_fits_def)
  have grh_room: "grh_present h \<Longrightarrow> 8 + 40 \<le> length b1" using len o1' b1(2) by simp
  have o1g: "8 + (if grh_present h then IB_GRH_BYTES else 0) = o1" by (simp add: header_bytes o1_def)
  obtain b2 where b2: "pack_part (grh_present h) grh_table (grh_mem (grh h)) IB_GRH_BYTES (8, b1)
      = Some (o1, b2)" "length b2 = length buf" "take 8 b2 = take 8 b1"
      "grh_present h \<longrightarrow> unpacks_to grh_table 40 48 8 b2 (grh_mem (grh h))"
    using grh.pack_part_spec [of "grh_present h" "grh_mem (grh h)" 8 b1, OF grh_len grh_room _ tail_ok(4)]
      fits grh_slots_fit [of "grh h"] b1(2) unfolding o1g by (auto simp: header_bytes)
  obtain b3 where b3: "pack_part True bth_table (bth_mem (bth h)) IB_BTH_BYTES (o1, b2)
      = Some (o1 + 12, b3)" "length b3 = length buf" "take o1 b3 = take o1 b2"
      "unpacks_to bth_table 12 20 o1 b3 (bth_mem (bth h))"
    using bth.pack_part_spec [of True "bth_mem (bth h)" o1 b2, OF _ _ _ tail_ok(7)] fits len
      bth_slots_fit [of "bth h"] b2(2) by (auto simp: header_bytes)
  obtain b4 where b4: "pack_part True deth_table (deth_mem (deth h)) IB_DETH_BYTES (o1 + 12, b3)
      = Some (o1 + 20, b4)" "length b4 = length buf" "take (o1 + 12) b4 = take (o1 + 12) b3"
      "unpacks_to deth_table 8 8 (o1 + 12) b4 (deth_mem (deth h))"
    using deth.pack_part_spec [of True "deth_mem (deth h)" "o1 + 12" b3, OF _ _ _ tail_ok(8)] fits len
      deth_slots_fit [of "deth h"] b3(2) by (auto simp: header_bytes)
  obtain w where w: "pack_imm (immediate_present h) (immediate_data h) (o1 + 20, b4)
      = Some (ud_header_bytes h, w)" "length w = length buf" "take (o1 + 20) w = take (o1 + 20) b4"
      "immediate_present h \<longrightarrow> take 4 (drop (o1 + 20) w) = be32 (immediate_data h)"
    using len b4(2) o1 by (auto simp: pack_imm_def mem_write_def split: if_splits)
  have p3: "take (o1 + 12) w = take (o1 + 12) b3" using take_eq_le [OF w(3)] b4(3) by simp
  then have p2: "take o1 w = take o1 b2" using take_eq_le [OF p3] b3(3) by simp
  then have p1: "take 8 w = take 8 b1" using take_eq_le [OF p2 o1'(1)] b2(3) by simp
  have "unpacks_to lrh_table 8 10 0 w (lrh_mem (lrh h))"
    using unpacks_to_prefix [OF b1(3)] p1 by simp
  moreover have "grh_present h \<longrightarrow> unpacks_to grh_table 40 48 8 w (grh_mem (grh h))"
    using unpacks_to_prefix [of grh_table 40 48 8 b2 "grh_mem (grh h)" w] b2(4) p2 o1' by auto
  moreover have "unpacks_to bth_table 12 20 o1 w (bth_mem (bth h))"
    using unpacks_to_prefix [OF b3(4) p3] .
  moreover have "unpacks_to deth_table 8 8 (o1 + 12) w (deth_mem (deth h))"
    using unpacks_to_prefix [OF b4(4), of w] w(3) by (simp add: add.commute)
  moreover have "ib_ud_header_pack h buf = Some (ud_header_bytes h, w)"
    using ib b1(1) b2(1) b3(1) b4(1) w(1) by (simp add: ib_ud_header_pack_def pack_part_absent)
  ultimately show ?thesis using w(2,4) by (simp add: Let_def flip: o1_def)
qed

lemma unpack_ib:
  assumes "ib_packet h" "unpacks_to lrh_table 8 10 0 w (lrh_mem (lrh h))"
    "grh_present h \<longrightarrow> unpacks_to grh_table 40 48 8 w (grh_mem (grh h))"
    "let o1 = (if grh_present h then 48 else 8) in
      unpacks_to bth_table 12 20 o1 w (bth_mem (bth h)) \<and>
      unpacks_to deth_table 8 8 (o1 + 12) w (deth_mem (deth h)) \<and>
      (immediate_present h \<longrightarrow> take 4 (drop (o1 + 20) w) = be32 (immediate_data h))"
    "ud_header_bytes h \<le> length w" "grh_wf (grh h)" "grh_wf (grh h0)"
  shows "ib_ud_header_unpack w h0 = Some (0, h0\<lparr>lrh := lrh h, grh_present := grh_present h,
      grh := (if grh_present h then grh h else grh h0), bth := bth h, deth := deth h,
      immediate_present := immediate_present h,
      immediate_data := (if immediate_present h then immediate_data h else immediate_data h0)\<rparr>)"
proof -
  note ib = assms(1) [unfolded ib_packet_def]
  define o1 where "o1 = (if grh_present h then 48 else 8 :: nat)"
  note parts = assms(4) [folded o1_def, unfolded Let_def]
  have room: "o1 + 20 + (if immediate_present h then 4 else 0) \<le> length w"
    using assms(5) ib by (auto simp: ud_header_bytes_def header_bytes o1_def split: if_splits)
  have bth: "unpack_bth (drop o1 w) x = unpack_deth (drop (o1 + 12) w)
      (x\<lparr>bth := bth h, immediate_present := immediate_present h\<rparr>)" for x
    by (rule unpack_bth_ok) (use parts room ib in auto)
  have deth: "unpack_deth (drop (o1 + 12) w) x = Some (0, x\<lparr>deth := deth h,
      immediate_data := (if immediate_present x then immediate_data h else immediate_data x)\<rparr>)"
    if "immediate_present x = immediate_present h" for x
    by (rule unpack_deth_ok) (use parts room that in \<open>auto simp: add.commute\<close>)
  have grh: "unpack_grh (drop 8 w) x = unpack_bth (drop o1 w) (x\<lparr>grh_present := True, grh := grh h\<rparr>)"
    if "grh_present h" "grh_wf (grh x)" for x
    using unpack_grh_ok [of 8 w "grh h" x] assms(3,6) that ib room by (simp add: o1_def)
  have lrh: "ib_ud_header_unpack w h0 = (if grh_present h then unpack_grh (drop 8 w) (h0\<lparr>lrh := lrh h\<rparr>)
      else unpack_bth (drop 8 w) (h0\<lparr>lrh := lrh h, grh_present := False\<rparr>))"
    by (rule unpack_lrh_ok [OF assms(2)]) (use ib room in \<open>auto simp: o1_def split: if_splits\<close>)
  show ?thesis
  proof (cases "grh_present h")
    case True
    then show ?thesis using lrh grh assms(7) by (simp add: bth deth)
  next
    case False
    then have "o1 = 8" by (simp add: o1_def)
    then show ?thesis using lrh False bth deth by simp
  qed
qed

text \<open>
  C34. Round trip of a datagram header.  Packing a header made of a link header, an optional
  GRH, a BTH and a DETH, with an optional immediate, and unpacking the buffer again succeeds,
  returns 0 and yields exactly the packed headers; members of the target structure the wire
  image does not carry keep their value.
\<close>

theorem ib_ud_header_roundtrip:
  assumes "ib_packet h" and "ud_fits h" and "ud_header_bytes h \<le> length buf" and "grh_wf (grh h0)"
  shows "\<exists>w. ib_ud_header_pack h buf = Some (ud_header_bytes h, w) \<and>
    ib_ud_header_unpack w h0 = Some (0, h0\<lparr>lrh := lrh h, grh_present := grh_present h,
      grh := (if grh_present h then grh h else grh h0), bth := bth h, deth := deth h,
      immediate_present := immediate_present h,
      immediate_data := (if immediate_present h then immediate_data h else immediate_data h0)\<rparr>)"
proof -
  obtain w where w: "ib_ud_header_pack h buf = Some (ud_header_bytes h, w)" "length w = length buf"
    and parts: "unpacks_to lrh_table 8 10 0 w (lrh_mem (lrh h))"
      "grh_present h \<longrightarrow> unpacks_to grh_table 40 48 8 w (grh_mem (grh h))"
      "let o1 = (if grh_present h then 48 else 8) in
        unpacks_to bth_table 12 20 o1 w (bth_mem (bth h)) \<and>
        unpacks_to deth_table 8 8 (o1 + 12) w (deth_mem (deth h)) \<and>
        (immediate_present h \<longrightarrow> take 4 (drop (o1 + 20) w) = be32 (immediate_data h))"
    using pack_ib_parts [OF assms(1-3)] by blast
  have "grh_wf (grh h)" using assms(2) by (simp add: ud_fits_def grh_fits_def)
  with unpack_ib [OF assms(1) parts _ this assms(4)] w assms(3) show ?thesis by simp
qed

definition sample_header :: ib_ud_header where
  "sample_header = (snd (ib_ud_header_init 100 True False False True 0 False True))
     \<lparr>immediate_data := 0xdeadbeef, deth := \<lparr>qkey = 7, source_qpn = 0xabcdef\<rparr>\<rparr>"

theorem ib_ud_header_roundtrip_witness:
  "\<exists>w. ib_ud_header_pack sample_header (replicate 72 0) = Some (72, w) \<and>
     (\<exists>h. ib_ud_header_unpack w zero_header = Some (0, h) \<and> deth h = deth sample_header \<and>
       immediate_data h = 0xdeadbeef)"
proof -
  have 1: "ib_packet sample_header" and 2: "ud_fits sample_header"
    and 3: "ud_header_bytes sample_header = 72" and 4: "grh_wf (grh zero_header)"
    and 5: "immediate_present sample_header" "immediate_data sample_header = 0xdeadbeef"
    by code_simp+
  from ib_ud_header_roundtrip [OF 1 2 _ 4, of "replicate 72 0"] 3 5 show ?thesis by auto
qed

section \<open>Lengths set by the initialiser\<close>

lemma pad_uint: "uint ((4 - of_nat n :: u32) AND 3) = (- int n) mod 4"
proof -
  have w: "(4 - of_nat n :: u32) = word_of_int (4 - int n)" by simp
  have "uint (4 - of_nat n :: u32) = take_bit 32 (4 - int n)"
    unfolding w uint_word_of_int_eq by simp
  then have "uint (take_bit 2 (4 - of_nat n :: u32)) = take_bit 2 (4 - int n)"
    by (simp add: unsigned_take_bit_eq)
  then have "uint (take_bit 2 (4 - of_nat n :: u32)) = (4 - int n) mod 4"
    by (simp only: take_bit_eq_mod power2_eq_square) simp
  moreover have "(3 :: u32) = mask 2" by (simp add: mask_eq_exp_minus_1)
  then have "(4 - of_nat n :: u32) AND 3 = take_bit 2 (4 - of_nat n)"
    by (simp only: take_bit_eq_mask)
  moreover have "(4 - int n) mod 4 = (- int n) mod 4" using mod_add_self1 [of 4 "- int n"] by simp
  ultimately show ?thesis by simp
qed

lemma pad_count_unat:
  "int (unat (ucast ((4 - of_nat n :: u32) AND 3) :: u8)) = (- int n) mod 4"
proof -
  have "(- int n) mod 4 < 256" using pos_mod_bound [of 4 "- int n"] by linarith
  then have "uint (ucast ((4 - of_nat n :: u32) AND 3) :: u8) = (- int n) mod 4"
    by (simp add: unsigned_ucast_eq pad_uint take_bit_eq_mod)
  then show ?thesis by simp
qed

lemma round_up_unat:
  assumes "m < 2 ^ 16"
  shows "unat (ucast ((of_nat m :: u64) AND NOT 3) :: u16) = m div 4 * 4"
proof -
  have k: "Suc (Suc (k - 2)) = k" if "2 \<le> k" for k :: nat using that by simp
  have "(of_nat m :: u64) AND NOT 3 = push_bit 2 (drop_bit 2 (of_nat m))"
    by (rule bit_word_eqI) (auto simp: bit_simps not_less k simp flip: mask_eq_exp_minus_1 [where n = 2 and 'a = u64, simplified])
  moreover have "unat (drop_bit 2 (of_nat m :: u64)) = m div 4"
    using assms by (simp add: unat_div unat_of_nat take_bit_nat_eq_self drop_bit_eq_div)
  then have "(drop_bit 2 (of_nat m) :: u64) = of_nat (m div 4)"
    by (metis of_nat_unat ucast_id)
  ultimately have "(of_nat m :: u64) AND NOT 3 = of_nat (m div 4 * 4)"
    by (simp add: push_bit_eq_mult mult.commute)
  moreover have "m div 4 * 4 < 2 ^ 16" using assms by (meson div_times_less_eq_dividend le_less_trans)
  then have "unat (ucast (of_nat (m div 4 * 4) :: u64) :: u16) = m div 4 * 4"
    by (simp only: unsigned_ucast_eq unat_of_nat take_bit_nat_eq_self take_bit_take_bit) 
       (simp add: take_bit_nat_eq_self)
  ultimately show ?thesis by simp
qed


lemma init_length:
  assumes "n \<le> 8000" "c \<le> 100"
  shows "unat (of_nat ((c + n + 4 + 3) div 4) :: u16) = (c + n + 7) div 4"
  using assms by (simp add: unat_of_nat take_bit_nat_eq_self)

lemma round_up_pad:
  assumes "int p = (- int n) mod 4" 
  shows "4 * ((4 * c + n + 3) div 4) = 4 * c + n + p"
proof -
  have "int (4 * ((4 * c + n + 3) div 4)) = 4 * int c + int n + (- int n) mod 4"
    by presburger
  with assms show ?thesis by linarith
qed

text \<open>
  The initialiser prepares an InfiniBand datagram the unpacker accepts, and its lengths
  are consistent: the LRH packet length, in words, covers all headers, the payload, its padding
  and the 4-byte ICRC, and the GRH payload length is that total without LRH and GRH.  The four
  bytes of an immediate are left out of both.
\<close>

theorem ib_ud_header_init_ib:
  assumes "payload_bytes \<le> 8000"
  shows "\<exists>h. ib_ud_header_init payload_bytes True False False grhp 0 False immp = (0, h) \<and>
    ib_packet h \<and> ud_fits h \<and> grh_present h = grhp \<and> immediate_present h = immp \<and>
    4 * unat (packet_length (lrh h)) + (if immp then 4 else 0) =
      ud_header_bytes h + payload_bytes + unat (pad_count (bth h)) + 4 \<and>
    (grhp \<longrightarrow> unat (payload_length (grh h)) + IB_LRH_BYTES + IB_GRH_BYTES =
      4 * unat (packet_length (lrh h)))"
proof -
  let ?n = payload_bytes
  let ?h = "snd (ib_ud_header_init ?n True False False grhp 0 False immp)"
  let ?p = "ucast ((4 - of_nat ?n :: u32) AND 3) :: u8"
  define c where "c = (if grhp then 17 else 7 :: nat)"
  have c: "28 + (if grhp then 40 else 0) = 4 * c" "c \<le> 17" by (auto simp: c_def)
  have pc: "pad_count (bth ?h) = ?p"
    by (simp add: ib_ud_header_init_def Let_def init_bth_def)
  have "packet_length (lrh ?h) = of_nat ((4 * c + ?n + 4 + 3) div 4)"
    by (simp add: ib_ud_header_init_def Let_def init_lrh_def header_bytes c_def)
  then have pl: "unat (packet_length (lrh ?h)) = (4 * c + ?n + 7) div 4"
    using init_length [OF assms, of "4 * c"] c by simp
  have up: "4 * ((4 * c + ?n + 7) div 4) = 4 * c + ?n + unat ?p + 4"
    using round_up_pad [OF pad_count_unat [of ?n], of "c + 1"] by (simp add: algebra_simps)
  have "unat ?p < 4"
    using pad_count_unat [of ?n] pos_mod_bound [of 4 "- int ?n"] by linarith
  then have p4: "?p < 4" by (simp add: word_less_nat_alt)
  have "packet_length (lrh ?h) < 2 ^ 11"
    using pl assms c(2) by (simp add: word_less_nat_alt)
  then have fits: "ud_fits ?h"
    using p4 by (simp add: ud_fits_def lrh_fits_def grh_fits_def bth_fits_def deth_fits_def grh_wf_def
      ib_ud_header_init_def Let_def init_lrh_def init_grh_def init_bth_def zero_header_def header_codes)
  have ib: "ib_packet ?h"
    by (simp add: ib_packet_def ib_ud_header_init_def Let_def init_lrh_def init_grh_def init_bth_def
      zero_header_def)
  have bytes: "ud_header_bytes ?h = 4 * c + (if immp then 4 else 0)"
    by (simp add: ud_header_bytes_def ib_ud_header_init_def Let_def header_bytes c_def)
  have grh: "grhp \<longrightarrow> unat (payload_length (grh ?h)) = (?n + 27) div 4 * 4"
    using round_up_unat [of "?n + 27"] assms
    by (simp add: ib_ud_header_init_def Let_def init_grh_def header_bytes algebra_simps)
  have "grhp \<longrightarrow> unat (payload_length (grh ?h)) + 48 = 4 * unat (packet_length (lrh ?h))"
    unfolding pl using grh by (cases grhp) (simp_all add: c_def, presburger)
  moreover have "fst (ib_ud_header_init ?n True False False grhp 0 False immp) = 0"
    "grh_present ?h = grhp" "immediate_present ?h = immp"
    by (simp_all add: ib_ud_header_init_def Let_def)
  ultimately show ?thesis
    using pl pc up fits ib bytes
    by (intro exI [of _ ?h]) (auto simp: prod_eq_iff header_bytes)
qed

theorem ib_ud_header_init_ib_witness:
  "\<exists>h. ib_ud_header_init 100 True False False True 0 False True = (0, h) \<and> ib_packet h \<and>
     4 * unat (packet_length (lrh h)) + 4 = ud_header_bytes h + 100 + unat (pad_count (bth h)) + 4"
  using ib_ud_header_init_ib [of 100 True True] by auto

section \<open>The IPv4 checksum\<close>

lemma ip4_fields:
  assumes "ib_pack ip4_table (ip4_mem h) w = Some d" "20 \<le> length w"
  shows "take 1 (drop 1 d) = [tos h]" "take 2 (drop 2 d) = be16 (tot_len h)"
    "take 2 (drop 4 d) = be16 (ip4_id h)" "take 2 (drop 6 d) = be16 (frag_off h)"
    "take 1 (drop 8 d) = [ttl h]" "take 1 (drop 9 d) = [protocol h]"
    "take 2 (drop 10 d) = be16 (check h)" "take 4 (drop 12 d) = be32 (saddr h)"
    "take 4 (drop 16 d) = be32 (daddr h)"
  using ip4.aligned_field [of "ip4_table ! 2" 1, OF _ _ _ _ assms]
    ip4.aligned_field [of "ip4_table ! 3" 2, OF _ _ _ _ assms]
    ip4.aligned_field [of "ip4_table ! 4" 4, OF _ _ _ _ assms]
    ip4.aligned_field [of "ip4_table ! 5" 6, OF _ _ _ _ assms]
    ip4.aligned_field [of "ip4_table ! 6" 8, OF _ _ _ _ assms]
    ip4.aligned_field [of "ip4_table ! 7" 9, OF _ _ _ _ assms]
    ip4.aligned_field [of "ip4_table ! 8" 10, OF _ _ _ _ assms]
    ip4.aligned_field [of "ip4_table ! 9" 12, OF _ _ _ _ assms]
    ip4.aligned_field [of "ip4_table ! 10" 16, OF _ _ _ _ assms]
  by (simp_all add: ip4_table_def wire_start_def slot_def ip4_mem_def)

lemma ip4_first:
  assumes "ib_pack ip4_table (ip4_mem h) w = Some d" "20 \<le> length w" "ver h = 4" "hdr_len h = 5"
  shows "take 1 d = [0x45]"
proof -
  have len: "length d = length w" and bits: "\<forall>f \<in> set ip4_table. \<forall>p < 8 * length w. wire_bits f p \<longrightarrow>
       bit_at d p = (struct_size_bytes f \<noteq> 0 \<and> bit_at (ip4_mem h) (slot_low f + (p - wire_start f)))"
    using ib_pack_bits [OF ip4.table assms(2), of "ip4_mem h"] assms(1) by auto
  have hi: "bit_at d p = bit_at (ip4_mem h) (4 + p)" if "p < 4" for p
    using bits [rule_format, of "ip4_table ! 0" p] that assms(2)
    by (simp add: ip4_table_def wire_bits_def wire_start_def slot_low_def slot_end_def)
  have lo: "bit_at d p = bit_at (ip4_mem h) (8 + p)" if "4 \<le> p" "p < 8" for p
    using bits [rule_format, of "ip4_table ! 1" p] that assms(2)
    by (simp add: ip4_table_def wire_bits_def wire_start_def slot_low_def slot_end_def)
  have "bit_at d p = bit_at [0x45] p" if "p < 8" for p
  proof -
    have "p \<in> {0, 1, 2, 3, 4, 5, 6, 7}" using that by auto
    then show ?thesis
      using hi [of p] lo [of p] that assms(3,4) by (auto simp: ip4_mem_def bit_at_def)
  qed
  then show ?thesis
    using len assms(2) by (intro block_eqI) (auto simp: bit_at_def)
qed

text \<open>
  The IPv4 checksum is computed over exactly the 20 bytes that go on the wire when the
  header is packed with a zero checksum field, whatever the kernel's checksum routine is.
\<close>

theorem ib_ud_ip4_csum_covers_wire:
  assumes "ver (ip4 h) = 4" and "hdr_len (ip4 h) = 5" and "IB_IP4_BYTES \<le> length buf"
  shows "\<exists>b. ib_pack ip4_table (ip4_mem ((ip4 h)\<lparr>check := 0\<rparr>)) buf = Some b \<and>
    ib_ud_ip4_csum ip_fast_csum h = ip_fast_csum (take IB_IP4_BYTES b) 5"
proof -
  let ?g = "(ip4 h)\<lparr>check := 0\<rparr>"
  have len: "20 \<le> length buf" using assms(3) by (simp add: header_bytes)
  obtain b where b: "ib_pack ip4_table (ip4_mem ?g) buf = Some b" "length b = length buf"
    using ib_pack_bits [OF ip4.table len, of "ip4_mem ?g"] by auto
  have split: "take 20 b = take 1 b @ take 1 (drop 1 b) @ take 2 (drop 2 b) @ take 2 (drop 4 b) @
      take 2 (drop 6 b) @ take 1 (drop 8 b) @ take 1 (drop 9 b) @ take 2 (drop 10 b) @
      take 4 (drop 12 b) @ take 4 (drop 16 b)"
    using take_add [of 1 19 b] take_add [of 1 18 "drop 1 b"] take_add [of 2 16 "drop 2 b"]
      take_add [of 2 14 "drop 4 b"] take_add [of 2 12 "drop 6 b"] take_add [of 1 11 "drop 8 b"]
      take_add [of 1 10 "drop 9 b"] take_add [of 2 8 "drop 10 b"] take_add [of 4 4 "drop 12 b"]
    by (simp flip: numeral_2_eq_2)
  have first: "take 1 b = [0x45]" by (rule ip4_first [OF b(1) len]) (use assms in simp_all)
  have "take 20 b = iphdr_bytes (ip4 h)"
    unfolding split ip4_fields [OF b(1) len] first
    by (simp add: iphdr_bytes_def push_bit_eq_mult)
  then show ?thesis using b(1) by (simp add: ib_ud_ip4_csum_def header_bytes)
qed

theorem ib_ud_ip4_csum_covers_wire_witness:
  "\<exists>b. ib_pack ip4_table (ip4_mem (ip4 (snd (ib_ud_header_init 64 False True False False 4 True False))
       \<lparr>check := 0\<rparr>)) (replicate 20 0) = Some b \<and>
     ib_ud_ip4_csum (\<lambda>b n. of_nat (length b) + of_nat n)
       (snd (ib_ud_header_init 64 False True False False 4 True False)) = 25"
proof -
  let ?h = "snd (ib_ud_header_init 64 False True False False 4 True False)"
  have 1: "ver (ip4 ?h) = 4" "hdr_len (ip4 ?h) = 5" by code_simp+
  from ib_ud_ip4_csum_covers_wire [OF 1, of "replicate 20 0" "\<lambda>b n. of_nat (length b) + of_nat n"]
  show ?thesis
    by (auto simp: header_bytes ib_ud_ip4_csum_def iphdr_bytes_def)
qed

section \<open>What the unpacker accepts\<close>

definition ib_accepted :: "ib_ud_header \<Rightarrow> bool" where
  "ib_accepted h \<longleftrightarrow> link_version (lrh h) = 0 \<and>
     link_next_header (lrh h) = (if grh_present h then IB_LNH_IBA_GLOBAL else IB_LNH_IBA_LOCAL) \<and>
     (grh_present h \<longrightarrow> ip_version (grh h) = 6 \<and> next_header (grh h) = 0x1b) \<and>
     opcode (bth h) = (if immediate_present h then IB_OPCODE_UD_SEND_ONLY_WITH_IMMEDIATE
       else IB_OPCODE_UD_SEND_ONLY) \<and> transport_header_version (bth h) = 0"

lemma unpack_deth_accepts:
  assumes "12 \<le> length w"
  shows "\<exists>h'. unpack_deth w h = Some (0, h') \<and> ib_accepted h' = ib_accepted h"
proof -
  obtain s where "ib_unpack deth_table w (deth_mem (deth h)) = Some s"
    by (rule deth.unpack_total [of w "deth_mem (deth h)"]) (use assms in auto)
  then show ?thesis
    using assms by (auto simp: unpack_deth_def mem_read_def header_bytes ib_accepted_def)
qed

lemma unpack_bth_accepts:
  assumes "24 \<le> length w" "link_version (lrh h) = 0"
    "link_next_header (lrh h) = (if grh_present h then IB_LNH_IBA_GLOBAL else IB_LNH_IBA_LOCAL)"
    "grh_present h \<longrightarrow> ip_version (grh h) = 6 \<and> next_header (grh h) = 0x1b"
  shows "\<exists>r h'. unpack_bth w h = Some (r, h') \<and> (r = 0 \<and> ib_accepted h' \<or> r = - EINVAL)"
proof -
  obtain s where s: "ib_unpack bth_table w (bth_mem (bth h)) = Some s"
    by (rule bth.unpack_total [of w "bth_mem (bth h)"]) (use assms(1) in auto)
  let ?t = "mem_bth s"
  define g where "g = h\<lparr>bth := ?t,
    immediate_present := (opcode ?t = IB_OPCODE_UD_SEND_ONLY_WITH_IMMEDIATE)\<rparr>"
  have run: "unpack_bth w h =
     (if opcode ?t \<noteq> IB_OPCODE_UD_SEND_ONLY \<and> opcode ?t \<noteq> IB_OPCODE_UD_SEND_ONLY_WITH_IMMEDIATE
      then Some (- EINVAL, h\<lparr>bth := ?t\<rparr>)
      else if transport_header_version ?t \<noteq> 0 then Some (- EINVAL, g)
      else unpack_deth (drop 12 w) g)"
    using s by (simp add: unpack_bth_def header_bytes Let_def g_def)
  have ok: "ib_accepted g" if "opcode ?t = IB_OPCODE_UD_SEND_ONLY \<or>
      opcode ?t = IB_OPCODE_UD_SEND_ONLY_WITH_IMMEDIATE" "transport_header_version ?t = 0"
    using that assms(2-4) by (auto simp: ib_accepted_def header_codes g_def)
  have "12 \<le> length (drop 12 w)" using assms(1) by simp
  then obtain h' where "unpack_deth (drop 12 w) g = Some (0, h')" "ib_accepted h' = ib_accepted g"
    using unpack_deth_accepts [of "drop 12 w" g] by blast
  then show ?thesis using run ok by auto
qed

lemma unpack_grh_accepts:
  assumes "64 \<le> length w" "link_version (lrh h) = 0" "link_next_header (lrh h) = IB_LNH_IBA_GLOBAL"
    "grh_wf (grh h)"
  shows "\<exists>r h'. unpack_grh w h = Some (r, h') \<and> (r = 0 \<and> ib_accepted h' \<or> r = - EINVAL)"
proof -
  obtain s where s: "ib_unpack grh_table w (grh_mem (grh h)) = Some s"
    by (rule grh.unpack_total [of w "grh_mem (grh h)"]) (use assms(1,4) in auto)
  have "24 \<le> length (drop 40 w)" using assms(1) by simp
  then show ?thesis
    using s assms(2,3) unpack_bth_accepts [of "drop 40 w" "h\<lparr>grh_present := True, grh := mem_grh s\<rparr>"]
    by (auto simp: unpack_grh_def header_bytes Let_def)
qed

text \<open>
  On a buffer that holds the longest datagram header (72 bytes) the unpacker never reads
  outside the buffer, and it either fails with \<^verbatim>\<open>-EINVAL\<close> or returns 0 with a structure that
  passed every validity check: link version, next header, GRH version and next header, opcode
  and transport version.
\<close>

theorem ib_ud_header_unpack_validates:
  assumes "72 \<le> length w" and "grh_wf (grh h)"
  shows "\<exists>r h'. ib_ud_header_unpack w h = Some (r, h') \<and> (r = 0 \<and> ib_accepted h' \<or> r = - EINVAL)"
proof -
  obtain s where s: "ib_unpack lrh_table w (lrh_mem (lrh h)) = Some s"
    by (rule lrh.unpack_total [of w "lrh_mem (lrh h)"]) (use assms(1) in auto)
  have "24 \<le> length (drop 8 w)" "64 \<le> length (drop 8 w)" using assms(1) by simp_all
  then show ?thesis
    using s assms(2) unpack_bth_accepts [of "drop 8 w" "h\<lparr>lrh := mem_lrh s, grh_present := False\<rparr>"]
      unpack_grh_accepts [of "drop 8 w" "h\<lparr>lrh := mem_lrh s\<rparr>"]
    by (auto simp: ib_ud_header_unpack_def header_bytes Let_def)
qed

theorem ib_ud_header_unpack_validates_witness:
  "\<exists>r h'. ib_ud_header_unpack (replicate 72 0) zero_header = Some (r, h') \<and>
     (r = 0 \<and> ib_accepted h' \<or> r = - EINVAL)"
  by (rule ib_ud_header_unpack_validates) (simp_all add: grh_wf_def zero_header_def)

text \<open>
  With room for the headers that are present, packing returns the sum of their sizes and
  writes nothing behind them, for every combination of headers.
\<close>

theorem ib_ud_header_pack_frame:
  assumes "grh_wf (grh h)" and "eth_wf (eth h)" and "ud_header_bytes h \<le> length buf"
  shows "\<exists>b. ib_ud_header_pack h buf = Some (ud_header_bytes h, b) \<and> length b = length buf \<and>
    drop (ud_header_bytes h) b = drop (ud_header_bytes h) buf"
  using assms by (rule pack_all)

theorem ib_ud_header_pack_frame_witness:
  "\<exists>b. ib_ud_header_pack sample_header (replicate 80 1) = Some (72, b) \<and> length b = 80 \<and>
     drop 72 b = replicate 8 1"
proof -
  have 1: "grh_wf (grh sample_header)" "eth_wf (eth sample_header)" and 2: "ud_header_bytes sample_header = 72"
    by code_simp+
  from ib_ud_header_pack_frame [OF 1, of "replicate 80 1"] 2 show ?thesis by simp
qed

end
