(* ===== verification/SaQuery.thy ===== *)
theory SaQuery
  imports UdHeader
begin

text \<open>
  Subnet-administration records: the seven wire tables of \<^verbatim>\<open>drivers/infiniband/core/sa_query.c\<close>,
  each shown to satisfy the packer's contract, path records
  (\<^verbatim>\<open>struct sa_path_rec\<close> of \<^verbatim>\<open>include/rdma/ib_sa.h\<close>) with their accessors, and the conversion between
  InfiniBand and Omni-Path path records, which hides a 32-bit LID in a GID
  (\<^verbatim>\<open>include/rdma/opa_addr.h\<close>).  A union is the block of bytes its members share.
\<close>

unbundle bit_operations_syntax

section \<open>Record tables\<close>

definition path_rec_table :: "ib_field list" where
  "path_rec_table = [
     mk_field ''sa_path_rec:service_id'' 32 8 0 0 64,
     mk_field ''sa_path_rec:dgid'' 0 16 2 0 128,
     mk_field ''sa_path_rec:sgid'' 16 16 6 0 128,
     mk_field ''sa_path_rec:ib.dlid'' 60 2 10 0 16,
     mk_field ''sa_path_rec:ib.slid'' 62 2 10 16 16,
     mk_field ''sa_path_rec:ib.raw_traffic'' 64 1 11 0 1,
     RESERVED 11 1 3,
     mk_field ''sa_path_rec:flow_label'' 40 4 11 4 20,
     mk_field ''sa_path_rec:hop_limit'' 44 1 11 24 8,
     mk_field ''sa_path_rec:traffic_class'' 45 1 12 0 8,
     mk_field ''sa_path_rec:reversible'' 46 1 12 8 1,
     mk_field ''sa_path_rec:numb_path'' 47 1 12 9 7,
     mk_field ''sa_path_rec:pkey'' 48 2 12 16 16,
     mk_field ''sa_path_rec:qos_class'' 50 2 13 0 12,
     mk_field ''sa_path_rec:sl'' 52 1 13 12 4,
     mk_field ''sa_path_rec:mtu_selector'' 53 1 13 16 2,
     mk_field ''sa_path_rec:mtu'' 54 1 13 18 6,
     mk_field ''sa_path_rec:rate_selector'' 55 1 13 24 2,
     mk_field ''sa_path_rec:rate'' 56 1 13 26 6,
     mk_field ''sa_path_rec:packet_life_time_selector'' 57 1 14 0 2,
     mk_field ''sa_path_rec:packet_life_time'' 58 1 14 2 6,
     mk_field ''sa_path_rec:preference'' 59 1 14 8 8,
     RESERVED 14 16 48]"

definition opa_path_rec_table :: "ib_field list" where
  "opa_path_rec_table = [
     mk_field ''sa_path_rec:service_id'' 32 8 0 0 64,
     mk_field ''sa_path_rec:dgid'' 0 16 2 0 128,
     mk_field ''sa_path_rec:sgid'' 16 16 6 0 128,
     mk_field ''sa_path_rec:opa.dlid'' 60 4 10 0 32,
     mk_field ''sa_path_rec:opa.slid'' 64 4 11 0 32,
     mk_field ''sa_path_rec:opa.raw_traffic'' 68 1 12 0 1,
     RESERVED 12 1 3,
     mk_field ''sa_path_rec:flow_label'' 40 4 12 4 20,
     mk_field ''sa_path_rec:hop_limit'' 44 1 12 24 8,
     mk_field ''sa_path_rec:traffic_class'' 45 1 13 0 8,
     mk_field ''sa_path_rec:reversible'' 46 1 13 8 1,
     mk_field ''sa_path_rec:numb_path'' 47 1 13 9 7,
     mk_field ''sa_path_rec:pkey'' 48 2 13 16 16,
     mk_field ''sa_path_rec:opa.l2_8B'' 69 1 14 0 1,
     mk_field ''sa_path_rec:opa.l2_10B'' 70 1 14 1 1,
     mk_field ''sa_path_rec:opa.l2_9B'' 71 1 14 2 1,
     mk_field ''sa_path_rec:opa.l2_16B'' 72 1 14 3 1,
     RESERVED 14 4 2,
     mk_field ''sa_path_rec:opa.qos_type'' 73 1 14 6 2,
     mk_field ''sa_path_rec:opa.qos_priority'' 74 1 14 8 8,
     RESERVED 14 16 3,
     mk_field ''sa_path_rec:sl'' 52 1 14 19 5,
     RESERVED 14 24 8,
     mk_field ''sa_path_rec:mtu_selector'' 53 1 15 0 2,
     mk_field ''sa_path_rec:mtu'' 54 1 15 2 6,
     mk_field ''sa_path_rec:rate_selector'' 55 1 15 8 2,
     mk_field ''sa_path_rec:rate'' 56 1 15 10 6,
     mk_field ''sa_path_rec:packet_life_time_selector'' 57 1 15 16 2,
     mk_field ''sa_path_rec:packet_life_time'' 58 1 15 18 6,
     mk_field ''sa_path_rec:preference'' 59 1 15 24 8]"

definition mcmember_rec_table :: "ib_field list" where
  "mcmember_rec_table = [
     mk_field ''sa_mcmember_rec:mgid'' 0 16 0 0 128,
     mk_field ''sa_mcmember_rec:port_gid'' 16 16 4 0 128,
     mk_field ''sa_mcmember_rec:qkey'' 32 4 8 0 32,
     mk_field ''sa_mcmember_rec:mlid'' 36 2 9 0 16,
     mk_field ''sa_mcmember_rec:mtu_selector'' 38 1 9 16 2,
     mk_field ''sa_mcmember_rec:mtu'' 39 1 9 18 6,
     mk_field ''sa_mcmember_rec:traffic_class'' 40 1 9 24 8,
     mk_field ''sa_mcmember_rec:pkey'' 42 2 10 0 16,
     mk_field ''sa_mcmember_rec:rate_selector'' 44 1 10 16 2,
     mk_field ''sa_mcmember_rec:rate'' 45 1 10 18 6,
     mk_field ''sa_mcmember_rec:packet_life_time_selector'' 46 1 10 24 2,
     mk_field ''sa_mcmember_rec:packet_life_time'' 47 1 10 26 6,
     mk_field ''sa_mcmember_rec:sl'' 48 1 11 0 4,
     mk_field ''sa_mcmember_rec:flow_label'' 52 4 11 4 20,
     mk_field ''sa_mcmember_rec:hop_limit'' 56 1 11 24 8,
     mk_field ''sa_mcmember_rec:scope'' 57 1 12 0 4,
     mk_field ''sa_mcmember_rec:join_state'' 58 1 12 4 4,
     mk_field ''sa_mcmember_rec:proxy_join'' 59 1 12 8 1,
     RESERVED 12 9 23]"

definition service_rec_table :: "ib_field list" where
  "service_rec_table = [
     mk_field ''sa_service_rec:id'' 0 8 0 0 64,
     mk_field ''sa_service_rec:gid'' 8 16 2 0 128,
     mk_field ''sa_service_rec:pkey'' 24 2 6 0 16,
     mk_field ''sa_service_rec:lease'' 28 4 7 0 32,
     mk_field ''sa_service_rec:key'' 32 16 8 0 128,
     mk_field ''sa_service_rec:name'' 48 64 12 0 512,
     mk_field ''sa_service_rec:data8'' 112 16 28 0 128,
     mk_field ''sa_service_rec:data16'' 128 16 32 0 128,
     mk_field ''sa_service_rec:data32'' 144 16 36 0 128,
     mk_field ''sa_service_rec:data64'' 160 16 40 0 128]"

definition ib_classport_info_rec_table :: "ib_field list" where
  "ib_classport_info_rec_table = [
     mk_field ''ib_class_port_info:base_version'' 0 1 0 0 8,
     mk_field ''ib_class_port_info:class_version'' 1 1 0 8 8,
     mk_field ''ib_class_port_info:capability_mask'' 2 2 0 16 16,
     mk_field ''ib_class_port_info:cap_mask2_resp_time'' 4 4 1 0 32,
     mk_field ''ib_class_port_info:redirect_gid'' 8 16 2 0 128,
     mk_field ''ib_class_port_info:redirect_tcslfl'' 24 4 6 0 32,
     mk_field ''ib_class_port_info:redirect_lid'' 28 2 7 0 16,
     mk_field ''ib_class_port_info:redirect_pkey'' 30 2 7 16 16,
     mk_field ''ib_class_port_info:redirect_qp'' 32 4 8 0 32,
     mk_field ''ib_class_port_info:redirect_qkey'' 36 4 9 0 32,
     mk_field ''ib_class_port_info:trap_gid'' 40 16 10 0 128,
     mk_field ''ib_class_port_info:trap_tcslfl'' 56 4 14 0 32,
     mk_field ''ib_class_port_info:trap_lid'' 60 2 15 0 16,
     mk_field ''ib_class_port_info:trap_pkey'' 62 2 15 16 16,
     mk_field ''ib_class_port_info:trap_hlqp'' 64 4 16 0 32,
     mk_field ''ib_class_port_info:trap_qkey'' 68 4 17 0 32]"

definition opa_classport_info_rec_table :: "ib_field list" where
  "opa_classport_info_rec_table = [
     mk_field ''opa_class_port_info:base_version'' 0 1 0 0 8,
     mk_field ''opa_class_port_info:class_version'' 1 1 0 8 8,
     mk_field ''opa_class_port_info:cap_mask'' 2 2 0 16 16,
     mk_field ''opa_class_port_info:cap_mask2_resp_time'' 4 4 1 0 32,
     mk_field ''opa_class_port_info:redirect_gid'' 8 16 2 0 128,
     mk_field ''opa_class_port_info:redirect_tc_fl'' 24 4 6 0 32,
     mk_field ''opa_class_port_info:redirect_lid'' 28 4 7 0 32,
     mk_field ''opa_class_port_info:redirect_sl_qp'' 32 4 8 0 32,
     mk_field ''opa_class_port_info:redirect_qkey'' 36 4 9 0 32,
     mk_field ''opa_class_port_info:trap_gid'' 40 16 10 0 128,
     mk_field ''opa_class_port_info:trap_tc_fl'' 56 4 14 0 32,
     mk_field ''opa_class_port_info:trap_lid'' 60 4 15 0 32,
     mk_field ''opa_class_port_info:trap_hl_qp'' 64 4 16 0 32,
     mk_field ''opa_class_port_info:trap_qkey'' 68 4 17 0 32,
     mk_field ''opa_class_port_info:trap_pkey'' 72 2 18 0 16,
     mk_field ''opa_class_port_info:redirect_pkey'' 74 2 18 16 16,
     mk_field ''opa_class_port_info:trap_sl_rsvd'' 76 1 19 0 8,
     RESERVED 19 8 24]"

definition guidinfo_rec_table :: "ib_field list" where
  "guidinfo_rec_table = [
     mk_field ''sa_guidinfo_rec:lid'' 0 2 0 0 16,
     mk_field ''sa_guidinfo_rec:block_num'' 2 1 0 16 8,
     mk_field ''sa_guidinfo_rec:res1'' 3 1 0 24 8,
     mk_field ''sa_guidinfo_rec:res2'' 4 4 1 0 32,
     mk_field ''sa_guidinfo_rec:guid_info_list'' 8 64 2 0 512]"

interpretation path: wire_table path_rec_table 64 76 by unfold_locales code_simp+
interpretation opa_path: wire_table opa_path_rec_table 64 76 by unfold_locales code_simp+
interpretation mcmember: wire_table mcmember_rec_table 52 64 by unfold_locales code_simp+
interpretation service: wire_table service_rec_table 176 176 by unfold_locales code_simp+
interpretation classport: wire_table ib_classport_info_rec_table 72 72 by unfold_locales code_simp+
interpretation opa_classport: wire_table opa_classport_info_rec_table 80 80 by unfold_locales code_simp+
interpretation guidinfo: wire_table guidinfo_rec_table 72 72 by unfold_locales code_simp+

section \<open>Path records\<close>

datatype sa_path_rec_type =
    SA_PATH_REC_TYPE_IB | SA_PATH_REC_TYPE_ROCE_V1 | SA_PATH_REC_TYPE_ROCE_V2 | SA_PATH_REC_TYPE_OPA

text \<open>The enumerators for InfiniBand and for RoCE version 1 have the same value.\<close>

definition IB_GID_TYPE_IB :: nat where "IB_GID_TYPE_IB = 0"
definition IB_GID_TYPE_ROCE :: nat where "IB_GID_TYPE_ROCE = 0"
definition IB_GID_TYPE_ROCE_UDP_ENCAP :: nat where "IB_GID_TYPE_ROCE_UDP_ENCAP = 1"

text \<open>\<open>pr_un\<close> is the 16-byte union of the IB, RoCE and OPA parts.\<close>

record sa_path_rec =
  pr_dgid :: block
  pr_sgid :: block
  pr_service_id :: u64
  pr_flow_label :: u32
  pr_hop_limit :: u8
  pr_traffic_class :: u8
  pr_reversible :: u8
  pr_numb_path :: u8
  pr_pkey :: u16
  pr_qos_class :: u16
  pr_sl :: u8
  pr_mtu_selector :: u8
  pr_mtu :: u8
  pr_rate_selector :: u8
  pr_rate :: u8
  pr_packet_life_time_selector :: u8
  pr_packet_life_time :: u8
  pr_preference :: u8
  pr_un :: block
  rec_type :: sa_path_rec_type

definition path_wf :: "sa_path_rec \<Rightarrow> bool" where
  "path_wf r \<longleftrightarrow> length (pr_dgid r) = 16 \<and> length (pr_sgid r) = 16 \<and> length (pr_un r) = 16"

definition path_mem :: "sa_path_rec \<Rightarrow> block" where
  "path_mem r = pr_dgid r @ pr_sgid r @ be_bytes 8 (pr_service_id r) @ be32 (pr_flow_label r) @
     [pr_hop_limit r, pr_traffic_class r, pr_reversible r, pr_numb_path r] @
     be16 (pr_pkey r) @ be16 (pr_qos_class r) @
     [pr_sl r, pr_mtu_selector r, pr_mtu r, pr_rate_selector r, pr_rate r,
      pr_packet_life_time_selector r, pr_packet_life_time r, pr_preference r] @ pr_un r"

definition mem_path :: "sa_path_rec_type \<Rightarrow> block \<Rightarrow> sa_path_rec" where
  "mem_path t s = \<lparr>pr_dgid = take 16 s, pr_sgid = take 16 (drop 16 s),
     pr_service_id = be_val (take 8 (drop 32 s)), pr_flow_label = rd32 40 s, pr_hop_limit = rd8 44 s,
     pr_traffic_class = rd8 45 s, pr_reversible = rd8 46 s, pr_numb_path = rd8 47 s,
     pr_pkey = rd16 48 s, pr_qos_class = rd16 50 s, pr_sl = rd8 52 s, pr_mtu_selector = rd8 53 s,
     pr_mtu = rd8 54 s, pr_rate_selector = rd8 55 s, pr_rate = rd8 56 s,
     pr_packet_life_time_selector = rd8 57 s, pr_packet_life_time = rd8 58 s, pr_preference = rd8 59 s,
     pr_un = take 16 (drop 60 s), rec_type = t\<rparr>"

definition put :: "nat \<Rightarrow> block \<Rightarrow> block \<Rightarrow> block" where
  "put off bs m = take off m @ bs @ drop (off + length bs) m"

definition ib_dlid :: "sa_path_rec \<Rightarrow> u16" where "ib_dlid r = rd16 0 (pr_un r)"
definition ib_slid :: "sa_path_rec \<Rightarrow> u16" where "ib_slid r = rd16 2 (pr_un r)"
definition ib_raw_traffic :: "sa_path_rec \<Rightarrow> u8" where "ib_raw_traffic r = rd8 4 (pr_un r)"
definition opa_dlid :: "sa_path_rec \<Rightarrow> u32" where "opa_dlid r = rd32 0 (pr_un r)"
definition opa_slid :: "sa_path_rec \<Rightarrow> u32" where "opa_slid r = rd32 4 (pr_un r)"
definition opa_raw_traffic :: "sa_path_rec \<Rightarrow> u8" where "opa_raw_traffic r = rd8 8 (pr_un r)"

definition set_un :: "nat \<Rightarrow> block \<Rightarrow> sa_path_rec \<Rightarrow> sa_path_rec" where
  "set_un off bs r = r\<lparr>pr_un := put off bs (pr_un r)\<rparr>"

definition set_ib_dlid :: "u16 \<Rightarrow> sa_path_rec \<Rightarrow> sa_path_rec" where "set_ib_dlid x = set_un 0 (be16 x)"
definition set_ib_slid :: "u16 \<Rightarrow> sa_path_rec \<Rightarrow> sa_path_rec" where "set_ib_slid x = set_un 2 (be16 x)"
definition set_ib_raw_traffic :: "u8 \<Rightarrow> sa_path_rec \<Rightarrow> sa_path_rec" where
  "set_ib_raw_traffic x = set_un 4 [x]"
definition set_opa_dlid :: "u32 \<Rightarrow> sa_path_rec \<Rightarrow> sa_path_rec" where "set_opa_dlid x = set_un 0 (be32 x)"
definition set_opa_slid :: "u32 \<Rightarrow> sa_path_rec \<Rightarrow> sa_path_rec" where "set_opa_slid x = set_un 4 (be32 x)"
definition set_opa_raw_traffic :: "u8 \<Rightarrow> sa_path_rec \<Rightarrow> sa_path_rec" where
  "set_opa_raw_traffic x = set_un 8 [x]"

subsection \<open>Accessors that dispatch on the record type\<close>

definition sa_conv_pathrec_to_gid_type :: "sa_path_rec \<Rightarrow> nat" where
  "sa_conv_pathrec_to_gid_type r = (case rec_type r of
     SA_PATH_REC_TYPE_ROCE_V1 \<Rightarrow> IB_GID_TYPE_ROCE
   | SA_PATH_REC_TYPE_ROCE_V2 \<Rightarrow> IB_GID_TYPE_ROCE_UDP_ENCAP
   | _ \<Rightarrow> IB_GID_TYPE_IB)"

definition sa_conv_gid_to_pathrec_type :: "nat \<Rightarrow> sa_path_rec_type" where
  "sa_conv_gid_to_pathrec_type t =
     (if t = IB_GID_TYPE_ROCE then SA_PATH_REC_TYPE_ROCE_V1
      else if t = IB_GID_TYPE_ROCE_UDP_ENCAP then SA_PATH_REC_TYPE_ROCE_V2
      else SA_PATH_REC_TYPE_IB)"

definition sa_path_is_roce :: "sa_path_rec \<Rightarrow> bool" where
  "sa_path_is_roce r \<longleftrightarrow> rec_type r = SA_PATH_REC_TYPE_ROCE_V1 \<or> rec_type r = SA_PATH_REC_TYPE_ROCE_V2"

definition sa_path_is_opa :: "sa_path_rec \<Rightarrow> bool" where
  "sa_path_is_opa r \<longleftrightarrow> rec_type r = SA_PATH_REC_TYPE_OPA"

definition sa_path_set_slid :: "u32 \<Rightarrow> sa_path_rec \<Rightarrow> sa_path_rec" where
  "sa_path_set_slid slid r =
     (if rec_type r = SA_PATH_REC_TYPE_IB then set_ib_slid (ucast slid) r
      else if rec_type r = SA_PATH_REC_TYPE_OPA then set_opa_slid slid r else r)"

definition sa_path_set_dlid :: "u32 \<Rightarrow> sa_path_rec \<Rightarrow> sa_path_rec" where
  "sa_path_set_dlid dlid r =
     (if rec_type r = SA_PATH_REC_TYPE_IB then set_ib_dlid (ucast dlid) r
      else if rec_type r = SA_PATH_REC_TYPE_OPA then set_opa_dlid dlid r else r)"

definition sa_path_set_raw_traffic :: "u8 \<Rightarrow> sa_path_rec \<Rightarrow> sa_path_rec" where
  "sa_path_set_raw_traffic x r =
     (if rec_type r = SA_PATH_REC_TYPE_IB then set_ib_raw_traffic x r
      else if rec_type r = SA_PATH_REC_TYPE_OPA then set_opa_raw_traffic x r else r)"

definition sa_path_get_slid :: "sa_path_rec \<Rightarrow> u32" where
  "sa_path_get_slid r = (if rec_type r = SA_PATH_REC_TYPE_IB then ucast (ib_slid r)
     else if rec_type r = SA_PATH_REC_TYPE_OPA then opa_slid r else 0)"

definition sa_path_get_dlid :: "sa_path_rec \<Rightarrow> u32" where
  "sa_path_get_dlid r = (if rec_type r = SA_PATH_REC_TYPE_IB then ucast (ib_dlid r)
     else if rec_type r = SA_PATH_REC_TYPE_OPA then opa_dlid r else 0)"

definition sa_path_get_raw_traffic :: "sa_path_rec \<Rightarrow> u8" where
  "sa_path_get_raw_traffic r = (if rec_type r = SA_PATH_REC_TYPE_IB then ib_raw_traffic r
     else if rec_type r = SA_PATH_REC_TYPE_OPA then opa_raw_traffic r else 0)"

text \<open>The RoCE part is \<^verbatim>\<open>bool\<close>, six bytes of MAC address, padding to 8, and the UDP source port.\<close>

definition sa_path_set_dmac :: "block \<Rightarrow> sa_path_rec \<Rightarrow> sa_path_rec" where
  "sa_path_set_dmac dmac r = (if sa_path_is_roce r then set_un 1 (take 6 dmac) r else r)"

definition sa_path_set_dmac_zero :: "sa_path_rec \<Rightarrow> sa_path_rec" where
  "sa_path_set_dmac_zero r = (if sa_path_is_roce r then set_un 1 (replicate 6 0) r else r)"

definition sa_path_get_dmac :: "sa_path_rec \<Rightarrow> block option" where
  "sa_path_get_dmac r = (if sa_path_is_roce r then Some (take 6 (drop 1 (pr_un r))) else None)"

definition sa_path_set_udp_sport :: "u16 \<Rightarrow> sa_path_rec \<Rightarrow> sa_path_rec" where
  "sa_path_set_udp_sport x = set_un 8 (be16 x)"

definition sa_path_get_udp_sport :: "sa_path_rec \<Rightarrow> u16" where
  "sa_path_get_udp_sport r = rd16 8 (pr_un r)"

subsection \<open>Wire format\<close>

definition ib_sa_pack_path :: "sa_path_rec \<Rightarrow> block \<Rightarrow> block option" where
  "ib_sa_pack_path r attribute = ib_pack path_rec_table (path_mem r) attribute"

definition ib_sa_unpack_path :: "block \<Rightarrow> sa_path_rec \<Rightarrow> sa_path_rec option" where
  "ib_sa_unpack_path attribute r =
     map_option (mem_path (rec_type r)) (ib_unpack path_rec_table attribute (path_mem r))"

subsection \<open>InfiniBand and Omni-Path\<close>

definition OPA_SPECIAL_OUI :: u64 where "OPA_SPECIAL_OUI = 0x00066A"
definition IB_MULTICAST_LID_BASE :: nat where "IB_MULTICAST_LID_BASE = 0xC000"

definition OPA_MAKE_ID :: "u32 \<Rightarrow> u64" where
  "OPA_MAKE_ID x = push_bit 40 OPA_SPECIAL_OUI OR ucast x"

text \<open>A GID is eight bytes of subnet prefix and eight of interface identifier.\<close>

definition gid_prefix :: "block \<Rightarrow> block" where "gid_prefix g = take 8 g"
definition gid_interface_id :: "block \<Rightarrow> u64" where "gid_interface_id g = be_val (take 8 (drop 8 g))"
definition set_gid_prefix :: "block \<Rightarrow> block \<Rightarrow> block" where "set_gid_prefix p g = put 0 p g"
definition set_gid_interface_id :: "u64 \<Rightarrow> block \<Rightarrow> block" where
  "set_gid_interface_id x g = put 8 (be_bytes 8 x) g"

definition ib_is_opa_gid :: "block \<Rightarrow> bool" where
  "ib_is_opa_gid g \<longleftrightarrow> drop_bit 40 (gid_interface_id g) = OPA_SPECIAL_OUI"

definition opa_get_lid_from_gid :: "block \<Rightarrow> u32" where
  "opa_get_lid_from_gid g = ucast (gid_interface_id g AND 0xFFFFFFFF)"

definition opa_is_extended_lid :: "u32 \<Rightarrow> u32 \<Rightarrow> bool" where
  "opa_is_extended_lid dlid slid \<longleftrightarrow>
     IB_MULTICAST_LID_BASE \<le> unat dlid \<or> IB_MULTICAST_LID_BASE \<le> unat slid"

text \<open>
  The second assignment to the destination prefix is the source's: the source GID keeps its
  own prefix.
\<close>

definition path_conv_opa_to_ib :: "sa_path_rec \<Rightarrow> sa_path_rec \<Rightarrow> sa_path_rec" where
  "path_conv_opa_to_ib ib opa =
     (let r = (if IB_MULTICAST_LID_BASE \<le> unat (opa_dlid opa) \<or> IB_MULTICAST_LID_BASE \<le> unat (opa_slid opa)
        then let r = ib\<lparr>pr_dgid := set_gid_interface_id (OPA_MAKE_ID (opa_dlid opa)) (pr_dgid ib)\<rparr>;
                 r = r\<lparr>pr_dgid := set_gid_prefix (gid_prefix (pr_dgid opa)) (pr_dgid r)\<rparr>;
                 r = r\<lparr>pr_sgid := set_gid_interface_id (OPA_MAKE_ID (opa_slid opa)) (pr_sgid r)\<rparr>;
                 r = r\<lparr>pr_dgid := set_gid_prefix (gid_prefix (pr_dgid opa)) (pr_dgid r)\<rparr>
             in set_ib_slid 0 (set_ib_dlid 0 r)
        else set_ib_slid (ucast (opa_slid opa)) (set_ib_dlid (ucast (opa_dlid opa)) ib))
      in set_ib_raw_traffic (opa_raw_traffic opa) (r\<lparr>pr_service_id := pr_service_id opa\<rparr>))"

definition path_conv_ib_to_opa :: "sa_path_rec \<Rightarrow> sa_path_rec \<Rightarrow> sa_path_rec" where
  "path_conv_ib_to_opa opa ib =
     (let (slid, dlid) = (if ib_is_opa_gid (pr_sgid ib) \<or> ib_is_opa_gid (pr_dgid ib)
        then (opa_get_lid_from_gid (pr_sgid ib), opa_get_lid_from_gid (pr_dgid ib))
        else (ucast (ib_slid ib), ucast (ib_dlid ib)));
        r = set_opa_dlid dlid (set_opa_slid slid opa);
        r = r\<lparr>pr_service_id := pr_service_id ib\<rparr>
      in set_opa_raw_traffic (ib_raw_traffic ib) r)"

definition sa_convert_path_opa_to_ib :: "sa_path_rec \<Rightarrow> sa_path_rec \<Rightarrow> sa_path_rec" where
  "sa_convert_path_opa_to_ib dest src =
     (if rec_type src \<noteq> SA_PATH_REC_TYPE_OPA then dest
      else path_conv_opa_to_ib (src\<lparr>rec_type := SA_PATH_REC_TYPE_IB\<rparr>) src)"

definition sa_convert_path_ib_to_opa :: "sa_path_rec \<Rightarrow> sa_path_rec \<Rightarrow> sa_path_rec" where
  "sa_convert_path_ib_to_opa dest src =
     (if rec_type src \<noteq> SA_PATH_REC_TYPE_IB then dest
      else path_conv_ib_to_opa (src\<lparr>rec_type := SA_PATH_REC_TYPE_OPA\<rparr>) src)"

section \<open>Laws\<close>

definition path_fits :: "sa_path_rec \<Rightarrow> bool" where
  "path_fits r \<longleftrightarrow> ib_raw_traffic r < 2 \<and> pr_flow_label r < 2 ^ 20 \<and> pr_reversible r < 2 \<and>
     pr_numb_path r < 128 \<and> pr_qos_class r < 4096 \<and> pr_sl r < 16 \<and> pr_mtu_selector r < 4 \<and>
     pr_mtu r < 64 \<and> pr_rate_selector r < 4 \<and> pr_rate r < 64 \<and>
     pr_packet_life_time_selector r < 4 \<and> pr_packet_life_time r < 64"

lemma be_val_be64 [simp]: "be_val (be_bytes 8 v) = v"
  by (rule bit_word_eqI) (auto simp: bit_simps dest: bit_imp_le_length)

lemma path_mem_length [simp]: "path_wf r \<Longrightarrow> length (path_mem r) = 76"
  by (simp add: path_mem_def path_wf_def)

lemma path_mem_slots:
  assumes "path_wf r"
  shows "map (\<lambda>f. slot f (path_mem r)) path_rec_table =
    [be_bytes 8 (pr_service_id r), pr_dgid r, pr_sgid r, take 2 (pr_un r), take 2 (drop 2 (pr_un r)),
     take 1 (drop 4 (pr_un r)), [], be32 (pr_flow_label r), [pr_hop_limit r], [pr_traffic_class r],
     [pr_reversible r], [pr_numb_path r], be16 (pr_pkey r), be16 (pr_qos_class r), [pr_sl r],
     [pr_mtu_selector r], [pr_mtu r], [pr_rate_selector r], [pr_rate r],
     [pr_packet_life_time_selector r], [pr_packet_life_time r], [pr_preference r], []]"
  using assms by (simp add: path_rec_table_def slot_def path_mem_def path_wf_def)

lemma path_slots_fit:
  assumes "path_wf r" "path_fits r"
  shows "\<forall>f \<in> set path_rec_table. slot_fits f (path_mem r)"
proof -
  have "take (Suc 0) (drop 4 (pr_un r)) = [pr_un r ! 4]"
    using assms(1) by (simp add: path_wf_def hd_drop_conv_nth take_Suc)
  with assms(2) show ?thesis
    using path_mem_slots [OF assms(1)]
    by (simp add: path_rec_table_def slot_fits_def path_fits_def ib_raw_traffic_def rd_defs
      word_less_nat_alt del: be_val_be_bytes)
qed

text \<open>What the InfiniBand wire format carries of a path record.\<close>

definition path_view :: "sa_path_rec \<Rightarrow> sa_path_rec" where
  "path_view r = r\<lparr>pr_un := take 5 (pr_un r), rec_type := SA_PATH_REC_TYPE_IB\<rparr>"

lemma take_5_split: "take 5 xs = take 2 xs @ take 2 (drop 2 xs) @ take 1 (drop 4 xs)"
  using take_add [of 2 3 xs] take_add [of 2 1 "drop 2 xs"] by simp

lemma mem_path_slots:
  assumes "\<forall>f \<in> set path_rec_table. slot f s = slot f (path_mem r)" "path_wf r"
  shows "path_view (mem_path t s) = path_view r"
proof -
  have "map (\<lambda>f. slot f s) path_rec_table = map (\<lambda>f. slot f (path_mem r)) path_rec_table"
    using assms(1) by simp
  note slots = this [unfolded path_mem_slots [OF assms(2)], unfolded path_rec_table_def slot_def, simplified]
  have un: "take 5 (drop 60 s) = take 5 (pr_un r)"
    unfolding take_5_split [of "pr_un r"] take_5_split [of "drop 60 s"] using slots by simp
  show ?thesis
    using slots un by (simp add: path_view_def mem_path_def rd_defs del: be_val_be_bytes)
qed

text \<open>
  A path record whose values fit their fields is restored by packing it into a MAD attribute
  and unpacking the attribute: everything the InfiniBand format carries is equal, and the
  receiving structure keeps its record type.
\<close>

theorem ib_sa_path_roundtrip:
  assumes "path_wf r" and "path_fits r" and "path_wf r0" and "64 \<le> length attribute"
  shows "\<exists>w r'. ib_sa_pack_path r attribute = Some w \<and> ib_sa_unpack_path w r0 = Some r' \<and>
    path_view r' = path_view r \<and> rec_type r' = rec_type r0"
proof -
  obtain w s' where "ib_pack path_rec_table (path_mem r) attribute = Some w"
      "ib_unpack path_rec_table w (path_mem r0) = Some s'"
      "\<forall>f \<in> set path_rec_table. slot f s' = slot f (path_mem r)"
    using path.roundtrip [OF assms(4), of "path_mem r" "path_mem r0"] path_slots_fit [OF assms(1,2)]
      assms(1,3) by auto
  then show ?thesis
    using mem_path_slots [OF _ assms(1)]
    by (auto simp: ib_sa_pack_path_def ib_sa_unpack_path_def) (simp add: mem_path_def)
qed

definition sample_path :: sa_path_rec where
  "sample_path = \<lparr>pr_dgid = replicate 15 0xfe @ [1], pr_sgid = replicate 15 0xfe @ [2],
     pr_service_id = 0x1122334455667788, pr_flow_label = 0xabcde, pr_hop_limit = 64, pr_traffic_class = 3,
     pr_reversible = 1, pr_numb_path = 127, pr_pkey = 0xffff, pr_qos_class = 4095, pr_sl = 15,
     pr_mtu_selector = 2, pr_mtu = 5, pr_rate_selector = 2, pr_rate = 63,
     pr_packet_life_time_selector = 2, pr_packet_life_time = 20, pr_preference = 1,
     pr_un = be16 0x1234 @ be16 0x5678 @ [1] @ replicate 11 0, rec_type = SA_PATH_REC_TYPE_IB\<rparr>"

theorem ib_sa_path_roundtrip_witness:
  "\<exists>w r'. ib_sa_pack_path sample_path (replicate 64 0) = Some w \<and>
     ib_sa_unpack_path w sample_path = Some r' \<and> path_view r' = path_view sample_path \<and>
     rec_type r' = SA_PATH_REC_TYPE_IB"
proof -
  have "path_wf sample_path" "path_fits sample_path" "rec_type sample_path = SA_PATH_REC_TYPE_IB"
    by code_simp+
  with ib_sa_path_roundtrip [of sample_path sample_path "replicate 64 0"] show ?thesis by simp
qed

subsection \<open>Union members\<close>

lemma rd_put:
  "off + 2 \<le> length m \<Longrightarrow> rd16 off (put off (be16 x) m) = x"
  "off + 4 \<le> length m \<Longrightarrow> rd32 off (put off (be32 y) m) = y"
  "off + 1 \<le> length m \<Longrightarrow> rd8 off (put off [z] m) = z"
  by (simp_all add: rd_defs put_def del: be_val_be_bytes)

lemma take_drop_put:
  assumes "off + length bs \<le> length m" "i + n \<le> off \<or> off + length bs \<le> i"
  shows "take n (drop i (put off bs m)) = take n (drop i m)"
  using assms by (auto simp: put_def drop_take min_def not_le)

lemma put_length [simp]: "off + length bs \<le> length m \<Longrightarrow> length (put off bs m) = length m"
  by (simp add: put_def)

lemmas un_defs = ib_dlid_def ib_slid_def ib_raw_traffic_def opa_dlid_def opa_slid_def
  opa_raw_traffic_def set_ib_dlid_def set_ib_slid_def set_ib_raw_traffic_def set_opa_dlid_def
  set_opa_slid_def set_opa_raw_traffic_def set_un_def

lemma ib_members:
  assumes "length (pr_un r) = 16"
  shows "ib_dlid (set_ib_dlid x r) = x" "ib_slid (set_ib_slid x r) = x"
    "ib_raw_traffic (set_ib_raw_traffic z r) = z"
    "ib_dlid (set_ib_slid x r) = ib_dlid r" "ib_slid (set_ib_dlid x r) = ib_slid r"
    "ib_dlid (set_ib_raw_traffic z r) = ib_dlid r" "ib_slid (set_ib_raw_traffic z r) = ib_slid r"
  using assms take_drop_put [of 0 "be16 x" "pr_un r" 2 2] take_drop_put [of 2 "be16 x" "pr_un r" 0 2]
    take_drop_put [of 4 "[z]" "pr_un r" 0 2] take_drop_put [of 4 "[z]" "pr_un r" 2 2]
  by (simp_all add: un_defs rd_put) (simp_all add: rd_defs)

lemma opa_members:
  assumes "length (pr_un r) = 16"
  shows "opa_dlid (set_opa_dlid x r) = x" "opa_slid (set_opa_slid x r) = x"
    "opa_raw_traffic (set_opa_raw_traffic z r) = z"
    "opa_dlid (set_opa_slid x r) = opa_dlid r" "opa_slid (set_opa_dlid x r) = opa_slid r"
    "opa_dlid (set_opa_raw_traffic z r) = opa_dlid r" "opa_slid (set_opa_raw_traffic z r) = opa_slid r"
  using assms take_drop_put [of 0 "be32 x" "pr_un r" 4 4] take_drop_put [of 4 "be32 x" "pr_un r" 0 4]
    take_drop_put [of 8 "[z]" "pr_un r" 0 4] take_drop_put [of 8 "[z]" "pr_un r" 4 4]
  by (simp_all add: un_defs rd_put) (simp_all add: rd_defs)

subsection \<open>Extended LIDs in GIDs\<close>

lemma OPA_MAKE_ID_parts:
  "drop_bit 40 (OPA_MAKE_ID x) = OPA_SPECIAL_OUI" "ucast (OPA_MAKE_ID x AND 0xFFFFFFFF) = x"
proof -
  have oui: "bit OPA_SPECIAL_OUI n \<Longrightarrow> n < 11" for n
    using bit_unat_less [of OPA_SPECIAL_OUI 11 n] by (simp add: OPA_SPECIAL_OUI_def)
  show "drop_bit 40 (OPA_MAKE_ID x) = OPA_SPECIAL_OUI"
    by (rule bit_word_eqI) (auto simp: OPA_MAKE_ID_def bit_simps dest: oui bit_imp_le_length)
  have m: "(0xFFFFFFFF :: u64) = mask 32" by (simp add: mask_eq_exp_minus_1)
  show "ucast (OPA_MAKE_ID x AND 0xFFFFFFFF) = x"
    unfolding m by (rule bit_word_eqI) (auto simp: OPA_MAKE_ID_def bit_simps dest: bit_imp_le_length)
qed

lemma gid_set:
  "length g = 16 \<Longrightarrow> gid_interface_id (set_gid_interface_id x g) = x"
  "length g = 16 \<Longrightarrow> length (set_gid_interface_id x g) = 16"
  "length g = 16 \<Longrightarrow> length p = 8 \<Longrightarrow> gid_interface_id (set_gid_prefix p g) = gid_interface_id g"
  "length g = 16 \<Longrightarrow> length p = 8 \<Longrightarrow> length (set_gid_prefix p g) = 16"
  by (simp_all add: gid_interface_id_def set_gid_interface_id_def set_gid_prefix_def put_def
    del: be_val_be_bytes)

lemma un_service [simp]:
  "ib_dlid (r\<lparr>pr_service_id := v\<rparr>) = ib_dlid r" "ib_slid (r\<lparr>pr_service_id := v\<rparr>) = ib_slid r"
  "opa_dlid (r\<lparr>pr_service_id := v\<rparr>) = opa_dlid r" "opa_slid (r\<lparr>pr_service_id := v\<rparr>) = opa_slid r"
  by (simp_all add: un_defs)

lemma ucast_lid [simp]: "unat x < 0xC000 \<Longrightarrow> ucast (ucast (x :: u32) :: u16) = x"
  by (rule bit_word_eqI) (auto simp: bit_simps dest: bit_unat_less [of x 16, rotated])

lemma set_un_simps [simp]:
  "pr_dgid (set_un k bs r) = pr_dgid r" "pr_sgid (set_un k bs r) = pr_sgid r"
  "pr_service_id (set_un k bs r) = pr_service_id r" "rec_type (set_un k bs r) = rec_type r"
  by (simp_all add: set_un_def)

lemma un_length:
  "length (pr_un r) = 16 \<Longrightarrow> length (pr_un (set_ib_dlid x r)) = 16"
  "length (pr_un r) = 16 \<Longrightarrow> length (pr_un (set_ib_slid x r)) = 16"
  "length (pr_un r) = 16 \<Longrightarrow> length (pr_un (set_ib_raw_traffic z r)) = 16"
  "length (pr_un r) = 16 \<Longrightarrow> length (pr_un (set_opa_dlid y r)) = 16"
  "length (pr_un r) = 16 \<Longrightarrow> length (pr_un (set_opa_slid y r)) = 16"
  by (simp_all add: un_defs)

lemma un_frame [simp]:
  "pr_dgid (set_ib_dlid x r) = pr_dgid r" "pr_dgid (set_ib_slid x r) = pr_dgid r"
  "pr_dgid (set_ib_raw_traffic z r) = pr_dgid r" "pr_sgid (set_ib_dlid x r) = pr_sgid r"
  "pr_sgid (set_ib_slid x r) = pr_sgid r" "pr_sgid (set_ib_raw_traffic z r) = pr_sgid r"
  "pr_service_id (set_ib_raw_traffic z r) = pr_service_id r"
  "pr_service_id (set_opa_raw_traffic z r) = pr_service_id r"
  "rec_type (set_ib_dlid x r) = rec_type r" "rec_type (set_ib_slid x r) = rec_type r"
  "rec_type (set_ib_raw_traffic z r) = rec_type r" "rec_type (set_opa_dlid y r) = rec_type r"
  "rec_type (set_opa_slid y r) = rec_type r" "rec_type (set_opa_raw_traffic z r) = rec_type r"
  by (simp_all add: un_defs)

lemma conv_to_ib:
  assumes "path_wf r" "rec_type r = SA_PATH_REC_TYPE_OPA"
    "ib = sa_convert_path_opa_to_ib d r"
  shows "rec_type ib = SA_PATH_REC_TYPE_IB" "pr_service_id ib = pr_service_id r"
    "ib_raw_traffic ib = opa_raw_traffic r" "length (pr_un ib) = 16"
    "opa_is_extended_lid (opa_dlid r) (opa_slid r) \<Longrightarrow>
       gid_interface_id (pr_dgid ib) = OPA_MAKE_ID (opa_dlid r) \<and>
       gid_interface_id (pr_sgid ib) = OPA_MAKE_ID (opa_slid r)"
    "\<not> opa_is_extended_lid (opa_dlid r) (opa_slid r) \<Longrightarrow>
       ib_dlid ib = ucast (opa_dlid r) \<and> ib_slid ib = ucast (opa_slid r) \<and>
       pr_dgid ib = pr_dgid r \<and> pr_sgid ib = pr_sgid r"
  using assms
  by (simp_all add: sa_convert_path_opa_to_ib_def path_conv_opa_to_ib_def opa_is_extended_lid_def
    Let_def path_wf_def ib_members un_length gid_set gid_prefix_def)

text \<open>
  Converting an Omni-Path path record to InfiniBand and back preserves both 32-bit LIDs, the service
  id and the raw-traffic bit, as long as either LID is extended (it then travels in the GID)
  or neither GID is already one of the special GIDs that carry a LID.
\<close>

theorem sa_convert_path_lids:
  assumes "path_wf r" and "rec_type r = SA_PATH_REC_TYPE_OPA"
    and "opa_is_extended_lid (opa_dlid r) (opa_slid r) \<or>
      \<not> ib_is_opa_gid (pr_sgid r) \<and> \<not> ib_is_opa_gid (pr_dgid r)"
    and "ib = sa_convert_path_opa_to_ib d r" and "opa = sa_convert_path_ib_to_opa d' ib"
  shows "sa_path_get_dlid opa = sa_path_get_dlid r \<and> sa_path_get_slid opa = sa_path_get_slid r \<and>
    pr_service_id opa = pr_service_id r \<and> sa_path_get_raw_traffic opa = sa_path_get_raw_traffic r \<and>
    rec_type ib = SA_PATH_REC_TYPE_IB \<and> rec_type opa = SA_PATH_REC_TYPE_OPA"
proof -
  note ib = conv_to_ib [OF assms(1,2,4)]
  have lids: "(if ib_is_opa_gid (pr_sgid ib) \<or> ib_is_opa_gid (pr_dgid ib)
        then (opa_get_lid_from_gid (pr_sgid ib), opa_get_lid_from_gid (pr_dgid ib))
        else (ucast (ib_slid ib), ucast (ib_dlid ib))) = (opa_slid r, opa_dlid r)"
  proof (cases "opa_is_extended_lid (opa_dlid r) (opa_slid r)")
    case True
    then show ?thesis using ib(5) by (simp add: ib_is_opa_gid_def opa_get_lid_from_gid_def OPA_MAKE_ID_parts)
  next
    case False
    then have "unat (opa_dlid r) < 0xC000" "unat (opa_slid r) < 0xC000"
      by (simp_all add: opa_is_extended_lid_def IB_MULTICAST_LID_BASE_def)
    then show ?thesis using ib(6) [OF False] assms(3) False by simp
  qed
  have "opa = set_opa_raw_traffic (ib_raw_traffic ib) ((set_opa_dlid (opa_dlid r) (set_opa_slid (opa_slid r)
      (ib\<lparr>rec_type := SA_PATH_REC_TYPE_OPA\<rparr>)))\<lparr>pr_service_id := pr_service_id ib\<rparr>)"
    unfolding assms(5) sa_convert_path_ib_to_opa_def path_conv_ib_to_opa_def
    using ib(1) by (simp add: lids Let_def)
  then show ?thesis
    using ib(1-4) assms(2)
    by (simp add: sa_path_get_dlid_def sa_path_get_slid_def sa_path_get_raw_traffic_def opa_members
      un_length)
qed

theorem sa_convert_path_lids_witness:
  "sa_path_get_dlid (sa_convert_path_ib_to_opa sample_path (sa_convert_path_opa_to_ib sample_path
     (sample_path\<lparr>rec_type := SA_PATH_REC_TYPE_OPA\<rparr>))) = 0x12345678"
proof -
  let ?r = "sample_path\<lparr>rec_type := SA_PATH_REC_TYPE_OPA\<rparr>"
  have 1: "path_wf ?r" and 2: "rec_type ?r = SA_PATH_REC_TYPE_OPA"
    and 4: "sa_path_get_dlid ?r = 0x12345678" "opa_dlid ?r = 0x12345678"
    by code_simp+
  then have 3: "opa_is_extended_lid (opa_dlid ?r) (opa_slid ?r) \<or>
      \<not> ib_is_opa_gid (pr_sgid ?r) \<and> \<not> ib_is_opa_gid (pr_dgid ?r)"
    by (simp add: opa_is_extended_lid_def IB_MULTICAST_LID_BASE_def)
  from sa_convert_path_lids [OF 1 2 3 refl refl] 4 show ?thesis by simp
qed

text \<open>
  Converting an extended-LID record to InfiniBand takes the subnet prefix of the destination GID
  from the Omni-Path record, but leaves the source GID with the prefix it had in the target
  record: the source assigns the destination prefix twice.
\<close>

theorem path_conv_opa_to_ib_prefixes:
  assumes "path_wf ib" and "path_wf opa" and "opa_is_extended_lid (opa_dlid opa) (opa_slid opa)"
  shows "gid_prefix (pr_dgid (path_conv_opa_to_ib ib opa)) = gid_prefix (pr_dgid opa) \<and>
    gid_prefix (pr_sgid (path_conv_opa_to_ib ib opa)) = gid_prefix (pr_sgid ib)"
  using assms by (simp add: path_conv_opa_to_ib_def opa_is_extended_lid_def Let_def path_wf_def
    gid_prefix_def set_gid_prefix_def set_gid_interface_id_def put_def)

theorem path_conv_opa_to_ib_prefixes_witness:
  "gid_prefix (pr_sgid (path_conv_opa_to_ib (sample_path\<lparr>pr_sgid := replicate 16 7\<rparr>)
     (sample_path\<lparr>rec_type := SA_PATH_REC_TYPE_OPA\<rparr>))) = replicate 8 7"
proof -
  have 1: "path_wf (sample_path\<lparr>pr_sgid := replicate 16 7\<rparr>)"
    "path_wf (sample_path\<lparr>rec_type := SA_PATH_REC_TYPE_OPA\<rparr>)"
    and "opa_dlid (sample_path\<lparr>rec_type := SA_PATH_REC_TYPE_OPA\<rparr>) = 0x12345678"
    by code_simp+
  then have "opa_is_extended_lid (opa_dlid (sample_path\<lparr>rec_type := SA_PATH_REC_TYPE_OPA\<rparr>))
      (opa_slid (sample_path\<lparr>rec_type := SA_PATH_REC_TYPE_OPA\<rparr>))"
    by (simp add: opa_is_extended_lid_def IB_MULTICAST_LID_BASE_def)
  from path_conv_opa_to_ib_prefixes [OF 1 this] show ?thesis by (simp add: gid_prefix_def)
qed

subsection \<open>All record tables\<close>

text \<open>Table, wire size and structure size of every record the SA client sends or receives.\<close>

definition sa_records :: "(ib_field list \<times> nat \<times> nat) list" where
  "sa_records = [(path_rec_table, 64, 76), (opa_path_rec_table, 64, 76), (mcmember_rec_table, 52, 64),
     (service_rec_table, 176, 176), (ib_classport_info_rec_table, 72, 72),
     (opa_classport_info_rec_table, 80, 80), (guidinfo_rec_table, 72, 72)]"

text \<open>
  Every subnet-administration record survives the wire: a structure whose values fit their
  fields is restored, slot by slot, by unpacking what was packed.
\<close>

theorem sa_records_roundtrip:
  assumes "(desc, wl, sl) \<in> set sa_records" and "wl \<le> length buf" and "sl \<le> length s"
    and "sl \<le> length s0" and "\<forall>f \<in> set desc. slot_fits f s"
  shows "\<exists>w s'. ib_pack desc s buf = Some w \<and> ib_unpack desc w s0 = Some s' \<and>
    length s' = length s0 \<and> (\<forall>f \<in> set desc. slot f s' = slot f s)"
proof -
  have "wire_table desc wl sl"
    using assms(1) path.wire_table_axioms opa_path.wire_table_axioms mcmember.wire_table_axioms
      service.wire_table_axioms classport.wire_table_axioms opa_classport.wire_table_axioms
      guidinfo.wire_table_axioms
    by (auto simp: sa_records_def)
  from wire_table.roundtrip [OF this assms(2-4)] assms(5) show ?thesis by blast
qed

theorem sa_records_roundtrip_witness:
  "\<exists>w s'. ib_pack guidinfo_rec_table (replicate 72 5) (replicate 72 0) = Some w \<and>
     ib_unpack guidinfo_rec_table w (replicate 72 0) = Some s' \<and>
     slot (guidinfo_rec_table ! 4) s' = replicate 64 5"
proof -
  have 1: "(guidinfo_rec_table, 72, 72) \<in> set sa_records" by (simp add: sa_records_def)
  have 2: "\<forall>f \<in> set guidinfo_rec_table. slot_fits f (replicate 72 5)"
    by (simp add: guidinfo_rec_table_def slot_fits_def)
  have 3: "guidinfo_rec_table ! 4 \<in> set guidinfo_rec_table" 
    "slot (guidinfo_rec_table ! 4) (replicate 72 5) = replicate 64 5"
    by (simp_all add: guidinfo_rec_table_def slot_def)
  from sa_records_roundtrip [OF 1, of "replicate 72 0" "replicate 72 5" "replicate 72 0"] 2 3
  show ?thesis by force
qed

end
