(* ===== verification/QpState.thy ===== *)
theory QpState
  imports Prelude
begin

text \<open>
  The queue-pair state machine of the verbs layer: \<^verbatim>\<open>enum ib_qp_state\<close>, \<^verbatim>\<open>ib_qp_type\<close> and
  \<^verbatim>\<open>ib_qp_attr_mask\<close> of \<^verbatim>\<open>include/rdma/ib_verbs.h\<close>, the transition table \<^verbatim>\<open>qp_state_table\<close> and the check
  \<^verbatim>\<open>ib_modify_qp_is_ok\<close> of \<^verbatim>\<open>drivers/infiniband/core/verbs.c\<close>.  The life of a queue pair is the relation
  \<open>qp_life\<close>: accepted modify calls, interleaved with the transitions the device makes on its own.
\<close>

unbundle bit_operations_syntax

section \<open>States, types and attribute masks\<close>

datatype ib_qp_state =
    IB_QPS_RESET | IB_QPS_INIT | IB_QPS_RTR | IB_QPS_RTS | IB_QPS_SQD | IB_QPS_SQE | IB_QPS_ERR

datatype ib_qp_type =
    IB_QPT_SMI | IB_QPT_GSI | IB_QPT_RC | IB_QPT_UC | IB_QPT_UD | IB_QPT_RAW_IPV6
  | IB_QPT_RAW_ETHERTYPE | IB_QPT_RAW_PACKET | IB_QPT_XRC_INI | IB_QPT_XRC_TGT
  | IB_EXP_UD_RSS_TSS | IB_EXP_QPT_DC_INI | IB_QPT_DRIVER
  | IB_QPT_RESERVED1 | IB_QPT_RESERVED2 | IB_QPT_RESERVED3 | IB_QPT_RESERVED4 | IB_QPT_RESERVED5
  | IB_QPT_RESERVED6 | IB_QPT_RESERVED7 | IB_QPT_RESERVED8 | IB_QPT_RESERVED9 | IB_QPT_RESERVED10

definition IB_QP_STATE :: u32 where "IB_QP_STATE = 0x1"
definition IB_QP_CUR_STATE :: u32 where "IB_QP_CUR_STATE = 0x2"
definition IB_QP_EN_SQD_ASYNC_NOTIFY :: u32 where "IB_QP_EN_SQD_ASYNC_NOTIFY = 0x4"
definition IB_QP_ACCESS_FLAGS :: u32 where "IB_QP_ACCESS_FLAGS = 0x8"
definition IB_QP_PKEY_INDEX :: u32 where "IB_QP_PKEY_INDEX = 0x10"
definition IB_QP_PORT :: u32 where "IB_QP_PORT = 0x20"
definition IB_QP_QKEY :: u32 where "IB_QP_QKEY = 0x40"
definition IB_QP_AV :: u32 where "IB_QP_AV = 0x80"
definition IB_QP_PATH_MTU :: u32 where "IB_QP_PATH_MTU = 0x100"
definition IB_QP_TIMEOUT :: u32 where "IB_QP_TIMEOUT = 0x200"
definition IB_QP_RETRY_CNT :: u32 where "IB_QP_RETRY_CNT = 0x400"
definition IB_QP_RNR_RETRY :: u32 where "IB_QP_RNR_RETRY = 0x800"
definition IB_QP_RQ_PSN :: u32 where "IB_QP_RQ_PSN = 0x1000"
definition IB_QP_MAX_QP_RD_ATOMIC :: u32 where "IB_QP_MAX_QP_RD_ATOMIC = 0x2000"
definition IB_QP_ALT_PATH :: u32 where "IB_QP_ALT_PATH = 0x4000"
definition IB_QP_MIN_RNR_TIMER :: u32 where "IB_QP_MIN_RNR_TIMER = 0x8000"
definition IB_QP_SQ_PSN :: u32 where "IB_QP_SQ_PSN = 0x10000"
definition IB_QP_MAX_DEST_RD_ATOMIC :: u32 where "IB_QP_MAX_DEST_RD_ATOMIC = 0x20000"
definition IB_QP_PATH_MIG_STATE :: u32 where "IB_QP_PATH_MIG_STATE = 0x40000"
definition IB_QP_CAP :: u32 where "IB_QP_CAP = 0x80000"
definition IB_QP_DEST_QPN :: u32 where "IB_QP_DEST_QPN = 0x100000"
definition IB_QP_RESERVED1 :: u32 where "IB_QP_RESERVED1 = 0x200000"
definition IB_QP_RESERVED2 :: u32 where "IB_QP_RESERVED2 = 0x400000"
definition IB_QP_RESERVED3 :: u32 where "IB_QP_RESERVED3 = 0x800000"
definition IB_QP_OFFLOAD_TYPE :: u32 where "IB_QP_OFFLOAD_TYPE = 0x1000000"
definition IB_QP_RATE_LIMIT :: u32 where "IB_QP_RATE_LIMIT = 0x2000000"
definition IB_QP_RMPN_XRQN :: u32 where "IB_QP_RMPN_XRQN = 0x4000000"
definition IB_QP_GROUP_RSS :: u32 where "IB_QP_GROUP_RSS = 0x8000000"
definition IB_QP_DC_KEY :: u32 where "IB_QP_DC_KEY = 0x10000000"
definition IB_QP_FLOW_ENTROPY :: u32 where "IB_QP_FLOW_ENTROPY = 0x20000000"
definition IB_EXP_QP_OOO_RW_DATA_PLACEMENT :: u32 where "IB_EXP_QP_OOO_RW_DATA_PLACEMENT = 0x40000000"
definition IB_EXP_QP_RATE_LIMIT :: u32 where "IB_EXP_QP_RATE_LIMIT = 0x80000000"

lemmas qp_attr_masks =
  IB_QP_STATE_def IB_QP_CUR_STATE_def IB_QP_EN_SQD_ASYNC_NOTIFY_def IB_QP_ACCESS_FLAGS_def
  IB_QP_PKEY_INDEX_def IB_QP_PORT_def IB_QP_QKEY_def IB_QP_AV_def
  IB_QP_PATH_MTU_def IB_QP_TIMEOUT_def IB_QP_RETRY_CNT_def IB_QP_RNR_RETRY_def
  IB_QP_RQ_PSN_def IB_QP_MAX_QP_RD_ATOMIC_def IB_QP_ALT_PATH_def IB_QP_MIN_RNR_TIMER_def
  IB_QP_SQ_PSN_def IB_QP_MAX_DEST_RD_ATOMIC_def IB_QP_PATH_MIG_STATE_def IB_QP_CAP_def
  IB_QP_DEST_QPN_def IB_QP_RESERVED1_def IB_QP_RESERVED2_def IB_QP_RESERVED3_def
  IB_QP_OFFLOAD_TYPE_def IB_QP_RATE_LIMIT_def IB_QP_RMPN_XRQN_def IB_QP_GROUP_RSS_def
  IB_QP_DC_KEY_def IB_QP_FLOW_ENTROPY_def IB_EXP_QP_OOO_RW_DATA_PLACEMENT_def IB_EXP_QP_RATE_LIMIT_def

text \<open>The types below \<^verbatim>\<open>IB_QPT_MAX\<close>: the others are no index of the parameter arrays.\<close>

definition qpt_below_max :: "ib_qp_type \<Rightarrow> bool" where
  "qpt_below_max t \<longleftrightarrow> t \<notin> {IB_QPT_DRIVER, IB_QPT_RESERVED1, IB_QPT_RESERVED2, IB_QPT_RESERVED3,
     IB_QPT_RESERVED4, IB_QPT_RESERVED5, IB_QPT_RESERVED6, IB_QPT_RESERVED7, IB_QPT_RESERVED8,
     IB_QPT_RESERVED9, IB_QPT_RESERVED10}"

section \<open>The transition table\<close>

record qp_transition =
  valid :: bool
  req_param :: "ib_qp_type \<Rightarrow> u32"
  opt_param :: "ib_qp_type \<Rightarrow> u32"

text \<open>Entries the initialiser does not name are zero.\<close>

definition no_transition :: qp_transition where
  "no_transition = \<lparr>valid = False, req_param = (\<lambda>_. 0), opt_param = (\<lambda>_. 0)\<rparr>"

definition qp_row_RESET :: "ib_qp_state \<Rightarrow> qp_transition" where
  "qp_row_RESET nxt = (case nxt of
     IB_QPS_RESET \<Rightarrow> \<lparr>valid = True,
        req_param = (\<lambda>_. 0),
        opt_param = (\<lambda>_. 0)\<rparr>
   | IB_QPS_INIT \<Rightarrow> \<lparr>valid = True,
        req_param = (\<lambda>t. (case t of
            IB_QPT_UD \<Rightarrow> IB_QP_PKEY_INDEX OR IB_QP_PORT OR IB_QP_QKEY
          | IB_QPT_RAW_PACKET \<Rightarrow> IB_QP_PORT
          | IB_QPT_UC \<Rightarrow> IB_QP_PKEY_INDEX OR IB_QP_PORT OR IB_QP_ACCESS_FLAGS
          | IB_QPT_RC \<Rightarrow> IB_QP_PKEY_INDEX OR IB_QP_PORT OR IB_QP_ACCESS_FLAGS
          | IB_EXP_QPT_DC_INI \<Rightarrow> IB_QP_PKEY_INDEX OR IB_QP_PORT OR IB_QP_DC_KEY
          | IB_QPT_XRC_INI \<Rightarrow> IB_QP_PKEY_INDEX OR IB_QP_PORT OR IB_QP_ACCESS_FLAGS
          | IB_QPT_XRC_TGT \<Rightarrow> IB_QP_PKEY_INDEX OR IB_QP_PORT OR IB_QP_ACCESS_FLAGS
          | IB_QPT_SMI \<Rightarrow> IB_QP_PKEY_INDEX OR IB_QP_QKEY
          | IB_QPT_GSI \<Rightarrow> IB_QP_PKEY_INDEX OR IB_QP_QKEY
          | _ \<Rightarrow> 0)),
        opt_param = (\<lambda>t. (case t of
            IB_QPT_UD \<Rightarrow> IB_QP_GROUP_RSS OR IB_QP_FLOW_ENTROPY
          | IB_QPT_RAW_PACKET \<Rightarrow> IB_QP_GROUP_RSS
          | IB_QPT_RC \<Rightarrow> IB_QP_FLOW_ENTROPY
          | IB_QPT_UC \<Rightarrow> IB_QP_FLOW_ENTROPY
          | IB_QPT_XRC_INI \<Rightarrow> IB_QP_FLOW_ENTROPY
          | IB_QPT_XRC_TGT \<Rightarrow> IB_QP_FLOW_ENTROPY
          | _ \<Rightarrow> 0))\<rparr>
   | _ \<Rightarrow> no_transition)"

definition qp_row_INIT :: "ib_qp_state \<Rightarrow> qp_transition" where
  "qp_row_INIT nxt = (case nxt of
     IB_QPS_RESET \<Rightarrow> \<lparr>valid = True,
        req_param = (\<lambda>_. 0),
        opt_param = (\<lambda>_. 0)\<rparr>
   | IB_QPS_ERR \<Rightarrow> \<lparr>valid = True,
        req_param = (\<lambda>_. 0),
        opt_param = (\<lambda>_. 0)\<rparr>
   | IB_QPS_INIT \<Rightarrow> \<lparr>valid = True,
        req_param = (\<lambda>_. 0),
        opt_param = (\<lambda>t. (case t of
            IB_QPT_UD \<Rightarrow> IB_QP_PKEY_INDEX OR IB_QP_PORT OR IB_QP_QKEY
          | IB_QPT_UC \<Rightarrow> IB_QP_PKEY_INDEX OR IB_QP_PORT OR IB_QP_ACCESS_FLAGS
          | IB_QPT_RC \<Rightarrow> IB_QP_PKEY_INDEX OR IB_QP_PORT OR IB_QP_ACCESS_FLAGS
          | IB_EXP_QPT_DC_INI \<Rightarrow> IB_QP_PKEY_INDEX OR IB_QP_PORT OR IB_QP_DC_KEY
          | IB_QPT_XRC_INI \<Rightarrow> IB_QP_PKEY_INDEX OR IB_QP_PORT OR IB_QP_ACCESS_FLAGS
          | IB_QPT_XRC_TGT \<Rightarrow> IB_QP_PKEY_INDEX OR IB_QP_PORT OR IB_QP_ACCESS_FLAGS
          | IB_QPT_SMI \<Rightarrow> IB_QP_PKEY_INDEX OR IB_QP_QKEY
          | IB_QPT_GSI \<Rightarrow> IB_QP_PKEY_INDEX OR IB_QP_QKEY
          | _ \<Rightarrow> 0))\<rparr>
   | IB_QPS_RTR \<Rightarrow> \<lparr>valid = True,
        req_param = (\<lambda>t. (case t of
            IB_QPT_UC \<Rightarrow> IB_QP_AV OR IB_QP_PATH_MTU OR IB_QP_DEST_QPN OR IB_QP_RQ_PSN
          | IB_QPT_RC \<Rightarrow> IB_QP_AV OR IB_QP_PATH_MTU OR IB_QP_DEST_QPN OR IB_QP_RQ_PSN OR IB_QP_MAX_DEST_RD_ATOMIC OR IB_QP_MIN_RNR_TIMER
          | IB_EXP_QPT_DC_INI \<Rightarrow> IB_QP_AV OR IB_QP_PATH_MTU
          | IB_QPT_XRC_INI \<Rightarrow> IB_QP_AV OR IB_QP_PATH_MTU OR IB_QP_DEST_QPN OR IB_QP_RQ_PSN
          | IB_QPT_XRC_TGT \<Rightarrow> IB_QP_AV OR IB_QP_PATH_MTU OR IB_QP_DEST_QPN OR IB_QP_RQ_PSN OR IB_QP_MAX_DEST_RD_ATOMIC OR IB_QP_MIN_RNR_TIMER
          | _ \<Rightarrow> 0)),
        opt_param = (\<lambda>t. (case t of
            IB_QPT_UD \<Rightarrow> IB_QP_PKEY_INDEX OR IB_QP_QKEY
          | IB_QPT_UC \<Rightarrow> IB_QP_ALT_PATH OR IB_QP_ACCESS_FLAGS OR IB_QP_PKEY_INDEX
          | IB_QPT_RC \<Rightarrow> IB_QP_ALT_PATH OR IB_QP_ACCESS_FLAGS OR IB_QP_PKEY_INDEX OR IB_EXP_QP_OOO_RW_DATA_PLACEMENT
          | IB_EXP_QPT_DC_INI \<Rightarrow> IB_QP_PKEY_INDEX OR IB_QP_DC_KEY OR IB_EXP_QP_OOO_RW_DATA_PLACEMENT
          | IB_QPT_XRC_INI \<Rightarrow> IB_QP_ALT_PATH OR IB_QP_ACCESS_FLAGS OR IB_QP_PKEY_INDEX OR IB_EXP_QP_OOO_RW_DATA_PLACEMENT
          | IB_QPT_XRC_TGT \<Rightarrow> IB_QP_ALT_PATH OR IB_QP_ACCESS_FLAGS OR IB_QP_PKEY_INDEX OR IB_EXP_QP_OOO_RW_DATA_PLACEMENT
          | IB_QPT_SMI \<Rightarrow> IB_QP_PKEY_INDEX OR IB_QP_QKEY
          | IB_QPT_GSI \<Rightarrow> IB_QP_PKEY_INDEX OR IB_QP_QKEY
          | _ \<Rightarrow> 0))\<rparr>
   | _ \<Rightarrow> no_transition)"

definition qp_row_RTR :: "ib_qp_state \<Rightarrow> qp_transition" where
  "qp_row_RTR nxt = (case nxt of
     IB_QPS_RESET \<Rightarrow> \<lparr>valid = True,
        req_param = (\<lambda>_. 0),
        opt_param = (\<lambda>_. 0)\<rparr>
   | IB_QPS_ERR \<Rightarrow> \<lparr>valid = True,
        req_param = (\<lambda>_. 0),
        opt_param = (\<lambda>_. 0)\<rparr>
   | IB_QPS_RTS \<Rightarrow> \<lparr>valid = True,
        req_param = (\<lambda>t. (case t of
            IB_QPT_UD \<Rightarrow> IB_QP_SQ_PSN
          | IB_QPT_UC \<Rightarrow> IB_QP_SQ_PSN
          | IB_QPT_RC \<Rightarrow> IB_QP_TIMEOUT OR IB_QP_RETRY_CNT OR IB_QP_RNR_RETRY OR IB_QP_SQ_PSN OR IB_QP_MAX_QP_RD_ATOMIC
          | IB_EXP_QPT_DC_INI \<Rightarrow> IB_QP_TIMEOUT OR IB_QP_RETRY_CNT OR IB_QP_RNR_RETRY OR IB_QP_MAX_QP_RD_ATOMIC
          | IB_QPT_XRC_INI \<Rightarrow> IB_QP_TIMEOUT OR IB_QP_RETRY_CNT OR IB_QP_RNR_RETRY OR IB_QP_SQ_PSN OR IB_QP_MAX_QP_RD_ATOMIC
          | IB_QPT_XRC_TGT \<Rightarrow> IB_QP_TIMEOUT OR IB_QP_SQ_PSN
          | IB_QPT_SMI \<Rightarrow> IB_QP_SQ_PSN
          | IB_QPT_GSI \<Rightarrow> IB_QP_SQ_PSN
          | _ \<Rightarrow> 0)),
        opt_param = (\<lambda>t. (case t of
            IB_QPT_UD \<Rightarrow> IB_QP_CUR_STATE OR IB_QP_QKEY
          | IB_QPT_UC \<Rightarrow> IB_QP_CUR_STATE OR IB_QP_ALT_PATH OR IB_QP_ACCESS_FLAGS OR IB_QP_PATH_MIG_STATE
          | IB_QPT_RC \<Rightarrow> IB_QP_CUR_STATE OR IB_QP_ALT_PATH OR IB_QP_ACCESS_FLAGS OR IB_QP_MIN_RNR_TIMER OR IB_QP_PATH_MIG_STATE OR IB_QP_OFFLOAD_TYPE
          | IB_EXP_QPT_DC_INI \<Rightarrow> IB_QP_CUR_STATE OR IB_QP_ALT_PATH OR IB_QP_MIN_RNR_TIMER OR IB_QP_PATH_MIG_STATE
          | IB_QPT_XRC_INI \<Rightarrow> IB_QP_CUR_STATE OR IB_QP_ALT_PATH OR IB_QP_ACCESS_FLAGS OR IB_QP_PATH_MIG_STATE
          | IB_QPT_XRC_TGT \<Rightarrow> IB_QP_CUR_STATE OR IB_QP_ALT_PATH OR IB_QP_ACCESS_FLAGS OR IB_QP_MIN_RNR_TIMER OR IB_QP_PATH_MIG_STATE
          | IB_QPT_SMI \<Rightarrow> IB_QP_CUR_STATE OR IB_QP_QKEY
          | IB_QPT_GSI \<Rightarrow> IB_QP_CUR_STATE OR IB_QP_QKEY
          | IB_QPT_RAW_PACKET \<Rightarrow> IB_QP_RATE_LIMIT
          | _ \<Rightarrow> 0))\<rparr>
   | _ \<Rightarrow> no_transition)"

definition qp_row_RTS :: "ib_qp_state \<Rightarrow> qp_transition" where
  "qp_row_RTS nxt = (case nxt of
     IB_QPS_RESET \<Rightarrow> \<lparr>valid = True,
        req_param = (\<lambda>_. 0),
        opt_param = (\<lambda>_. 0)\<rparr>
   | IB_QPS_ERR \<Rightarrow> \<lparr>valid = True,
        req_param = (\<lambda>_. 0),
        opt_param = (\<lambda>_. 0)\<rparr>
   | IB_QPS_RTS \<Rightarrow> \<lparr>valid = True,
        req_param = (\<lambda>_. 0),
        opt_param = (\<lambda>t. (case t of
            IB_QPT_UD \<Rightarrow> IB_QP_CUR_STATE OR IB_QP_QKEY
          | IB_QPT_UC \<Rightarrow> IB_QP_CUR_STATE OR IB_QP_ACCESS_FLAGS OR IB_QP_ALT_PATH OR IB_QP_PATH_MIG_STATE
          | IB_QPT_RC \<Rightarrow> IB_QP_CUR_STATE OR IB_QP_ACCESS_FLAGS OR IB_QP_ALT_PATH OR IB_QP_PATH_MIG_STATE OR IB_QP_MIN_RNR_TIMER OR IB_QP_OFFLOAD_TYPE OR IB_QP_RMPN_XRQN
          | IB_EXP_QPT_DC_INI \<Rightarrow> IB_QP_CUR_STATE OR IB_QP_ALT_PATH OR IB_QP_PATH_MIG_STATE OR IB_QP_MIN_RNR_TIMER
          | IB_QPT_XRC_INI \<Rightarrow> IB_QP_CUR_STATE OR IB_QP_ACCESS_FLAGS OR IB_QP_ALT_PATH OR IB_QP_PATH_MIG_STATE
          | IB_QPT_XRC_TGT \<Rightarrow> IB_QP_CUR_STATE OR IB_QP_ACCESS_FLAGS OR IB_QP_ALT_PATH OR IB_QP_PATH_MIG_STATE OR IB_QP_MIN_RNR_TIMER
          | IB_QPT_SMI \<Rightarrow> IB_QP_CUR_STATE OR IB_QP_QKEY
          | IB_QPT_GSI \<Rightarrow> IB_QP_CUR_STATE OR IB_QP_QKEY
          | IB_QPT_RAW_PACKET \<Rightarrow> IB_QP_RATE_LIMIT
          | _ \<Rightarrow> 0))\<rparr>
   | IB_QPS_SQD \<Rightarrow> \<lparr>valid = True,
        req_param = (\<lambda>_. 0),
        opt_param = (\<lambda>t. (case t of
            IB_QPT_UD \<Rightarrow> IB_QP_EN_SQD_ASYNC_NOTIFY
          | IB_QPT_UC \<Rightarrow> IB_QP_EN_SQD_ASYNC_NOTIFY
          | IB_QPT_RC \<Rightarrow> IB_QP_EN_SQD_ASYNC_NOTIFY
          | IB_QPT_XRC_INI \<Rightarrow> IB_QP_EN_SQD_ASYNC_NOTIFY
          | IB_QPT_XRC_TGT \<Rightarrow> IB_QP_EN_SQD_ASYNC_NOTIFY
          | IB_QPT_SMI \<Rightarrow> IB_QP_EN_SQD_ASYNC_NOTIFY
          | IB_QPT_GSI \<Rightarrow> IB_QP_EN_SQD_ASYNC_NOTIFY
          | _ \<Rightarrow> 0))\<rparr>
   | _ \<Rightarrow> no_transition)"

definition qp_row_SQD :: "ib_qp_state \<Rightarrow> qp_transition" where
  "qp_row_SQD nxt = (case nxt of
     IB_QPS_RESET \<Rightarrow> \<lparr>valid = True,
        req_param = (\<lambda>_. 0),
        opt_param = (\<lambda>_. 0)\<rparr>
   | IB_QPS_ERR \<Rightarrow> \<lparr>valid = True,
        req_param = (\<lambda>_. 0),
        opt_param = (\<lambda>_. 0)\<rparr>
   | IB_QPS_RTS \<Rightarrow> \<lparr>valid = True,
        req_param = (\<lambda>_. 0),
        opt_param = (\<lambda>t. (case t of
            IB_QPT_UD \<Rightarrow> IB_QP_CUR_STATE OR IB_QP_QKEY
          | IB_QPT_UC \<Rightarrow> IB_QP_CUR_STATE OR IB_QP_ALT_PATH OR IB_QP_ACCESS_FLAGS OR IB_QP_PATH_MIG_STATE
          | IB_QPT_RC \<Rightarrow> IB_QP_CUR_STATE OR IB_QP_ALT_PATH OR IB_QP_ACCESS_FLAGS OR IB_QP_MIN_RNR_TIMER OR IB_QP_PATH_MIG_STATE
          | IB_QPT_XRC_INI \<Rightarrow> IB_QP_CUR_STATE OR IB_QP_ALT_PATH OR IB_QP_ACCESS_FLAGS OR IB_QP_PATH_MIG_STATE
          | IB_QPT_XRC_TGT \<Rightarrow> IB_QP_CUR_STATE OR IB_QP_ALT_PATH OR IB_QP_ACCESS_FLAGS OR IB_QP_MIN_RNR_TIMER OR IB_QP_PATH_MIG_STATE
          | IB_QPT_SMI \<Rightarrow> IB_QP_CUR_STATE OR IB_QP_QKEY
          | IB_QPT_GSI \<Rightarrow> IB_QP_CUR_STATE OR IB_QP_QKEY
          | _ \<Rightarrow> 0))\<rparr>
   | IB_QPS_SQD \<Rightarrow> \<lparr>valid = True,
        req_param = (\<lambda>_. 0),
        opt_param = (\<lambda>t. (case t of
            IB_QPT_UD \<Rightarrow> IB_QP_PKEY_INDEX OR IB_QP_QKEY
          | IB_QPT_UC \<Rightarrow> IB_QP_AV OR IB_QP_ALT_PATH OR IB_QP_ACCESS_FLAGS OR IB_QP_PKEY_INDEX OR IB_QP_PATH_MIG_STATE
          | IB_QPT_RC \<Rightarrow> IB_QP_PORT OR IB_QP_AV OR IB_QP_TIMEOUT OR IB_QP_RETRY_CNT OR IB_QP_RNR_RETRY OR IB_QP_MAX_QP_RD_ATOMIC OR IB_QP_MAX_DEST_RD_ATOMIC OR IB_QP_ALT_PATH OR IB_QP_ACCESS_FLAGS OR IB_QP_PKEY_INDEX OR IB_QP_MIN_RNR_TIMER OR IB_QP_PATH_MIG_STATE
          | IB_QPT_XRC_INI \<Rightarrow> IB_QP_PORT OR IB_QP_AV OR IB_QP_TIMEOUT OR IB_QP_RETRY_CNT OR IB_QP_RNR_RETRY OR IB_QP_MAX_QP_RD_ATOMIC OR IB_QP_ALT_PATH OR IB_QP_ACCESS_FLAGS OR IB_QP_PKEY_INDEX OR IB_QP_PATH_MIG_STATE
          | IB_QPT_XRC_TGT \<Rightarrow> IB_QP_PORT OR IB_QP_AV OR IB_QP_TIMEOUT OR IB_QP_MAX_DEST_RD_ATOMIC OR IB_QP_ALT_PATH OR IB_QP_ACCESS_FLAGS OR IB_QP_PKEY_INDEX OR IB_QP_MIN_RNR_TIMER OR IB_QP_PATH_MIG_STATE
          | IB_QPT_SMI \<Rightarrow> IB_QP_PKEY_INDEX OR IB_QP_QKEY
          | IB_QPT_GSI \<Rightarrow> IB_QP_PKEY_INDEX OR IB_QP_QKEY
          | _ \<Rightarrow> 0))\<rparr>
   | _ \<Rightarrow> no_transition)"

definition qp_row_SQE :: "ib_qp_state \<Rightarrow> qp_transition" where
  "qp_row_SQE nxt = (case nxt of
     IB_QPS_RESET \<Rightarrow> \<lparr>valid = True,
        req_param = (\<lambda>_. 0),
        opt_param = (\<lambda>_. 0)\<rparr>
   | IB_QPS_ERR \<Rightarrow> \<lparr>valid = True,
        req_param = (\<lambda>_. 0),
        opt_param = (\<lambda>_. 0)\<rparr>
   | IB_QPS_RTS \<Rightarrow> \<lparr>valid = True,
        req_param = (\<lambda>_. 0),
        opt_param = (\<lambda>t. (case t of
            IB_QPT_UD \<Rightarrow> IB_QP_CUR_STATE OR IB_QP_QKEY
          | IB_QPT_UC \<Rightarrow> IB_QP_CUR_STATE OR IB_QP_ACCESS_FLAGS
          | IB_QPT_SMI \<Rightarrow> IB_QP_CUR_STATE OR IB_QP_QKEY
          | IB_QPT_GSI \<Rightarrow> IB_QP_CUR_STATE OR IB_QP_QKEY
          | _ \<Rightarrow> 0))\<rparr>
   | _ \<Rightarrow> no_transition)"

definition qp_row_ERR :: "ib_qp_state \<Rightarrow> qp_transition" where
  "qp_row_ERR nxt = (case nxt of
     IB_QPS_RESET \<Rightarrow> \<lparr>valid = True,
        req_param = (\<lambda>_. 0),
        opt_param = (\<lambda>_. 0)\<rparr>
   | IB_QPS_ERR \<Rightarrow> \<lparr>valid = True,
        req_param = (\<lambda>_. 0),
        opt_param = (\<lambda>_. 0)\<rparr>
   | _ \<Rightarrow> no_transition)"

definition qp_state_table :: "ib_qp_state \<Rightarrow> ib_qp_state \<Rightarrow> qp_transition" where
  "qp_state_table cur nxt = (case cur of
     IB_QPS_RESET \<Rightarrow> qp_row_RESET nxt
   | IB_QPS_INIT \<Rightarrow> qp_row_INIT nxt
   | IB_QPS_RTR \<Rightarrow> qp_row_RTR nxt
   | IB_QPS_RTS \<Rightarrow> qp_row_RTS nxt
   | IB_QPS_SQD \<Rightarrow> qp_row_SQD nxt
   | IB_QPS_SQE \<Rightarrow> qp_row_SQE nxt
   | IB_QPS_ERR \<Rightarrow> qp_row_ERR nxt)"

lemmas qp_rows = qp_row_RESET_def qp_row_INIT_def qp_row_RTR_def qp_row_RTS_def qp_row_SQD_def
  qp_row_SQE_def qp_row_ERR_def no_transition_def

text \<open>\<^const>\<open>None\<close>: the type is used as an index past the end of the parameter arrays.\<close>

definition ib_modify_qp_is_ok :: "ib_qp_state \<Rightarrow> ib_qp_state \<Rightarrow> ib_qp_type \<Rightarrow> u32 \<Rightarrow> bool option" where
  "ib_modify_qp_is_ok cur_state next_state type attr_mask =
     (if attr_mask AND IB_QP_CUR_STATE \<noteq> 0 \<and>
         cur_state \<noteq> IB_QPS_RTR \<and> cur_state \<noteq> IB_QPS_RTS \<and>
         cur_state \<noteq> IB_QPS_SQD \<and> cur_state \<noteq> IB_QPS_SQE then Some False
      else if \<not> valid (qp_state_table cur_state next_state) then Some False
      else if \<not> qpt_below_max type then None
      else
        let req = req_param (qp_state_table cur_state next_state) type;
            opt = opt_param (qp_state_table cur_state next_state) type
        in if attr_mask AND req \<noteq> req then Some False
           else if attr_mask AND NOT (req OR opt OR IB_QP_STATE) \<noteq> 0 then Some False
           else Some True)"

section \<open>The life of a queue pair\<close>

text \<open>
  The second component collects the attributes supplied since the last reset.  Besides the
  modify calls of the consumer, the device takes a ready-to-send queue pair to the send-queue
  error state, and any queue pair to the error state.  The state a call is checked against is that of the queue pair: a caller
  that names another one, with the attribute \<^verbatim>\<open>IB_QP_CUR_STATE\<close>, is not considered.
\<close>

inductive qp_life :: "ib_qp_type \<Rightarrow> ib_qp_state \<times> u32 \<Rightarrow> bool" for t where
  created: "qp_life t (IB_QPS_RESET, 0)"
| modify: "qp_life t (s, acc) \<Longrightarrow> ib_modify_qp_is_ok s s' t attr_mask = Some True \<Longrightarrow>
    qp_life t (s', if s' = IB_QPS_RESET then 0 else acc OR attr_mask)"
| send_error: "qp_life t (IB_QPS_RTS, acc) \<Longrightarrow> qp_life t (IB_QPS_SQE, acc)"
| fatal_error: "qp_life t (s, acc) \<Longrightarrow> qp_life t (IB_QPS_ERR, acc)"

text \<open>The attributes that must have been supplied for a queue pair to be in a given state.\<close>

definition qp_required :: "ib_qp_type \<Rightarrow> ib_qp_state \<Rightarrow> u32" where
  "qp_required t s =
     (let init = req_param (qp_state_table IB_QPS_RESET IB_QPS_INIT) t;
          rtr = init OR req_param (qp_state_table IB_QPS_INIT IB_QPS_RTR) t;
          rts = rtr OR req_param (qp_state_table IB_QPS_RTR IB_QPS_RTS) t
      in case s of IB_QPS_RESET \<Rightarrow> 0 | IB_QPS_INIT \<Rightarrow> init | IB_QPS_RTR \<Rightarrow> rtr
         | IB_QPS_ERR \<Rightarrow> 0 | _ \<Rightarrow> rts)"

definition covers :: "u32 \<Rightarrow> u32 \<Rightarrow> bool" where
  "covers acc req \<longleftrightarrow> acc AND req = req"

lemma covers_bits: "covers acc req \<longleftrightarrow> (\<forall>n. bit req n \<longrightarrow> bit acc n)"
  unfolding covers_def by (metis bit_and_iff bit_word_eqI)

lemma covers_simps [simp]:
  "covers acc 0" "covers acc req \<Longrightarrow> covers (acc OR m) req" "covers m req \<Longrightarrow> covers (acc OR m) req"
  "covers acc (r OR r') \<longleftrightarrow> covers acc r \<and> covers acc r'"
  by (auto simp: covers_bits bit_simps)

lemma ok_Some_True:
  "ib_modify_qp_is_ok s s' t attr_mask = Some True \<longleftrightarrow>
     (attr_mask AND IB_QP_CUR_STATE = 0 \<or> s \<in> {IB_QPS_RTR, IB_QPS_RTS, IB_QPS_SQD, IB_QPS_SQE}) \<and>
     valid (qp_state_table s s') \<and> qpt_below_max t \<and>
     covers attr_mask (req_param (qp_state_table s s') t) \<and>
     attr_mask AND NOT (req_param (qp_state_table s s') t OR opt_param (qp_state_table s s') t OR IB_QP_STATE) = 0"
proof -
  define E where "E = qp_state_table s s'"
  define c where "c \<longleftrightarrow> attr_mask AND IB_QP_CUR_STATE = 0"
  define z where "z \<longleftrightarrow> attr_mask AND NOT (req_param E t OR opt_param E t OR IB_QP_STATE) = 0"
  show ?thesis
    unfolding ib_modify_qp_is_ok_def covers_def Let_def E_def [symmetric] z_def [symmetric]
      c_def [symmetric]
    by (simp split: if_splits)
qed

lemma qp_valid:
  "valid (qp_state_table s s') \<longleftrightarrow>
     s' = IB_QPS_RESET \<or> s \<noteq> IB_QPS_RESET \<and> s' = IB_QPS_ERR \<or>
     (s, s') \<in> {(IB_QPS_RESET, IB_QPS_INIT), (IB_QPS_INIT, IB_QPS_INIT), (IB_QPS_INIT, IB_QPS_RTR),
       (IB_QPS_RTR, IB_QPS_RTS), (IB_QPS_RTS, IB_QPS_RTS), (IB_QPS_RTS, IB_QPS_SQD),
       (IB_QPS_SQD, IB_QPS_RTS), (IB_QPS_SQD, IB_QPS_SQD), (IB_QPS_SQE, IB_QPS_RTS)}"
  by (cases s; cases s') (simp_all add: qp_state_table_def qp_rows)

text \<open>
  C38. Whatever sequence of accepted modify calls and device events a queue pair goes through, in
  every state all attributes the table requires on the way there have been supplied since the
  last reset: none can be skipped by a detour through the drained, error or repeated states.
\<close>

theorem qp_life_required:
  assumes "qp_life t st"
  shows "snd st AND qp_required t (fst st) = qp_required t (fst st)"
  using assms
proof (fold covers_def, induction rule: qp_life.induct)
  case (modify s acc s' attr_mask)
  then show ?case
    by (auto simp: ok_Some_True qp_valid qp_required_def Let_def)
qed (auto simp: qp_required_def Let_def split: ib_qp_state.splits)

theorem qp_life_required_witness:
  "qp_life IB_QPT_UD (IB_QPS_INIT, 0x71) \<and>
     snd (IB_QPS_INIT, 0x71 :: u32) AND qp_required IB_QPT_UD IB_QPS_INIT = qp_required IB_QPT_UD IB_QPS_INIT"
proof -
  have "ib_modify_qp_is_ok IB_QPS_RESET IB_QPS_INIT IB_QPT_UD 0x71 = Some True" by code_simp
  from qp_life.modify [OF qp_life.created this]
  have "qp_life IB_QPT_UD (IB_QPS_INIT, 0x71)" by simp
  with qp_life_required [OF this] show ?thesis by simp
qed

lemma mask_ok:
  assumes "\<not> bit req 1"
  shows "(IB_QP_STATE OR req) AND IB_QP_CUR_STATE = 0"
    "(IB_QP_STATE OR req) AND NOT (req OR opt OR IB_QP_STATE) = 0"
    "covers (IB_QP_STATE OR req) req"
proof -
  have s: "bit IB_QP_STATE n \<longleftrightarrow> n = 0" for n
    by (auto simp: IB_QP_STATE_def bit_1_iff)
  have c: "bit IB_QP_CUR_STATE n \<longleftrightarrow> n = 1" for n
    using bit_exp_iff [of 1 n, where 'a = u32] by (auto simp: IB_QP_CUR_STATE_def)
  show "(IB_QP_STATE OR req) AND IB_QP_CUR_STATE = 0"
    by (rule bit_word_eqI) (use assms in \<open>auto simp: bit_simps s c\<close>)
  show "(IB_QP_STATE OR req) AND NOT (req OR opt OR IB_QP_STATE) = 0"
    by (rule bit_word_eqI) (auto simp: bit_simps)
  show "covers (IB_QP_STATE OR req) req" by (simp add: covers_bits bit_simps)
qed

lemma req_no_cur: "\<not> bit (req_param (qp_state_table s s') t) 1"
  by (cases s; cases s'; simp add: qp_state_table_def qp_rows;
      cases t; simp add: qp_attr_masks)

text \<open>
  For every type the table knows and every transition it allows, supplying the state and exactly
  the required attributes is accepted, so that every such queue pair can be driven from reset
  through initialised and ready-to-receive to ready-to-send.
\<close>

theorem qp_life_reaches_rts:
  assumes "qpt_below_max t"
  shows "\<exists>acc. qp_life t (IB_QPS_RTS, acc)"
proof -
  have ok: "ib_modify_qp_is_ok s s' t (IB_QP_STATE OR req_param (qp_state_table s s') t) = Some True"
    if "valid (qp_state_table s s')" for s s'
    using assms that mask_ok [OF req_no_cur [of s s' t]] by (simp add: ok_Some_True)
  obtain a where "qp_life t (IB_QPS_INIT, a)"
    using qp_life.modify [OF qp_life.created ok [of IB_QPS_RESET IB_QPS_INIT]] by (auto simp: qp_valid)
  then obtain b where "qp_life t (IB_QPS_RTR, b)"
    using qp_life.modify [OF _ ok [of IB_QPS_INIT IB_QPS_RTR]] by (fastforce simp: qp_valid)
  then show ?thesis
    using qp_life.modify [OF _ ok [of IB_QPS_RTR IB_QPS_RTS]] by (fastforce simp: qp_valid)
qed

theorem qp_life_reaches_rts_witness: "\<exists>acc. qp_life IB_EXP_QPT_DC_INI (IB_QPS_RTS, acc)"
  by (rule qp_life_reaches_rts) (simp add: qpt_below_max_def)

text \<open>
  Reset is always possible and is the only way out of the error state; the error state can be
  entered from every state but reset; and a type that is no index of the table is read out of
  bounds by every transition the table allows.
\<close>

lemma ib_modify_qp_reset_and_error:
  "ib_modify_qp_is_ok s IB_QPS_RESET t IB_QP_STATE = (if qpt_below_max t then Some True else None) \<and>
   (ib_modify_qp_is_ok IB_QPS_ERR s t m = Some True \<longrightarrow> s = IB_QPS_RESET \<or> s = IB_QPS_ERR) \<and>
   (s \<noteq> IB_QPS_RESET \<longrightarrow> qpt_below_max t \<longrightarrow>
     ib_modify_qp_is_ok s IB_QPS_ERR t IB_QP_STATE = Some True)"
proof -
  have req: "req_param (qp_state_table s IB_QPS_RESET) t = 0" "req_param (qp_state_table s IB_QPS_ERR) t = 0"
    by (cases s; simp add: qp_state_table_def qp_rows)+
  have m: "IB_QP_STATE AND IB_QP_CUR_STATE = 0" by code_simp
  have z: "IB_QP_STATE AND NOT (r OR IB_QP_STATE) = 0" for r :: u32
    by (rule bit_word_eqI) (auto simp: bit_simps)
  have "ib_modify_qp_is_ok s IB_QPS_RESET t IB_QP_STATE = (if qpt_below_max t then Some True else None)"
    using req m z by (simp add: ib_modify_qp_is_ok_def qp_valid Let_def)
  moreover have "s \<noteq> IB_QPS_RESET \<longrightarrow> qpt_below_max t \<longrightarrow>
      ib_modify_qp_is_ok s IB_QPS_ERR t IB_QP_STATE = Some True"
    using req m z by (simp add: ib_modify_qp_is_ok_def qp_valid Let_def)
  ultimately show ?thesis by (auto simp: ok_Some_True qp_valid)
qed

lemma ib_modify_qp_reset_and_error_witness:
  "ib_modify_qp_is_ok IB_QPS_RTS IB_QPS_ERR IB_QPT_RC IB_QP_STATE = Some True"
  using ib_modify_qp_reset_and_error [of IB_QPS_RTS IB_QPT_RC 0] by (simp add: qpt_below_max_def)

end
