(* ===== verification/Mlx5Sizing.thy ===== *)
theory Mlx5Sizing
  imports QpState
begin

text \<open>
  Sizing of the work queues of an mlx5 queue pair, \<^verbatim>\<open>drivers/infiniband/hw/mlx5/qp.c\<close>:
  \<^verbatim>\<open>set_rq_size\<close>, \<^verbatim>\<open>sq_overhead\<close>, \<^verbatim>\<open>calc_send_wqe\<close>, \<^verbatim>\<open>get_send_sge\<close>, \<^verbatim>\<open>calc_sq_size\<close>,
  \<^verbatim>\<open>set_user_buf_size\<close> and \<^verbatim>\<open>qp_has_rq\<close>.  Device capabilities are a record of parameters.  C integers are kept
  at their width: unsigned attributes are 32-bit words, \<^verbatim>\<open>int\<close> results go through \<^const>\<open>c_int\<close>.
  \<^const>\<open>None\<close> is undefined behaviour: a shift by the width or more, a division by zero or
  \<^verbatim>\<open>roundup_pow_of_two(0)\<close>.
\<close>

unbundle bit_operations_syntax

section \<open>Structures\<close>

definition sizeof_ctrl_seg :: int where "sizeof_ctrl_seg = 16"
definition sizeof_datagram_seg :: int where "sizeof_datagram_seg = 48"
definition sizeof_raddr_seg :: int where "sizeof_raddr_seg = 16"
definition sizeof_xrc_seg :: int where "sizeof_xrc_seg = 16"
definition sizeof_atomic_seg :: int where "sizeof_atomic_seg = 16"
definition sizeof_umr_ctrl_seg :: int where "sizeof_umr_ctrl_seg = 48"
definition sizeof_mkey_seg :: int where "sizeof_mkey_seg = 64"
definition sizeof_inline_seg :: int where "sizeof_inline_seg = 4"
definition sizeof_data_seg :: int where "sizeof_data_seg = 16"
definition sizeof_eth_pad :: int where "sizeof_eth_pad = 16"
definition sizeof_eth_seg :: int where "sizeof_eth_seg = 16"
definition sizeof_mlx_seg :: int where "sizeof_mlx_seg = 16"
definition sizeof_signature_seg :: int where "sizeof_signature_seg = 16"
definition MLX5_SEND_WQE_BB :: int where "MLX5_SEND_WQE_BB = 64"
definition MLX5_SIG_WQE_SIZE :: int where "MLX5_SIG_WQE_SIZE = MLX5_SEND_WQE_BB * 8"
definition MLX5_IB_SQ_UMR_INLINE_THRESHOLD :: int where "MLX5_IB_SQ_UMR_INLINE_THRESHOLD = 64"
definition MLX5_IB_UMR_OCTOWORD :: int where "MLX5_IB_UMR_OCTOWORD = 16"

lemmas seg_sizes = sizeof_ctrl_seg_def sizeof_datagram_seg_def sizeof_raddr_seg_def sizeof_xrc_seg_def
  sizeof_atomic_seg_def sizeof_umr_ctrl_seg_def sizeof_mkey_seg_def sizeof_inline_seg_def
  sizeof_data_seg_def sizeof_eth_pad_def sizeof_eth_seg_def sizeof_mlx_seg_def
  sizeof_signature_seg_def MLX5_SEND_WQE_BB_def MLX5_SIG_WQE_SIZE_def
  MLX5_IB_SQ_UMR_INLINE_THRESHOLD_def MLX5_IB_UMR_OCTOWORD_def

abbreviation MLX5_IB_QPT_REG_UMR :: ib_qp_type where "MLX5_IB_QPT_REG_UMR \<equiv> IB_QPT_RESERVED1"
abbreviation MLX5_IB_QPT_HW_GSI :: ib_qp_type where "MLX5_IB_QPT_HW_GSI \<equiv> IB_QPT_RESERVED2"
abbreviation MLX5_IB_QPT_DCI :: ib_qp_type where "MLX5_IB_QPT_DCI \<equiv> IB_QPT_RESERVED3"
abbreviation MLX5_IB_QPT_DCT :: ib_qp_type where "MLX5_IB_QPT_DCT \<equiv> IB_QPT_RESERVED4"
abbreviation MLX5_IB_QPT_SW_CNAK :: ib_qp_type where "MLX5_IB_QPT_SW_CNAK \<equiv> IB_QPT_RESERVED5"

definition IB_QP_CREATE_IPOIB_UD_LSO :: u32 where "IB_QP_CREATE_IPOIB_UD_LSO = 1"
definition IB_QP_CREATE_INTEGRITY_EN :: u32 where "IB_QP_CREATE_INTEGRITY_EN = 0x40"

record mlx5_caps =
  log_max_qp_sz :: nat
  max_wqe_sz_sq :: int
  max_wqe_sz_rq :: int

record ib_qp_cap =
  max_send_wr :: u32
  max_recv_wr :: u32
  max_send_sge :: u32
  max_recv_sge :: u32
  max_inline_data :: u32

record ib_qp_init_attr =
  qp_type :: ib_qp_type
  create_flags :: u32
  has_srq :: bool
  cap :: ib_qp_cap

record mlx5_ib_wq =
  wqe_cnt :: int
  wqe_shift :: int
  max_gs :: int
  max_post :: int

record mlx5_ib_qp =
  rq :: mlx5_ib_wq
  sq :: mlx5_ib_wq
  wq_sig :: int
  qp_max_inline :: int
  underlay :: bool

record mlx5_ib_create_qp =
  sq_wqe_count :: u32
  rq_wqe_count :: u32
  rq_wqe_shift :: u32

section \<open>The receive queue\<close>

text \<open>The three branches: no receive queue, a queue in user memory, a queue of the kernel.\<close>

definition set_rq_none :: "ib_qp_cap \<Rightarrow> mlx5_ib_qp \<Rightarrow> (int \<times> ib_qp_cap \<times> mlx5_ib_qp) option" where
  "set_rq_none c qp = Some (0, c\<lparr>max_recv_wr := 0, max_recv_sge := 0\<rparr>,
     qp\<lparr>rq := (rq qp)\<lparr>max_gs := 0, wqe_cnt := 0, wqe_shift := 0\<rparr>\<rparr>)"

definition set_rq_user ::
  "mlx5_ib_create_qp \<Rightarrow> ib_qp_cap \<Rightarrow> mlx5_ib_qp \<Rightarrow> (int \<times> ib_qp_cap \<times> mlx5_ib_qp) option" where
  "set_rq_user ucmd c qp =
     (let qp = qp\<lparr>rq := (rq qp)\<lparr>wqe_cnt := c_int (uint (rq_wqe_count ucmd))\<rparr>\<rparr>;
          shift = unat (rq_wqe_shift ucmd)
      in if 32 < shift then Some (- EINVAL, c, qp)
         else if 31 \<le> shift then None
         else
           let qp = qp\<lparr>rq := (rq qp)\<lparr>wqe_shift := int shift\<rparr>\<rparr>
           in if 2 ^ shift div sizeof_data_seg < wq_sig qp then Some (- EINVAL, c, qp)
              else Some (0, c, qp\<lparr>rq := (rq qp)\<lparr>
                max_gs := c_int (2 ^ shift div sizeof_data_seg - wq_sig qp),
                max_post := wqe_cnt (rq qp)\<rparr>\<rparr>))"

definition set_rq_kernel ::
  "mlx5_caps \<Rightarrow> ib_qp_cap \<Rightarrow> mlx5_ib_qp \<Rightarrow> (int \<times> ib_qp_cap \<times> mlx5_ib_qp) option" where
  "set_rq_kernel dev c qp = do {
     let sz = (if wq_sig qp \<noteq> 0 then sizeof_signature_seg else 0);
     let sz = c_int (sz + uint (max_recv_sge c) * sizeof_data_seg);
     wqe_size \<leftarrow> map_option (\<lambda>n. c_int (int n)) (roundup_pow_of_two (nat sz));
     wr \<leftarrow> roundup_pow_of_two (unat (max_recv_wr c));
     let wq_size = max (c_int (int wr * wqe_size)) MLX5_SEND_WQE_BB;
     let qp = qp\<lparr>rq := (rq qp)\<lparr>wqe_cnt := c_div wq_size wqe_size\<rparr>\<rparr>;
     if wqe_size > max_wqe_sz_rq dev then Some (- EINVAL, c, qp)
     else
       let shift = ilog2 (nat wqe_size)
       in Some (0, c, qp\<lparr>rq := (rq qp)\<lparr>wqe_shift := int shift,
            max_gs := c_int (2 ^ shift div sizeof_data_seg - wq_sig qp),
            max_post := wqe_cnt (rq qp)\<rparr>\<rparr>) }"

definition set_rq_size :: "mlx5_caps \<Rightarrow> ib_qp_cap \<Rightarrow> bool \<Rightarrow> mlx5_ib_qp \<Rightarrow> mlx5_ib_create_qp option \<Rightarrow>
    (int \<times> ib_qp_cap \<times> mlx5_ib_qp) option" where
  "set_rq_size dev c has_rq qp ucmd =
     (if uint (max_recv_wr c) > 2 ^ log_max_qp_sz dev then Some (- EINVAL, c, qp)
      else if \<not> has_rq then set_rq_none c qp
      else case ucmd of Some u \<Rightarrow> set_rq_user u c qp | None \<Rightarrow> set_rq_kernel dev c qp)"

section \<open>The send queue\<close>

definition sq_overhead :: "ib_qp_init_attr \<Rightarrow> int" where
  "sq_overhead attr =
     (let rc = sizeof_ctrl_seg + max (sizeof_atomic_seg + sizeof_raddr_seg)
            (sizeof_umr_ctrl_seg + sizeof_mkey_seg +
             MLX5_IB_SQ_UMR_INLINE_THRESHOLD div MLX5_IB_UMR_OCTOWORD);
          ud = sizeof_ctrl_seg + sizeof_datagram_seg
      in case qp_type attr of
           IB_EXP_QPT_DC_INI \<Rightarrow> sizeof_ctrl_seg + sizeof_datagram_seg + sizeof_raddr_seg
         | IB_QPT_XRC_INI \<Rightarrow> sizeof_xrc_seg + rc
         | IB_QPT_RC \<Rightarrow> rc
         | IB_QPT_XRC_TGT \<Rightarrow> 0
         | IB_QPT_UC \<Rightarrow> sizeof_ctrl_seg + max sizeof_raddr_seg (sizeof_umr_ctrl_seg + sizeof_mkey_seg)
         | IB_QPT_UD \<Rightarrow> (if create_flags attr AND IB_QP_CREATE_IPOIB_UD_LSO \<noteq> 0
             then sizeof_eth_pad + sizeof_eth_seg else 0) + ud
         | IB_QPT_SMI \<Rightarrow> ud
         | IB_QPT_RESERVED2 \<Rightarrow> ud
         | IB_QPT_RESERVED1 \<Rightarrow> sizeof_ctrl_seg + sizeof_umr_ctrl_seg + sizeof_mkey_seg
         | IB_QPT_RESERVED5 \<Rightarrow> sizeof_ctrl_seg + sizeof_mlx_seg
         | _ \<Rightarrow> - EINVAL)"

definition calc_send_wqe :: "ib_qp_init_attr \<Rightarrow> int" where
  "calc_send_wqe attr =
     (let size = sq_overhead attr
      in if size < 0 then size
         else
           let inl_size = (if max_inline_data (cap attr) \<noteq> 0
                 then c_int (size + sizeof_inline_seg + uint (max_inline_data (cap attr))) else 0);
               size = c_int (size + uint (max_send_sge (cap attr)) * sizeof_data_seg);
               aligned = align_up (max inl_size size) MLX5_SEND_WQE_BB
           in if create_flags attr AND IB_QP_CREATE_INTEGRITY_EN \<noteq> 0 \<and> aligned < MLX5_SIG_WQE_SIZE
              then MLX5_SIG_WQE_SIZE else aligned)"

text \<open>
  The sizes subtracted here are of type \<^verbatim>\<open>size_t\<close>, so that the division is one of unsigned 64-bit
  numbers.  In the bound of the final minimum the division binds tighter than the subtraction.
\<close>

definition size_t :: "int \<Rightarrow> int" where
  "size_t x = x mod 2 ^ 64"

definition get_send_sge :: "ib_qp_init_attr \<Rightarrow> int \<Rightarrow> int" where
  "get_send_sge attr wqe_size =
     (let max_sge =
        (case qp_type attr of
           IB_QPT_RC \<Rightarrow> c_int (size_t (min wqe_size 512 - sizeof_ctrl_seg - sizeof_raddr_seg)
             div sizeof_data_seg)
         | IB_EXP_QPT_DC_INI \<Rightarrow> c_int (size_t (min wqe_size 512 - sizeof_ctrl_seg -
             sizeof_datagram_seg - sizeof_raddr_seg) div sizeof_data_seg)
         | IB_QPT_XRC_INI \<Rightarrow> c_int (size_t (min wqe_size 512 - sizeof_ctrl_seg - sizeof_xrc_seg -
             sizeof_raddr_seg) div sizeof_data_seg)
         | _ \<Rightarrow> c_int (size_t (wqe_size - sq_overhead attr) div sizeof_data_seg))
      in min max_sge (c_int (wqe_size - size_t (sq_overhead attr) div sizeof_data_seg)))"

definition calc_sq_size ::
  "mlx5_caps \<Rightarrow> ib_qp_init_attr \<Rightarrow> mlx5_ib_qp \<Rightarrow> (int \<times> ib_qp_init_attr \<times> mlx5_ib_qp) option" where
  "calc_sq_size dev attr qp =
     (if max_send_wr (cap attr) = 0 then Some (0, attr, qp)
      else
        let wqe_size = calc_send_wqe attr
        in if wqe_size < 0 then Some (wqe_size, attr, qp)
           else if wqe_size > max_wqe_sz_sq dev then Some (- EINVAL, attr, qp)
           else do {
             let qp = qp\<lparr>qp_max_inline := c_int (wqe_size - sq_overhead attr - sizeof_inline_seg)\<rparr>;
             let attr' = attr\<lparr>cap := (cap attr)\<lparr>max_inline_data := word_of_int (qp_max_inline qp)\<rparr>\<rparr>;
             n \<leftarrow> roundup_pow_of_two (unat (max_send_wr (cap attr) * word_of_int wqe_size :: u32));
             let wq_size = c_int (int n);
             let qp = qp\<lparr>sq := (sq qp)\<lparr>wqe_cnt := c_div wq_size MLX5_SEND_WQE_BB\<rparr>\<rparr>;
             if wqe_cnt (sq qp) > 2 ^ log_max_qp_sz dev then Some (- ENOMEM, attr', qp)
             else do {
               let qp = qp\<lparr>sq := (sq qp)\<lparr>wqe_shift := 6, max_gs := get_send_sge attr' wqe_size\<rparr>\<rparr>;
               if uint (word_of_int (max_gs (sq qp)) :: u32) < uint (max_send_sge (cap attr'))
               then Some (- ENOMEM, attr', qp)
               else if wqe_size = 0 then None
               else
                 let post = c_div wq_size wqe_size
                 in Some (wq_size,
                      attr'\<lparr>cap := (cap attr')\<lparr>max_send_sge := word_of_int (max_gs (sq qp)),
                        max_send_wr := word_of_int post\<rparr>\<rparr>,
                      qp\<lparr>sq := (sq qp)\<lparr>max_post := post\<rparr>\<rparr>) } })"

section \<open>User buffers\<close>

definition is_power_of_2 :: "nat \<Rightarrow> bool" where
  "is_power_of_2 n \<longleftrightarrow> n \<noteq> 0 \<and> n = 2 ^ ilog2 n"

text \<open>The sizes of the buffer of the queue pair and of the separate buffer of a raw send queue.\<close>

definition set_user_buf_size :: "mlx5_caps \<Rightarrow> mlx5_ib_qp \<Rightarrow> mlx5_ib_create_qp \<Rightarrow> ib_qp_init_attr \<Rightarrow>
    int \<times> mlx5_ib_qp \<times> (int \<times> int) option" where
  "set_user_buf_size dev qp ucmd attr =
     (let desc_sz = 2 ^ nat (wqe_shift (sq qp))
      in if desc_sz > max_wqe_sz_sq dev then (- EINVAL, qp, None)
         else if sq_wqe_count ucmd \<noteq> 0 \<and> \<not> is_power_of_2 (unat (sq_wqe_count ucmd))
         then (- EINVAL, qp, None)
         else
           let qp = qp\<lparr>sq := (sq qp)\<lparr>wqe_cnt := c_int (uint (sq_wqe_count ucmd))\<rparr>\<rparr>
           in if wqe_cnt (sq qp) > 2 ^ log_max_qp_sz dev then (- EINVAL, qp, None)
              else
                let rq_bytes = wqe_cnt (rq qp) * 2 ^ nat (wqe_shift (rq qp));
                    sq_bytes = wqe_cnt (sq qp) * 2 ^ 6
                in if qp_type attr = IB_QPT_RAW_PACKET \<or> underlay qp
                   then (0, qp, Some (rq_bytes, sq_bytes))
                   else (0, qp, Some (rq_bytes + sq_bytes, 0)))"

definition qp_has_rq :: "ib_qp_init_attr \<Rightarrow> bool" where
  "qp_has_rq attr =
     (\<not> (qp_type attr = IB_QPT_XRC_INI \<or> qp_type attr = IB_QPT_XRC_TGT \<or> has_srq attr \<or>
         qp_type attr = MLX5_IB_QPT_REG_UMR \<or> max_recv_wr (cap attr) = 0))"

section \<open>What the sizes guarantee\<close>

lemma sq_overhead_bounds: "sq_overhead attr \<le> 148" "- EINVAL \<le> sq_overhead attr"
  by (cases "qp_type attr"; simp add: sq_overhead_def Let_def seg_sizes EINVAL_def)+

definition small_attr :: "ib_qp_init_attr \<Rightarrow> bool" where
  "small_attr attr \<longleftrightarrow> uint (max_inline_data (cap attr)) < 2 ^ 20 \<and> uint (max_send_sge (cap attr)) < 2 ^ 20"

lemma calc_send_wqe_props:
  assumes "small_attr attr" "0 \<le> sq_overhead attr"
  shows "calc_send_wqe attr mod 64 = 0" "calc_send_wqe attr < 2 ^ 25"
    "sq_overhead attr + uint (max_send_sge (cap attr)) * 16 \<le> calc_send_wqe attr"
    "max_inline_data (cap attr) \<noteq> 0 \<Longrightarrow>
       sq_overhead attr + 4 + uint (max_inline_data (cap attr)) \<le> calc_send_wqe attr"
proof -
  define ov where "ov = sq_overhead attr"
  define sge where "sge = uint (max_send_sge (cap attr))"
  define il where "il = (if max_inline_data (cap attr) \<noteq> 0
    then ov + 4 + uint (max_inline_data (cap attr)) else 0)"
  define a where "a = align_up (max il (ov + sge * 16)) 64"
  have b: "0 \<le> ov" "ov \<le> 148" "0 \<le> sge" "sge < 2 ^ 20" "0 \<le> il" "il < 2 ^ 21"
    using assms sq_overhead_bounds [of attr] by (auto simp: ov_def sge_def il_def small_attr_def)
  have "calc_send_wqe attr = (if create_flags attr AND IB_QP_CREATE_INTEGRITY_EN \<noteq> 0 \<and> a < 512
      then 512 else a)"
    using b assms by (simp add: calc_send_wqe_def Let_def seg_sizes ov_def [symmetric] sge_def [symmetric]
      a_def il_def small_attr_def)
  then have w: "calc_send_wqe attr = 512 \<and> a < 512 \<or> calc_send_wqe attr = a" by auto
  have a: "max il (ov + sge * 16) \<le> a" "a < max il (ov + sge * 16) + 64" "a mod 64 = 0"
    unfolding a_def using align_up_props [of 64] by auto
  show "calc_send_wqe attr mod 64 = 0" using w a(3) by auto
  show "calc_send_wqe attr < 2 ^ 25" using w a(2) b by auto
  show "sq_overhead attr + uint (max_send_sge (cap attr)) * 16 \<le> calc_send_wqe attr"
    using w a(1) by (auto simp: ov_def sge_def)
  show "sq_overhead attr + 4 + uint (max_inline_data (cap attr)) \<le> calc_send_wqe attr"
    if "max_inline_data (cap attr) \<noteq> 0"
    using w a(1) that by (auto simp: il_def ov_def)
qed

lemma calc_sq_size_success:
  assumes "calc_sq_size dev attr qp = Some (r, attr', qp')" "0 < r"
  defines "w \<equiv> calc_send_wqe attr"
  obtains n where "max_send_wr (cap attr) \<noteq> 0" "0 < w"
    "roundup_pow_of_two (unat (max_send_wr (cap attr) * word_of_int w)) = Some n" "r = c_int (int n)"
    "c_div r 64 \<le> 2 ^ log_max_qp_sz dev" "w \<le> max_wqe_sz_sq dev"
    "uint (max_send_sge (cap attr)) \<le> uint (word_of_int (get_send_sge attr w) :: u32)"
    "cap attr' = (cap attr)\<lparr>max_inline_data := word_of_int (c_int (w - sq_overhead attr - 4)),
       max_send_sge := word_of_int (get_send_sge attr w), max_send_wr := word_of_int (c_div r w)\<rparr>"
    "sq qp' = (sq qp)\<lparr>wqe_cnt := c_div r 64, wqe_shift := 6, max_gs := get_send_sge attr w,
       max_post := c_div r w\<rparr>"
    "qp_max_inline qp' = c_int (w - sq_overhead attr - 4)"
proof -
  have ov: "sq_overhead (attr\<lparr>cap := c\<rparr>) = sq_overhead attr" for c
    by (simp add: sq_overhead_def)
  have g: "get_send_sge (attr\<lparr>cap := c\<rparr>) x = get_send_sge attr x" for c x
    unfolding get_send_sge_def ov by simp
  have wr: "max_send_wr (cap attr) \<noteq> 0" using assms(1,2) by (auto simp: calc_sq_size_def)
  have w0: "\<not> w < 0" "\<not> w > max_wqe_sz_sq dev"
    using assms(1,2) wr by (auto simp: calc_sq_size_def w_def Let_def EINVAL_def split: if_splits)
  obtain n where n: "roundup_pow_of_two (unat (max_send_wr (cap attr) * word_of_int w)) = Some n"
    using assms(1) wr w0
    by (cases "roundup_pow_of_two (unat (max_send_wr (cap attr) * word_of_int w))")
      (auto simp: calc_sq_size_def w_def Let_def)
  show thesis
    using assms(1,2) wr w0 n
    by (intro that [of n])
      (auto simp: calc_sq_size_def w_def [symmetric] Let_def g seg_sizes ENOMEM_def split: if_splits)
qed

lemma word_of_int_small: "0 \<le> x \<Longrightarrow> x < 2 ^ 32 \<Longrightarrow> uint (word_of_int x :: u32) = x"
  by (simp add: uint_word_of_int_eq take_bit_int_eq_self)

lemma product_no_wrap:
  fixes a :: u32
  assumes "uint a * w < 2 ^ 32" "0 < w" "a \<noteq> 0"
  shows "int (unat (a * word_of_int w)) = uint a * w"
proof -
  have "0 < uint a" using assms(3) by (simp add: word_neq_0_conv word_less_def)
  then have "1 * w \<le> uint a * w" using assms(2) by (intro mult_right_mono) auto
  then have "w < 2 ^ 32" using assms(1) by linarith
  then have w: "uint (word_of_int w :: u32) = w" using assms(2) by (intro word_of_int_small) auto
  have "uint (a * word_of_int w) = (uint a * w) mod 2 ^ 32"
    using uint_word_ariths(3) [of a "word_of_int w"] w by simp
  also have "\<dots> = uint a * w" using assms by simp
  finally show ?thesis by simp
qed

lemma pow2_blocks: "6 \<le> k \<Longrightarrow> (2 :: int) ^ k = 2 ^ (k - 6) * 64"
  using power_add [of "2 :: int" "k - 6" 6] by simp

lemma c_div_power: "6 \<le> k \<Longrightarrow> c_div (2 ^ k) 64 = 2 ^ (k - 6)"
  by (simp add: pow2_blocks)

lemma c_int_size_t [simp]: "0 \<le> x \<Longrightarrow> x < 2 ^ 25 \<Longrightarrow> c_int (size_t x div 16) = x div 16"
proof -
  assume "0 \<le> x" "x < 2 ^ 25"
  then have "size_t x = x" "0 \<le> x div 16" "x div 16 < 2 ^ 25" by (simp_all add: size_t_def)
  then show ?thesis by simp
qed

text \<open>The bounds of get\_send\_sge on the types whose work requests carry a remote address.\<close>

lemma get_send_sge_le:
  assumes "0 \<le> sq_overhead attr" "sq_overhead attr \<le> w" "w < 2 ^ 25"
    and "64 \<le> w" and "w mod 64 = 0"
  shows "0 \<le> get_send_sge attr w" "get_send_sge attr w < 2 ^ 25"
    "qp_type attr = IB_EXP_QPT_DC_INI \<Longrightarrow> get_send_sge attr w * 16 + 80 \<le> min w 512"
    "qp_type attr = IB_QPT_RC \<Longrightarrow> get_send_sge attr w * 16 + 32 \<le> min w 512"
    "qp_type attr = IB_QPT_XRC_INI \<Longrightarrow> get_send_sge attr w * 16 + 48 \<le> min w 512"
proof -
  define ov where "ov = sq_overhead attr"
  have ov: "0 \<le> ov" "ov \<le> w" using assms by (auto simp: ov_def)
  have "size_t ov = ov" using ov assms(3) by (simp add: size_t_def)
  moreover have "0 \<le> w - ov div 16" "w - ov div 16 < 2 ^ 25" using ov assms(3) by auto
  ultimately have b: "c_int (w - size_t ov div 16) = w - ov div 16" by simp
  have gen: "get_send_sge attr w = min (c_int (size_t x div 16)) (w - ov div 16)"
    if "qp_type attr = IB_QPT_RC \<longrightarrow> x = min w 512 - 32"
      "qp_type attr = IB_EXP_QPT_DC_INI \<longrightarrow> x = min w 512 - 80"
      "qp_type attr = IB_QPT_XRC_INI \<longrightarrow> x = min w 512 - 48"
      "qp_type attr \<notin> {IB_QPT_RC, IB_EXP_QPT_DC_INI, IB_QPT_XRC_INI} \<longrightarrow> x = w - ov" for x
    using that b unfolding get_send_sge_def ov_def [symmetric] seg_sizes Let_def
    by (cases "qp_type attr") simp_all
  have dc: "qp_type attr = IB_EXP_QPT_DC_INI \<Longrightarrow> 128 \<le> w"
    using assms(2,5) by (simp add: sq_overhead_def Let_def seg_sizes) presburger
  have "\<exists>x. 0 \<le> x \<and> x < 2 ^ 25 \<and> get_send_sge attr w = min (x div 16) (w - ov div 16) \<and>
      (qp_type attr = IB_EXP_QPT_DC_INI \<longrightarrow> x = min w 512 - 80) \<and>
      (qp_type attr = IB_QPT_RC \<longrightarrow> x = min w 512 - 32) \<and>
      (qp_type attr = IB_QPT_XRC_INI \<longrightarrow> x = min w 512 - 48)"
  proof (cases "qp_type attr \<in> {IB_QPT_RC, IB_EXP_QPT_DC_INI, IB_QPT_XRC_INI}")
    case True
    then consider "qp_type attr = IB_QPT_RC" | "qp_type attr = IB_EXP_QPT_DC_INI"
      | "qp_type attr = IB_QPT_XRC_INI" by blast
    then show ?thesis
    proof cases
      case 1
      then show ?thesis using gen [of "min w 512 - 32"] assms(3,4) by (intro exI [of _ "min w 512 - 32"]) auto
    next
      case 2
      then show ?thesis using gen [of "min w 512 - 80"] dc assms(3) by (intro exI [of _ "min w 512 - 80"]) auto
    next
      case 3
      then show ?thesis using gen [of "min w 512 - 48"] assms(3,4) by (intro exI [of _ "min w 512 - 48"]) auto
    qed
  next
    case False
    then show ?thesis using gen [of "w - ov"] ov assms(3) by (intro exI [of _ "w - ov"]) auto
  qed
  then obtain x where x: "0 \<le> x" "x < 2 ^ 25" "get_send_sge attr w = min (x div 16) (w - ov div 16)"
    "qp_type attr = IB_EXP_QPT_DC_INI \<longrightarrow> x = min w 512 - 80"
    "qp_type attr = IB_QPT_RC \<longrightarrow> x = min w 512 - 32"
    "qp_type attr = IB_QPT_XRC_INI \<longrightarrow> x = min w 512 - 48" by blast
  have le: "get_send_sge attr w * 16 \<le> x" using x(1,3) by (simp add: min_def) linarith
  show "0 \<le> get_send_sge attr w" "get_send_sge attr w < 2 ^ 25" using x ov by auto
  show "qp_type attr = IB_EXP_QPT_DC_INI \<Longrightarrow> get_send_sge attr w * 16 + 80 \<le> min w 512"
    "qp_type attr = IB_QPT_RC \<Longrightarrow> get_send_sge attr w * 16 + 32 \<le> min w 512"
    "qp_type attr = IB_QPT_XRC_INI \<Longrightarrow> get_send_sge attr w * 16 + 48 \<le> min w 512"
    using le x by linarith+
qed

lemma roundup_ring:
  fixes wr :: u32
  assumes "wr \<noteq> 0" "64 \<le> w" and P: "uint wr * w \<le> 2 ^ 30"
    and n: "roundup_pow_of_two (unat (wr * word_of_int w)) = Some n"
  obtains k where "c_int (int n) = 2 ^ k" "6 \<le> k" "uint wr * w \<le> 2 ^ k" "(2 :: int) ^ k < 2 ^ 31"
proof -
  have prod: "int (unat (wr * word_of_int w)) = uint wr * w"
    using assms(1,2) P by (intro product_no_wrap) auto
  have "1 \<le> uint wr" using assms(1) by (simp add: word_neq_0_conv word_less_def)
  then have big: "w \<le> uint wr * w" using assms(2) by simp
  then have "0 < unat (wr * word_of_int w)" using prod assms(2) by linarith
  then obtain k where k: "n = 2 ^ k" "unat (wr * word_of_int w) \<le> 2 ^ k"
      "2 ^ k < 2 * unat (wr * word_of_int w) \<or> unat (wr * word_of_int w) = 1 \<and> k = 0"
    by (rule roundup_pow_of_twoE) (use n in auto)
  have lower: "uint wr * w \<le> 2 ^ k" using k(2) prod by (metis of_nat_le_iff of_nat_numeral of_nat_power)
  have "int (2 ^ k) < 2 * (uint wr * w)" using k(3) prod big assms(2) by linarith
  then have upper: "(2 :: int) ^ k < 2 ^ 31" using P by simp
  have "(0 :: int) \<le> 2 ^ k" by simp
  then have "- (2 ^ 31) \<le> (2 :: int) ^ k" by (rule order_trans [rotated]) simp
  then have r: "c_int (int n) = 2 ^ k" using k(1) c_int_id [OF _ upper] by simp
  have "6 \<le> k"
  proof (rule ccontr)
    assume "\<not> 6 \<le> k"
    then have "(2 :: int) ^ k \<le> 2 ^ 5" by (intro power_increasing) auto
    then have "(2 :: int) ^ k \<le> 32" by simp
    with lower big assms(2) show False by linarith
  qed
  with r lower upper that show thesis by blast
qed

lemma inline_limit:
  assumes "uint (il :: u32) \<le> d" "d < 2 ^ 25"
  shows "uint il \<le> uint (word_of_int (c_int d) :: u32) \<and> int (unat (word_of_int (c_int d) :: u32)) = c_int d"
proof -
  have "0 \<le> d" using assms(1) uint_ge_0 [of il] by linarith
  then have "c_int d = d" "uint (word_of_int d :: u32) = d"
    using assms(2) by (simp_all add: word_of_int_small)
  then show ?thesis using assms(1) by simp
qed

text \<open>
  C40. When sizing a send queue succeeds, and the requested number of work requests times their size
  stays within a quarter of the 32-bit range, the queue grants at least what was asked for:
  work requests, scatter entries and inline bytes.  Its ring has a power-of-two number of
  64-byte basic blocks within the device limit, and all granted work requests fit into it.
\<close>

theorem calc_sq_size_grants:
  assumes "calc_sq_size dev attr qp = Some (r, attr', qp')" and "0 < r" and "small_attr attr"
    and "uint (max_send_wr (cap attr)) * calc_send_wqe attr \<le> 2 ^ 30"
  shows "uint (max_send_wr (cap attr)) \<le> uint (max_send_wr (cap attr')) \<and>
    uint (max_send_sge (cap attr)) \<le> uint (max_send_sge (cap attr')) \<and>
    (max_inline_data (cap attr) \<noteq> 0 \<longrightarrow>
       uint (max_inline_data (cap attr)) \<le> uint (max_inline_data (cap attr')) \<and>
       int (unat (max_inline_data (cap attr'))) = qp_max_inline qp') \<and>
    (\<exists>k. wqe_cnt (sq qp') = 2 ^ k \<and> 2 ^ k \<le> (2 :: int) ^ log_max_qp_sz dev) \<and>
    r = wqe_cnt (sq qp') * 64 \<and> max_post (sq qp') * calc_send_wqe attr \<le> r \<and>
    max_post (sq qp') = uint (max_send_wr (cap attr'))"
proof -
  define w where "w = calc_send_wqe attr"
  define wr where "wr = max_send_wr (cap attr)"
  define il where "il = max_inline_data (cap attr)"
  obtain n where s: "wr \<noteq> 0" "0 < w" "roundup_pow_of_two (unat (wr * word_of_int w)) = Some n"
      "r = c_int (int n)" "c_div r 64 \<le> 2 ^ log_max_qp_sz dev"
      "uint (max_send_sge (cap attr)) \<le> uint (word_of_int (get_send_sge attr w) :: u32)"
    and cap: "cap attr' = (cap attr)\<lparr>max_inline_data := word_of_int (c_int (w - sq_overhead attr - 4)),
       max_send_sge := word_of_int (get_send_sge attr w), max_send_wr := word_of_int (c_div r w)\<rparr>"
    and sq: "sq qp' = (sq qp)\<lparr>wqe_cnt := c_div r 64, wqe_shift := 6, max_gs := get_send_sge attr w,
       max_post := c_div r w\<rparr>" "qp_max_inline qp' = c_int (w - sq_overhead attr - 4)"
    using calc_sq_size_success [OF assms(1,2)] unfolding w_def wr_def by blast
  have ov: "0 \<le> sq_overhead attr"
    using s(2) by (simp add: w_def calc_send_wqe_def Let_def split: if_splits)
  note props = calc_send_wqe_props [OF assms(3) ov, folded w_def]
  have w64: "64 \<le> w" using props(1) s(2) by presburger
  obtain k where k: "r = 2 ^ k" "6 \<le> k" "uint wr * w \<le> 2 ^ k" "(2 :: int) ^ k < 2 ^ 31"
    using roundup_ring [OF s(1) w64 _ s(3)] assms(4) s(4) by (auto simp: w_def wr_def)
  have wr1: "1 \<le> uint wr" using s(1) by (simp add: word_neq_0_conv word_less_def)
  have post: "c_div r w = r div w" using s(2) k(1) by simp
  have wr_le: "uint wr \<le> r div w"
    using zdiv_mono1 [OF k(3) s(2)] s(2) k(1) by simp
  have "r div w \<le> r div 1" using k(1) s(2) by (intro zdiv_mono2) auto
  then have postw: "uint (word_of_int (c_div r w) :: u32) = r div w" "0 \<le> r div w"
    using wr_le wr1 k(1,4) post word_of_int_small [of "r div w"] by auto
  have cnt: "wqe_cnt (sq qp') = 2 ^ (k - 6)" using sq(1) k(1) c_div_power [OF k(2)] by simp
  have r64: "r = 2 ^ (k - 6) * 64" using k(1) pow2_blocks [OF k(2)] by simp
  have fits: "r div w * w \<le> r" using pos_mod_sign [OF s(2), of r] minus_mod_eq_div_mult [of r w] by linarith
  have limit: "2 ^ (k - 6) \<le> (2 :: int) ^ log_max_qp_sz dev"
    using s(5) k(1) c_div_power [OF k(2)] by simp
  have caps: "max_inline_data (cap attr') = word_of_int (c_int (w - sq_overhead attr - 4))"
    "max_send_sge (cap attr') = word_of_int (get_send_sge attr w)"
    "max_send_wr (cap attr') = word_of_int (r div w)" "max_post (sq qp') = r div w"
    using cap sq(1) post by simp_all
  have "uint (word_of_int (r div w) :: u32) = r div w" using postw(1) post by simp
  then have "uint wr \<le> uint (word_of_int (r div w) :: u32)" "r div w = uint (word_of_int (r div w) :: u32)"
    using wr_le by simp_all
  moreover have "il \<noteq> 0 \<longrightarrow> uint il \<le> uint (word_of_int (c_int (w - sq_overhead attr - 4)) :: u32) \<and>
      int (unat (word_of_int (c_int (w - sq_overhead attr - 4)) :: u32)) = c_int (w - sq_overhead attr - 4)"
    using props(2,4) ov by (intro impI inline_limit) (simp_all add: il_def)
  ultimately show ?thesis
    unfolding caps wr_def [symmetric] il_def [symmetric] w_def [symmetric] cnt sq(2)
    using s(6) limit r64 fits by blast
qed

definition sample_attr :: "ib_qp_type \<Rightarrow> u32 \<Rightarrow> u32 \<Rightarrow> u32 \<Rightarrow> ib_qp_init_attr" where
  "sample_attr t wr sge il = \<lparr>qp_type = t, create_flags = 0, has_srq = False, cap =
     \<lparr>max_send_wr = wr, max_recv_wr = 10, max_send_sge = sge, max_recv_sge = 3, max_inline_data = il\<rparr>\<rparr>"

definition sample_caps :: mlx5_caps where
  "sample_caps = \<lparr>log_max_qp_sz = 15, max_wqe_sz_sq = 1024, max_wqe_sz_rq = 512\<rparr>"

definition sample_qp :: mlx5_ib_qp where
  "sample_qp = \<lparr>rq = \<lparr>wqe_cnt = 0, wqe_shift = 0, max_gs = 0, max_post = 0\<rparr>,
     sq = \<lparr>wqe_cnt = 0, wqe_shift = 0, max_gs = 0, max_post = 0\<rparr>, wq_sig = 0, qp_max_inline = 0,
     underlay = False\<rparr>"

lemmas sizing_defs = calc_sq_size_def calc_send_wqe_def sq_overhead_def get_send_sge_def
  align_up_def size_t_def roundup_pow_of_two_def fls.simps c_int_def c_div_def seg_sizes Let_def
  sample_attr_def sample_caps_def sample_qp_def small_attr_def IB_QP_CREATE_INTEGRITY_EN_def

theorem calc_sq_size_grants_witness:
  "\<exists>attr' qp'. calc_sq_size sample_caps (sample_attr IB_EXP_QPT_DC_INI 10 1 0) sample_qp = Some (2048, attr', qp') \<and>
     10 \<le> uint (max_send_wr (cap attr'))"
proof -
  let ?a = "sample_attr IB_EXP_QPT_DC_INI 10 1 0"
  have w: "calc_send_wqe ?a = 128" "small_attr ?a" "max_send_wr (cap ?a) = 10"
    by (simp_all add: sizing_defs)
  obtain attr' qp' where c: "calc_sq_size sample_caps ?a sample_qp = Some (2048, attr', qp')"
    by (simp add: sizing_defs)
  from calc_sq_size_grants [OF this] w show ?thesis using c by auto
qed

text \<open>
  A work request with as many scatter entries as a queue was granted fits into the work-queue entry
  size the ring was computed with, and into 512 bytes, for the connected types: control,
  address and remote-address segments included.
\<close>

theorem calc_sq_size_wqe_fits:
  assumes "calc_sq_size dev attr qp = Some (r, attr', qp')" and "0 < r" and "small_attr attr"
  shows "(qp_type attr = IB_EXP_QPT_DC_INI \<longrightarrow> sizeof_ctrl_seg + sizeof_datagram_seg + sizeof_raddr_seg +
       max_gs (sq qp') * sizeof_data_seg \<le> min (calc_send_wqe attr) 512) \<and>
    (qp_type attr = IB_QPT_RC \<longrightarrow> sizeof_ctrl_seg + sizeof_raddr_seg +
       max_gs (sq qp') * sizeof_data_seg \<le> min (calc_send_wqe attr) 512) \<and>
    (qp_type attr = IB_QPT_XRC_INI \<longrightarrow> sizeof_ctrl_seg + sizeof_xrc_seg + sizeof_raddr_seg +
       max_gs (sq qp') * sizeof_data_seg \<le> min (calc_send_wqe attr) 512)"
proof -
  define w where "w = calc_send_wqe attr"
  have w: "0 < w" "max_gs (sq qp') = get_send_sge attr w"
    by (rule calc_sq_size_success [OF assms(1,2)], simp add: w_def)+
  have ov: "0 \<le> sq_overhead attr"
    using w(1) by (simp add: w_def calc_send_wqe_def Let_def split: if_splits)
  note props = calc_send_wqe_props [OF assms(3) ov, folded w_def]
  have "sq_overhead attr \<le> w" using props(3) uint_ge_0 [of "max_send_sge (cap attr)"] by linarith
  moreover have "64 \<le> w" using props(1) w(1) by presburger
  ultimately show ?thesis
    using get_send_sge_le(3-5) [OF ov _ props(2) _ props(1)] w(2)
    by (simp add: seg_sizes w_def [symmetric] add.commute)
qed

theorem calc_sq_size_wqe_fits_witness:
  "\<exists>attr' qp'. calc_sq_size sample_caps (sample_attr IB_EXP_QPT_DC_INI 10 1 0) sample_qp = Some (2048, attr', qp') \<and>
     80 + max_gs (sq qp') * 16 \<le> 128"
proof -
  let ?a = "sample_attr IB_EXP_QPT_DC_INI 10 1 0"
  have w: "calc_send_wqe ?a = 128" "small_attr ?a" "qp_type ?a = IB_EXP_QPT_DC_INI"
    by (simp_all add: sizing_defs)
  obtain attr' qp' where c: "calc_sq_size sample_caps ?a sample_qp = Some (2048, attr', qp')"
    by (simp add: sizing_defs)
  from calc_sq_size_wqe_fits [OF this] w c show ?thesis by (auto simp: seg_sizes)
qed

text \<open>
  The bound on the work requests matters: the size of the ring is computed in 32 bits, and a
  request for 2^25 + 1 work requests of 128 bytes succeeds with a queue that holds one.
\<close>

theorem calc_sq_size_wraps:
  assumes "128 \<le> max_wqe_sz_sq dev" and "1 \<le> log_max_qp_sz dev"
  shows "\<exists>attr' qp'. calc_sq_size dev (sample_attr IB_EXP_QPT_DC_INI (2 ^ 25 + 1) 1 0) qp =
      Some (128, attr', qp') \<and> max_send_wr (cap attr') = 1 \<and> max_post (sq qp') = 1"
proof -
  have "(2 :: int) ^ 1 \<le> 2 ^ log_max_qp_sz dev" using assms(2) by (intro power_increasing) auto
  with assms(1) show ?thesis by (simp add: sizing_defs)
qed

theorem calc_sq_size_wraps_witness:
  "\<exists>attr' qp'. calc_sq_size sample_caps (sample_attr IB_EXP_QPT_DC_INI (2 ^ 25 + 1) 1 0) sample_qp =
      Some (128, attr', qp') \<and> max_send_wr (cap attr') = 1 \<and> max_post (sq qp') = 1"
  by (rule calc_sq_size_wraps) (simp_all add: sample_caps_def)

text \<open>
  For a datagram queue pair without scatter entries and inline data the inline limit comes out as
  minus four, and the consumer is told it may send 4294967292 bytes inline.
\<close>

lemma calc_sq_size_negative_inline:
  assumes "64 \<le> max_wqe_sz_sq dev" 
  shows "\<exists>attr' qp'. calc_sq_size dev (sample_attr IB_QPT_UD 1 0 0) qp = Some (64, attr', qp') \<and>
      qp_max_inline qp' = - 4 \<and> max_inline_data (cap attr') = 4294967292"
proof -
  have "\<not> (2 :: int) ^ log_max_qp_sz dev < 1" by (simp add: not_less)
  with assms show ?thesis by (simp add: sizing_defs)
qed

lemma calc_sq_size_negative_inline_witness:
  "\<exists>attr' qp'. calc_sq_size sample_caps (sample_attr IB_QPT_UD 1 0 0) sample_qp = Some (64, attr', qp') \<and>
      qp_max_inline qp' = - 4 \<and> max_inline_data (cap attr') = 4294967292"
  by (rule calc_sq_size_negative_inline) (simp add: sample_caps_def)

subsection \<open>The receive queue\<close>

lemma pow2_ring:
  assumes "a + b < 31"
  shows "c_div (max (c_int (int (2 ^ b) * 2 ^ a)) 64) (2 ^ a) = 2 ^ (if 6 \<le> a + b then b else 6 - a)"
proof -
  have "(2 :: int) ^ (a + b) < 2 ^ 31" using assms by (intro power_strict_increasing) auto
  moreover have "- (2 ^ 31) \<le> (2 :: int) ^ (a + b)" by (rule order_trans [of _ 0]) simp_all
  ultimately have c: "c_int (int (2 ^ b) * 2 ^ a) = 2 ^ (a + b)"
    by (simp add: power_add mult.commute)
  show ?thesis
  proof (cases "6 \<le> a + b")
    case True
    then have "(64 :: int) \<le> 2 ^ (a + b)"
      using power_increasing [OF True, of "2 :: int"] by simp
    then have "max (c_int (int (2 ^ b) * 2 ^ a)) 64 = 2 ^ b * 2 ^ a"
      using c by (simp add: power_add mult.commute)
    then show ?thesis using True by simp
  next
    case False
    then have "(2 :: int) ^ (a + b) \<le> 2 ^ 6" by (intro power_increasing) auto
    then have "max (c_int (int (2 ^ b) * 2 ^ a)) 64 = 2 ^ (6 - a) * 2 ^ a"
      using c False by (simp flip: power_add)
    then show ?thesis using False by simp
  qed
qed

text \<open>
  When the kernel sizes a receive queue successfully, the queue holds at least the requested number
  of receive requests, each with at least the requested scatter entries beside the optional
  signature; entry size and count are powers of two and the ring is no smaller than a basic
  block.
\<close>

theorem set_rq_size_grants:
  assumes "set_rq_size dev c True qp None = Some (0, c', qp')" and "wq_sig qp = 0 \<or> wq_sig qp = 1"
    and "1 \<le> wq_sig qp + uint (max_recv_sge c)" and "uint (max_recv_sge c) < 2 ^ 16"
    and "max_recv_wr c \<noteq> 0" and "log_max_qp_sz dev \<le> 15" and "max_wqe_sz_rq dev \<le> 2 ^ 15"
  shows "uint (max_recv_wr c) \<le> wqe_cnt (rq qp') \<and> uint (max_recv_sge c) \<le> max_gs (rq qp') \<and>
    max_post (rq qp') = wqe_cnt (rq qp') \<and> (\<exists>k. wqe_cnt (rq qp') = 2 ^ k) \<and>
    64 \<le> wqe_cnt (rq qp') * 2 ^ nat (wqe_shift (rq qp')) \<and> c' = c"
proof -
  define sz where "sz = 16 * (wq_sig qp + uint (max_recv_sge c))"
  have sz: "16 \<le> sz" "sz < 2 ^ 21" using assms(2-4) by (auto simp: sz_def)
  have sz_eq: "c_int ((if wq_sig qp \<noteq> 0 then sizeof_signature_seg else 0) +
      uint (max_recv_sge c) * sizeof_data_seg) = sz"
    using assms(2,4) by (auto simp: sz_def seg_sizes)
  obtain a where a: "roundup_pow_of_two (nat sz) = Some (2 ^ a)" "nat sz \<le> 2 ^ a" "2 ^ a < 2 * nat sz"
    by (rule roundup_pow_of_twoE [of "nat sz"]) (use sz in auto)
  obtain b where b: "roundup_pow_of_two (unat (max_recv_wr c)) = Some (2 ^ b)"
      "unat (max_recv_wr c) \<le> 2 ^ b" "2 ^ b < 2 * unat (max_recv_wr c) \<or> b = 0"
    by (rule roundup_pow_of_twoE [of "unat (max_recv_wr c)"]) (use assms(5) in \<open>auto simp: unat_gt_0\<close>)
  have "(2 :: nat) ^ a < 2 ^ 22" using a(3) sz by (simp add: nat_less_iff)
  then have "a < 22" by (rule power_less_imp_less_exp [rotated]) simp
  then have c_a: "c_int (int (2 ^ a)) = 2 ^ a"
    using power_strict_increasing [of a 31 "2 :: int"] order_trans [of "- (2 ^ 31)" 0 "(2 :: int) ^ a"]
    by simp
  define m where "m = c_div (max (c_int (int (2 ^ b) * 2 ^ a)) 64) (2 ^ a)"
  have k: "set_rq_kernel dev c qp = Some (0, c', qp')" "uint (max_recv_wr c) \<le> 2 ^ log_max_qp_sz dev"
    using assms(1) by (auto simp: set_rq_size_def EINVAL_def split: if_splits)
  have run: "2 ^ a \<le> max_wqe_sz_rq dev \<and> c' = c \<and> rq qp' = (rq qp)\<lparr>wqe_cnt := m, wqe_shift := int a,
      max_gs := c_int (2 ^ a div 16 - wq_sig qp), max_post := m\<rparr>"
    using k(1) unfolding set_rq_kernel_def Let_def sz_eq
    unfolding a(1) b(1) option.map Option.bind.simps c_a seg_sizes m_def [symmetric]
    by (auto simp: EINVAL_def nat_power_eq split: if_splits)
  have "(2 :: int) ^ a \<le> 2 ^ 15" using run assms(7) by linarith
  then have a15: "a \<le> 15" by (rule power_le_imp_le_exp [rotated]) simp
  have "uint (max_recv_wr c) \<le> 2 ^ 15"
    using k(2) power_increasing [OF assms(6), of "2 :: int"] by linarith
  then have "unat (max_recv_wr c) \<le> 2 ^ 15" using of_nat_le_iff [of "unat (max_recv_wr c)" "2 ^ 15", where 'a = int] by simp
  then have "(2 :: nat) ^ b < 2 ^ 16" using b(3) by auto
  then have b16: "b < 16" by (rule power_less_imp_less_exp [rotated]) simp
  have m: "m = 2 ^ (if 6 \<le> a + b then b else 6 - a)" unfolding m_def using a15 b16 by (intro pow2_ring) simp
  define e where "e = (if 6 \<le> a + b then b else 6 - a)"
  have e: "6 \<le> a + e" "b \<le> e" "m = 2 ^ e" using m by (auto simp: e_def)
  have "m * 2 ^ a = 2 ^ (a + e)" by (simp add: e(3) power_add)
  then have ring: "2 ^ b \<le> m" "2 ^ 6 \<le> m * 2 ^ a"
    using e power_increasing [OF e(1), of "2 :: int"] by (auto intro: power_increasing)
  have "uint (max_recv_wr c) \<le> 2 ^ b"
    using b(2) of_nat_le_iff [of "unat (max_recv_wr c)" "2 ^ b", where 'a = int] by simp
  then have wr: "uint (max_recv_wr c) \<le> m" using ring(1) by linarith
  have "sz \<le> 2 ^ a" using a(2) sz by (simp add: nat_le_iff)
  then have "wq_sig qp + uint (max_recv_sge c) \<le> 2 ^ a div 16" by (simp add: sz_def)
  moreover have "(2 :: int) ^ a div 16 \<le> 2 ^ 15"
    using power_increasing [OF a15, of "2 :: int"] by simp
  ultimately have "uint (max_recv_sge c) \<le> 2 ^ a div 16 - wq_sig qp" "2 ^ a div 16 - wq_sig qp < 2 ^ 31"
    using assms(2) by auto
  then have gs: "uint (max_recv_sge c) \<le> c_int (2 ^ a div 16 - wq_sig qp)"
    using c_int_nonneg [of "2 ^ a div 16 - wq_sig qp"] uint_ge_0 [of "max_recv_sge c"] by linarith
  show ?thesis using run wr gs e(3) ring(2) by auto
qed

theorem set_rq_size_grants_witness:
  "\<exists>qp'. set_rq_size sample_caps (cap (sample_attr IB_QPT_RC 1 1 0)) True sample_qp None =
       Some (0, cap (sample_attr IB_QPT_RC 1 1 0), qp') \<and> 10 \<le> wqe_cnt (rq qp') \<and> 3 \<le> max_gs (rq qp')"
proof -
  let ?c = "cap (sample_attr IB_QPT_RC 1 1 0)"
  obtain qp' where "set_rq_size sample_caps ?c True sample_qp None = Some (0, ?c, qp')"
    by (simp add: set_rq_size_def set_rq_kernel_def sizing_defs)
  from set_rq_size_grants [OF this] this show ?thesis
    by (simp add: sample_attr_def sample_caps_def sample_qp_def)
qed

text \<open>
  A user command may pass a receive shift of 32: the range check lets it through, and the driver
  then shifts the integer 1 by its full width; a shift of 31 moves it into the sign bit.  Both are
  undefined in C.  Larger shifts are rejected and smaller ones are well defined.
\<close>

lemma set_rq_size_shift_undefined:
  assumes "uint (max_recv_wr c) \<le> 2 ^ log_max_qp_sz dev"
  shows "set_rq_size dev c True qp (Some u) = None \<longleftrightarrow>
    unat (rq_wqe_shift u) = 31 \<or> unat (rq_wqe_shift u) = 32"
proof -
  have "set_rq_size dev c True qp (Some u) = set_rq_user u c qp"
    using assms by (simp add: set_rq_size_def)
  then show ?thesis by (auto simp: set_rq_user_def Let_def)
qed

lemma set_rq_size_shift_undefined_witness:
  "set_rq_size sample_caps (cap (sample_attr IB_QPT_RC 1 1 0)) True sample_qp
     (Some \<lparr>sq_wqe_count = 64, rq_wqe_count = 64, rq_wqe_shift = 32\<rparr>) = None"
  using set_rq_size_shift_undefined [of "cap (sample_attr IB_QPT_RC 1 1 0)" sample_caps sample_qp
    "\<lparr>sq_wqe_count = 64, rq_wqe_count = 64, rq_wqe_shift = 32\<rparr>"]
  by (simp add: sample_attr_def sample_caps_def)

end
