(* ===== verification/Mlx5Srq.thy ===== *)
theory Mlx5Srq
  imports Prelude
begin

text \<open>
  The shared receive queue of the mlx5 driver, \<^verbatim>\<open>drivers/infiniband/hw/mlx5/srq.c\<close>: sizing in
  \<^verbatim>\<open>mlx5_ib_create_srq\<close>, the ring set up by \<^verbatim>\<open>create_srq_kernel\<close>, \<^verbatim>\<open>mlx5_ib_post_srq_recv\<close> and
  \<^verbatim>\<open>mlx5_ib_free_srq_wqe\<close>.  Free receive entries form a list linked through the ring itself
  (\<^verbatim>\<open>next_wqe_index\<close>); the abstract view is a queue of entry numbers, and every operation is
  shown to refine the queue operation.  Ring accesses outside the ring are \<^const>\<open>None\<close>.
\<close>

unbundle bit_operations_syntax

section \<open>State\<close>

record mlx5_wqe_data_seg =
  byte_count :: u32
  lkey :: u32
  addr :: u64

record srq_wqe =
  next_wqe_index :: u16
  scat :: "mlx5_wqe_data_seg list"

record ib_sge =
  sge_addr :: u64
  sge_length :: u32
  sge_lkey :: u32

record ib_recv_wr =
  recv_wr_id :: u64
  sg_list :: "ib_sge list"

record mlx5_ib_srq =
  wqes :: "srq_wqe list"
  srq_wrid :: "u64 list"
  srq_head :: nat
  srq_tail :: nat
  wqe_ctr :: u16
  srq_max_gs :: nat
  max_avail_gather :: nat
  srq_db :: u32

definition MLX5_INVALID_LKEY :: u32 where "MLX5_INVALID_LKEY = 0x100"

definition sizeof_srq_next_seg :: nat where "sizeof_srq_next_seg = 16"

section \<open>Creation\<close>

text \<open>
  The sizes computed by \<^verbatim>\<open>mlx5_ib_create_srq\<close>: number of entries, scatter entries the hardware
  can read, and the shift of the entry size.  Sizes are \<^verbatim>\<open>size_t\<close>, the number of entries an \<^verbatim>\<open>int\<close>.
\<close>

definition srq_sizes :: "nat \<Rightarrow> u32 \<Rightarrow> u32 \<Rightarrow> int + int \<times> nat \<times> nat" where
  "srq_sizes log_max_srq_sz max_wr max_sge =
     (let max_srq_wqes = push_bit log_max_srq_sz (1 :: u32) in
      if max_wr \<ge> max_srq_wqes then Inl (- EINVAL)
      else case roundup_pow_of_two (unat (max_wr + 1)) of None \<Rightarrow> Inl (- EINVAL) | Some mx \<Rightarrow>
        let mx = c_int (int mx); gs = unat max_sge; desc = sizeof_srq_next_seg + gs * 16 in
        if desc = 0 \<or> gs > desc then Inl (- EINVAL)
        else case roundup_pow_of_two desc of None \<Rightarrow> Inl (- EINVAL) | Some d \<Rightarrow>
          let d = max 32 d in
          if d < sizeof_srq_next_seg then Inl (- EINVAL)
          else if mx * int d mod 2 ^ 64 < int d then Inl (- EINVAL)
          else Inr (mx, (d - sizeof_srq_next_seg) div 16, ilog2 d))"

text \<open>The ring of \<^verbatim>\<open>create_srq_kernel\<close>; entry contents other than the link are arbitrary memory.\<close>

definition create_srq_kernel :: "nat \<Rightarrow> nat \<Rightarrow> nat \<Rightarrow> mlx5_wqe_data_seg list list \<Rightarrow> u64 list \<Rightarrow> mlx5_ib_srq" where
  "create_srq_kernel mx gs gather garbage ids =
     \<lparr>wqes = map (\<lambda>i. \<lparr>next_wqe_index = of_nat (i + 1) AND of_nat (mx - 1), scat = garbage ! i\<rparr>) [0..<mx],
      srq_wrid = ids, srq_head = 0, srq_tail = mx - 1, wqe_ctr = 0, srq_max_gs = gs,
      max_avail_gather = gather, srq_db = 0\<rparr>"

section \<open>Operations\<close>

definition get_wqe :: "mlx5_ib_srq \<Rightarrow> nat \<Rightarrow> srq_wqe option" where
  "get_wqe srq n = (if n < length (wqes srq) then Some (wqes srq ! n) else None)"

definition mlx5_ib_free_srq_wqe :: "mlx5_ib_srq \<Rightarrow> nat \<Rightarrow> mlx5_ib_srq option" where
  "mlx5_ib_free_srq_wqe srq wqe_index = do {
     next \<leftarrow> get_wqe srq (srq_tail srq);
     Some (srq\<lparr>wqes := (wqes srq)[srq_tail srq := next\<lparr>next_wqe_index := of_nat wqe_index\<rparr>],
       srq_tail := wqe_index\<rparr>)
   }"

definition data_seg :: "ib_sge \<Rightarrow> mlx5_wqe_data_seg" where
  "data_seg sge = \<lparr>byte_count = sge_length sge, lkey = sge_lkey sge, addr = sge_addr sge\<rparr>"

text \<open>Scatter list of an entry: the request's segments, then a terminator if there is room for one.\<close>

definition fill_scat :: "nat \<Rightarrow> ib_sge list \<Rightarrow> mlx5_wqe_data_seg list \<Rightarrow> mlx5_wqe_data_seg list option" where
  "fill_scat gather sges old =
     (if length sges > length old \<or> length sges < gather \<and> length sges \<ge> length old then None
      else let s = map data_seg sges @ drop (length sges) old in
        Some (if length sges < gather
          then s[length sges := \<lparr>byte_count = 0, lkey = MLX5_INVALID_LKEY, addr = 0\<rparr>] else s))"

definition post_srq_one :: "mlx5_ib_srq \<Rightarrow> ib_recv_wr \<Rightarrow> mlx5_ib_srq option" where
  "post_srq_one srq wr = (if \<not> srq_head srq < length (srq_wrid srq) then None else do {
     next \<leftarrow> get_wqe srq (srq_head srq);
     s \<leftarrow> fill_scat (max_avail_gather srq) (sg_list wr) (scat next);
     Some (srq\<lparr>srq_wrid := (srq_wrid srq)[srq_head srq := recv_wr_id wr],
       wqes := (wqes srq)[srq_head srq := next\<lparr>scat := s\<rparr>],
       srq_head := unat (next_wqe_index next)\<rparr>)
   })"

text \<open>The result is the error, the requests that were not posted, and the number that were.\<close>

fun post_srq_loop :: "mlx5_ib_srq \<Rightarrow> nat \<Rightarrow> ib_recv_wr list \<Rightarrow> (int \<times> ib_recv_wr list \<times> nat \<times> mlx5_ib_srq) option" where
  "post_srq_loop srq nreq [] = Some (0, [], nreq, srq)"
| "post_srq_loop srq nreq (wr # ws) =
     (if length (sg_list wr) > srq_max_gs srq then Some (- EINVAL, wr # ws, nreq, srq)
      else if srq_head srq = srq_tail srq then Some (- ENOMEM, wr # ws, nreq, srq)
      else do { srq' \<leftarrow> post_srq_one srq wr; post_srq_loop srq' (nreq + 1) ws })"

definition mlx5_ib_post_srq_recv :: "bool \<Rightarrow> mlx5_ib_srq \<Rightarrow> ib_recv_wr list \<Rightarrow> (int \<times> ib_recv_wr list \<times> mlx5_ib_srq) option" where
  "mlx5_ib_post_srq_recv internal_error srq wrs =
     (if internal_error then Some (- EIO, wrs, srq)
      else do {
        (err, bad_wr, nreq, srq) \<leftarrow> post_srq_loop srq 0 wrs;
        Some (err, bad_wr, if nreq \<noteq> 0
          then (let ctr = wqe_ctr srq + of_nat nreq in srq\<lparr>wqe_ctr := ctr, srq_db := ucast ctr\<rparr>) else srq)
      })"

section \<open>The queue of free entries\<close>

text \<open>
  \<open>free_chain srq q\<close>: following the links from the head visits exactly the entries \<open>q\<close> and ends at
  the tail.
\<close>

fun linked :: "srq_wqe list \<Rightarrow> nat list \<Rightarrow> bool" where
  "linked ws (a # b # q) = (unat (next_wqe_index (ws ! a)) = b \<and> linked ws (b # q))"
| "linked ws _ = True"

definition free_chain :: "mlx5_ib_srq \<Rightarrow> nat list \<Rightarrow> bool" where
  "free_chain srq q = (q \<noteq> [] \<and> hd q = srq_head srq \<and> last q = srq_tail srq \<and> distinct q \<and>
     (\<forall>i \<in> set q. i < length (wqes srq)) \<and> linked (wqes srq) q)"

text \<open>Everything a posted request needs of its entry, and the ring indices fit their 16-bit field.\<close>

definition srq_wf :: "mlx5_ib_srq \<Rightarrow> bool" where
  "srq_wf srq = (length (wqes srq) \<le> 2 ^ 16 \<and> length (srq_wrid srq) = length (wqes srq) \<and>
     srq_max_gs srq \<le> max_avail_gather srq \<and>
     (\<forall>w \<in> set (wqes srq). length (scat w) = max_avail_gather srq))"

lemma next_update:
  "i \<noteq> a \<or> next_wqe_index w = next_wqe_index (ws ! i) \<Longrightarrow> a < length ws \<Longrightarrow>
     next_wqe_index (ws[i := w] ! a) = next_wqe_index (ws ! a)"
  by (cases "i = a") auto

lemma linked_update:
  "i \<notin> set (butlast q) \<or> next_wqe_index w = next_wqe_index (ws ! i) \<Longrightarrow> \<forall>j \<in> set q. j < length ws \<Longrightarrow>
     linked (ws[i := w]) q = linked ws q"
  by (induction ws q rule: linked.induct) (auto simp: next_update)

lemma linked_snoc:
  "q \<noteq> [] \<Longrightarrow> linked ws (q @ [b]) = (linked ws q \<and> unat (next_wqe_index (ws ! last q)) = b)"
  by (induction ws q rule: linked.induct) auto

lemma distinct_butlast_last: "distinct q \<Longrightarrow> q \<noteq> [] \<Longrightarrow> last q \<notin> set (butlast q)"
  by (cases q rule: rev_cases) auto

lemma linked_tl: "linked ws (a # q) \<Longrightarrow> linked ws q"
  by (cases q) auto

lemma linked_upt:
  assumes "\<And>i. a \<le> i \<Longrightarrow> i + 1 < b \<Longrightarrow> unat (next_wqe_index (ws ! i)) = i + 1"
  shows "linked ws [a..<b]"
  using assms
proof (induction "b - a" arbitrary: a)
  case (Suc n)
  then have "linked ws [a + 1..<b]" by simp
  moreover have "[a..<b] = a # [a + 1..<b]" using Suc.hyps(2) by (simp add: upt_conv_Cons)
  moreover have "[a + 1..<b] = (if a + 1 < b then (a + 1) # [a + 2..<b] else [])"
    by (simp add: upt_conv_Cons)
  ultimately show ?case using Suc.prems [of a] by (auto split: if_splits)
qed simp

lemma free_chain_post:
  assumes "free_chain srq (a # q)" "q \<noteq> []" "srq_wf srq" "length (sg_list wr) \<le> srq_max_gs srq"
  shows "\<exists>srq'. post_srq_one srq wr = Some srq' \<and> free_chain srq' q \<and> srq_wf srq' \<and>
    srq_wrid srq' = (srq_wrid srq)[a := recv_wr_id wr] \<and> length (wqes srq') = length (wqes srq) \<and>
    take (length (sg_list wr)) (scat (wqes srq' ! a)) = map data_seg (sg_list wr)"
proof -
  have a: "srq_head srq = a" "a < length (wqes srq)" "a \<notin> set q"
    and q: "\<forall>i\<in>set q. i < length (wqes srq)" "last q = srq_tail srq" "distinct q"
    and l: "linked (wqes srq) (a # q)"
    using assms(1,2) by (auto simp: free_chain_def)
  have len: "length (scat (wqes srq ! a)) = max_avail_gather srq"
    using assms(3) a(2) by (simp add: srq_wf_def)
  obtain b r where "q = b # r" using assms(2) by (cases q) auto
  with l have hd: "hd q = unat (next_wqe_index (wqes srq ! a))" by auto
  obtain s where s: "fill_scat (max_avail_gather srq) (sg_list wr) (scat (wqes srq ! a)) = Some s"
      "length s = max_avail_gather srq" "take (length (sg_list wr)) s = map data_seg (sg_list wr)"
    using assms(3,4) len by (auto simp: fill_scat_def srq_wf_def Let_def)
  have "post_srq_one srq wr = Some (srq\<lparr>srq_wrid := (srq_wrid srq)[a := recv_wr_id wr],
      wqes := (wqes srq)[a := (wqes srq ! a)\<lparr>scat := s\<rparr>],
      srq_head := unat (next_wqe_index (wqes srq ! a))\<rparr>)"
    using a s assms(3) by (simp add: post_srq_one_def get_wqe_def srq_wf_def)
  moreover have "linked ((wqes srq)[a := (wqes srq ! a)\<lparr>scat := s\<rparr>]) q"
    using linked_update [of a q "(wqes srq ! a)\<lparr>scat := s\<rparr>" "wqes srq"] l q(1) linked_tl by simp
  moreover have "\<forall>w \<in> set ((wqes srq)[a := (wqes srq ! a)\<lparr>scat := s\<rparr>]). length (scat w) = max_avail_gather srq"
    using assms(3) s(2) by (auto simp: srq_wf_def dest!: subsetD [OF set_update_subset_insert])
  ultimately show ?thesis
    using assms(2,3) a q hd s(3) by (simp add: free_chain_def srq_wf_def)
qed

lemma free_chain_free:
  assumes "free_chain srq q" "srq_wf srq" "i < length (wqes srq)" "i \<notin> set q"
  shows "\<exists>srq'. mlx5_ib_free_srq_wqe srq i = Some srq' \<and> free_chain srq' (q @ [i]) \<and> srq_wf srq' \<and>
    length (wqes srq') = length (wqes srq) \<and> srq_wrid srq' = srq_wrid srq"
proof -
  define t where "t = srq_tail srq"
  define w where "w = (wqes srq ! t)\<lparr>next_wqe_index := of_nat i\<rparr>"
  have q: "q \<noteq> []" "hd q = srq_head srq" "last q = t" "distinct q" "\<forall>i\<in>set q. i < length (wqes srq)"
    "linked (wqes srq) q"
    using assms(1) by (simp_all add: free_chain_def t_def)
  then have t: "t < length (wqes srq)" "t \<notin> set (butlast q)"
    using distinct_butlast_last [of q] by auto
  have i: "unat (of_nat i :: u16) = i" using assms(2,3) by (simp add: srq_wf_def unat_of_nat)
  have "linked ((wqes srq)[t := w]) (q @ [i])"
    using linked_snoc [OF q(1)] linked_update [of t q w "wqes srq"] q t i by (simp add: w_def)
  moreover have "\<forall>w \<in> set ((wqes srq)[t := w]). length (scat w) = max_avail_gather srq"
    using assms(2) t(1) by (auto simp: srq_wf_def w_def dest!: subsetD [OF set_update_subset_insert])
  moreover have "mlx5_ib_free_srq_wqe srq i = Some (srq\<lparr>wqes := (wqes srq)[t := w], srq_tail := i\<rparr>)"
    using t(1) by (simp add: mlx5_ib_free_srq_wqe_def get_wqe_def t_def w_def)
  ultimately show ?thesis
    using assms q by (simp add: free_chain_def srq_wf_def)
qed

lemma create_srq_chain:
  assumes "mx = 2 ^ k" "k \<le> 16" "gs \<le> gather" "length ids = mx"
    "length garbage = mx" "\<forall>g \<in> set garbage. length g = gather"
  shows "free_chain (create_srq_kernel mx gs gather garbage ids) [0..<mx] \<and>
    srq_wf (create_srq_kernel mx gs gather garbage ids)"
proof -
  have mx: "0 < mx" "mx \<le> 2 ^ 16"
    using assms(1,2) power_increasing [of k 16 "2 :: nat"] by simp_all
  have "unat (of_nat (i + 1) AND of_nat (mx - 1) :: u16) = i + 1" if "i + 1 < mx" for i
  proof -
    have "(of_nat (mx - 1) :: u16) = mask k" 
      using assms(1) by (simp add: mask_eq_exp_minus_1 of_nat_diff)
    then have "of_nat (i + 1) AND of_nat (mx - 1) = take_bit k (of_nat (i + 1) :: u16)"
      by (simp add: take_bit_eq_mask)
    also have "unat \<dots> = take_bit k (i + 1)"
      using that mx unat_of_nat [of "i + 1", where 'a = 16] by (simp add: unsigned_take_bit_eq del: of_nat_Suc)
    finally show ?thesis using that assms(1) by (simp add: take_bit_nat_eq_self)
  qed
  then have "linked (wqes (create_srq_kernel mx gs gather garbage ids)) [0..<mx]"
    by (intro linked_upt) (simp add: create_srq_kernel_def)
  with mx assms show ?thesis
    by (auto simp: free_chain_def srq_wf_def create_srq_kernel_def)
qed

section \<open>The contract of a pool of entries\<close>

text \<open>
  What the completion path relies on: an entry that is not in the pool can be given back, and joins
  the pool at its end.
\<close>

primrec release_all :: "('s \<Rightarrow> nat \<Rightarrow> 's option) \<Rightarrow> 's \<Rightarrow> nat list \<Rightarrow> 's option" where
  "release_all release s [] = Some s"
| "release_all release s (i # is) = do { s' \<leftarrow> release s i; release_all release s' is }"

locale wqe_pool =
  fixes pool :: "'s \<Rightarrow> nat list \<Rightarrow> bool"
    and capacity :: "'s \<Rightarrow> nat"
    and release :: "'s \<Rightarrow> nat \<Rightarrow> 's option"
  assumes release_law: "pool s q \<Longrightarrow> i < capacity s \<Longrightarrow> i \<notin> set q \<Longrightarrow>
      \<exists>s'. release s i = Some s' \<and> pool s' (q @ [i]) \<and> capacity s' = capacity s"
begin

lemma release_all_pool:
  assumes "pool s q" "distinct (q @ is)" "\<forall>i \<in> set is. i < capacity s"
  shows "\<exists>s'. release_all release s is = Some s' \<and> pool s' (q @ is) \<and> capacity s' = capacity s"
  using assms
proof (induction "is" arbitrary: s q)
  case (Cons i "is")
  then obtain s' where s': "release s i = Some s'" "pool s' (q @ [i])" "capacity s' = capacity s"
    using release_law [of s q i] by auto
  with Cons.prems Cons.IH [of s' "q @ [i]"] show ?case by auto
qed simp

end

definition srq_pool :: "mlx5_ib_srq \<Rightarrow> nat list \<Rightarrow> bool" where
  "srq_pool srq q = (free_chain srq q \<and> srq_wf srq)"

interpretation srq_pool: wqe_pool srq_pool "\<lambda>srq. length (wqes srq)" mlx5_ib_free_srq_wqe
proof
  fix srq q i
  assume "srq_pool srq q" "i < length (wqes srq)" "i \<notin> set q"
  then show "\<exists>s'. mlx5_ib_free_srq_wqe srq i = Some s' \<and> srq_pool s' (q @ [i]) \<and>
      length (wqes s') = length (wqes srq)"
    using free_chain_free [of srq q i] by (auto simp: srq_pool_def)
qed

section \<open>Properties\<close>

lemma post_srq_one_keeps:
  "post_srq_one srq wr = Some srq' \<Longrightarrow> srq_max_gs srq' = srq_max_gs srq \<and> wqe_ctr srq' = wqe_ctr srq"
  by (auto simp: post_srq_one_def split: if_splits bind_splits)

lemma post_srq_loop_spec:
  assumes "free_chain srq q" "srq_wf srq" "\<forall>wr \<in> set wrs. length (sg_list wr) \<le> srq_max_gs srq"
  shows "\<exists>srq'. post_srq_loop srq n wrs = Some (if length wrs < length q then 0 else - ENOMEM,
      drop (length q - 1) wrs, n + min (length wrs) (length q - 1), srq') \<and>
    free_chain srq' (drop (min (length wrs) (length q - 1)) q) \<and> srq_wf srq' \<and>
    wqe_ctr srq' = wqe_ctr srq \<and> length (wqes srq') = length (wqes srq) \<and>
    (\<forall>i < min (length wrs) (length q - 1). srq_wrid srq' ! (q ! i) = recv_wr_id (wrs ! i)) \<and>
    (\<forall>j. j \<notin> set (take (min (length wrs) (length q - 1)) q) \<longrightarrow> srq_wrid srq' ! j = srq_wrid srq ! j)"
  using assms
proof (induction wrs arbitrary: srq q n)
  case Nil
  then show ?case by (cases q) (auto simp: free_chain_def)
next
  case (Cons wr wrs)
  have ne: "q \<noteq> []" "distinct q" "hd q = srq_head srq" "last q = srq_tail srq"
      "\<forall>i \<in> set q. i < length (wqes srq)"
    using Cons.prems(1) by (simp_all add: free_chain_def)
  then obtain a r where q: "q = a # r" by (cases q) auto
  show ?case
  proof (cases "r = []")
    case True
    then show ?thesis using Cons.prems ne q by auto
  next
    case False
    then have ht: "srq_head srq \<noteq> srq_tail srq" using ne q last_in_set [of r] by auto
    obtain s where s: "post_srq_one srq wr = Some s" "free_chain s r" "srq_wf s"
        "srq_wrid s = (srq_wrid srq)[a := recv_wr_id wr]" "length (wqes s) = length (wqes srq)"
      using free_chain_post [of srq a r wr] Cons.prems False q by auto
    define m where "m = min (length wrs) (length r - 1)"
    have m: "min (length (wr # wrs)) (length q - 1) = Suc m"
        "drop (length q - 1) (wr # wrs) = drop (length r - 1) wrs"
      using False by (cases r; auto simp: q m_def drop_Cons' min_def)+
    note keeps = post_srq_one_keeps [OF s(1)]
    then obtain s' where s': "post_srq_loop s (n + 1) wrs =
          Some (if length wrs < length r then 0 else - ENOMEM, drop (length r - 1) wrs, n + 1 + m, s')"
        "free_chain s' (drop m r)" "srq_wf s'" "wqe_ctr s' = wqe_ctr s" "length (wqes s') = length (wqes s)"
        "\<forall>i < m. srq_wrid s' ! (r ! i) = recv_wr_id (wrs ! i)"
        "\<forall>j. j \<notin> set (take m r) \<longrightarrow> srq_wrid s' ! j = srq_wrid s ! j"
      using Cons.IH [OF s(2,3), of "n + 1"] Cons.prems(3) unfolding m_def by auto
    have "srq_wrid s' ! a = recv_wr_id wr"
      using s'(7) s(4) ne(2,5) q Cons.prems(2) by (auto simp: srq_wf_def dest: in_set_takeD)
    then have "\<forall>i < Suc m. srq_wrid s' ! (q ! i) = recv_wr_id ((wr # wrs) ! i)"
      using s'(6) by (auto simp: q less_Suc_eq_0_disj)
    moreover have "\<forall>j. j \<notin> set (take (Suc m) q) \<longrightarrow> srq_wrid s' ! j = srq_wrid srq ! j"
      using s'(7) s(4) by (simp add: q)
    moreover have "post_srq_loop srq n (wr # wrs) =
        Some (if length (wr # wrs) < length q then 0 else - ENOMEM, drop (length r - 1) wrs, n + Suc m, s')"
      using s(1) s'(1) ht Cons.prems(3) q by simp
    ultimately show ?thesis
      unfolding m using s'(2-5) s(5) keeps q by (intro exI [of _ s']) simp
  qed
qed

text \<open>
  Posting receive requests to a shared receive queue dequeues entries from the queue of free
  entries: as many requests are posted as there are free entries, save the last one, which always
  stays; the others are handed back with \<^verbatim>\<open>-ENOMEM\<close>.  The work-request identifiers are recorded under the
  entries used, and no other entry's identifier changes.
\<close>

theorem post_srq_recv_dequeues:
  assumes "srq_pool srq q" and "\<forall>wr \<in> set wrs. length (sg_list wr) \<le> srq_max_gs srq"
  shows "\<exists>srq'. mlx5_ib_post_srq_recv False srq wrs =
      Some (if length wrs < length q then 0 else - ENOMEM, drop (length q - 1) wrs, srq') \<and>
    srq_pool srq' (drop (min (length wrs) (length q - 1)) q) \<and>
    wqe_ctr srq' = wqe_ctr srq + of_nat (min (length wrs) (length q - 1)) \<and>
    (\<forall>i < min (length wrs) (length q - 1). srq_wrid srq' ! (q ! i) = recv_wr_id (wrs ! i)) \<and>
    (\<forall>j. j \<notin> set (take (min (length wrs) (length q - 1)) q) \<longrightarrow> srq_wrid srq' ! j = srq_wrid srq ! j)"
proof -
  define n where "n = min (length wrs) (length q - 1)"
  obtain s where s: "post_srq_loop srq 0 wrs = Some (if length wrs < length q then 0 else - ENOMEM,
        drop (length q - 1) wrs, n, s)" "free_chain s (drop n q)" "srq_wf s" "wqe_ctr s = wqe_ctr srq"
      "\<forall>i < n. srq_wrid s ! (q ! i) = recv_wr_id (wrs ! i)"
      "\<forall>j. j \<notin> set (take n q) \<longrightarrow> srq_wrid s ! j = srq_wrid srq ! j"
    using post_srq_loop_spec [of srq q wrs 0] assms by (auto simp: srq_pool_def n_def)
  have "free_chain (s\<lparr>wqe_ctr := c, srq_db := d\<rparr>) (drop n q)" "srq_wf (s\<lparr>wqe_ctr := c, srq_db := d\<rparr>)" for c d
    using s(2,3) by (simp_all add: free_chain_def srq_wf_def)
  then show ?thesis
    using s unfolding n_def [symmetric]
    by (auto simp: mlx5_ib_post_srq_recv_def srq_pool_def Let_def)
qed

definition sample_srq :: mlx5_ib_srq where
  "sample_srq = create_srq_kernel 4 1 1 (replicate 4 [\<lparr>byte_count = 0, lkey = 0, addr = 0\<rparr>]) [0, 0, 0, 0]"

definition sample_recv :: "u64 \<Rightarrow> ib_recv_wr" where
  "sample_recv i = \<lparr>recv_wr_id = i, sg_list = [\<lparr>sge_addr = 4096, sge_length = 64, sge_lkey = 7\<rparr>]\<rparr>"

lemma sample_srq_pool: "srq_pool sample_srq [0, 1, 2, 3]"
proof -
  have "[0..<4] = [0, 1, 2, 3 :: nat]" by (simp add: upt_rec)
  then show ?thesis
    using create_srq_chain [of 4 2 1 1 "[0, 0, 0, 0]" "replicate 4 [\<lparr>byte_count = 0, lkey = 0, addr = 0\<rparr>]"]
    by (simp add: sample_srq_def srq_pool_def)
qed

theorem post_srq_recv_dequeues_witness:
  "\<exists>srq'. mlx5_ib_post_srq_recv False sample_srq (map sample_recv [10, 11, 12, 13]) =
      Some (- ENOMEM, [sample_recv 13], srq') \<and> srq_pool srq' [3] \<and> srq_wrid srq' ! 1 = 11"
proof -
  have "srq_max_gs sample_srq = 1" by (simp add: sample_srq_def create_srq_kernel_def)
  then have ok: "\<forall>wr \<in> set (map sample_recv [10, 11, 12, 13]). length (sg_list wr) \<le> srq_max_gs sample_srq"
    by (simp add: sample_recv_def)
  obtain srq' where "mlx5_ib_post_srq_recv False sample_srq (map sample_recv [10, 11, 12, 13]) =
        Some (- ENOMEM, [sample_recv 13], srq')" "srq_pool srq' [3]"
      "\<forall>i < 3. srq_wrid srq' ! ([0, 1, 2, 3] ! i) = recv_wr_id (map sample_recv [10, 11, 12, 13] ! i)"
    using post_srq_recv_dequeues [OF sample_srq_pool ok] by (auto simp: numeral_3_eq_3)
  then show ?thesis by (auto simp: sample_recv_def dest!: spec [of _ 1])
qed

text \<open>
  The life of a queue: \<open>srq_run n srq posted\<close> holds when the queue can be reached from its creation
  with \<open>n\<close> entries by posting requests and completing posted entries, in any order; \<open>posted\<close> are the
  entries the hardware owns.
\<close>

inductive srq_run :: "nat \<Rightarrow> mlx5_ib_srq \<Rightarrow> nat list \<Rightarrow> bool" for n where
  create: "n = 2 ^ k \<Longrightarrow> k \<le> 16 \<Longrightarrow> gs \<le> gather \<Longrightarrow> length ids = n \<Longrightarrow> length garbage = n \<Longrightarrow>
     \<forall>g \<in> set garbage. length g = gather \<Longrightarrow> srq_run n (create_srq_kernel n gs gather garbage ids) []"
| post: "srq_run n srq posted \<Longrightarrow> length (sg_list wr) \<le> srq_max_gs srq \<Longrightarrow>
     mlx5_ib_post_srq_recv False srq [wr] = Some (0, [], srq') \<Longrightarrow> srq_run n srq' (posted @ [srq_head srq])"
| complete: "srq_run n srq posted \<Longrightarrow> i \<in> set posted \<Longrightarrow> mlx5_ib_free_srq_wqe srq i = Some srq' \<Longrightarrow>
     srq_run n srq' (remove1 i posted)"

lemma srq_run_partition:
  assumes "srq_run n srq posted"
  shows "\<exists>q. srq_pool srq q \<and> length (wqes srq) = n \<and> distinct (q @ posted) \<and> set (q @ posted) = {..<n}"
  using assms
proof induction
  case (create k gs gather ids garbage)
  then have "srq_pool (create_srq_kernel n gs gather garbage ids) [0..<n]"
    using create_srq_chain [of n k gs gather ids garbage] by (simp add: srq_pool_def)
  moreover have "length (wqes (create_srq_kernel n gs gather garbage ids)) = n"
    by (simp add: create_srq_kernel_def)
  ultimately show ?case by (intro exI [of _ "[0..<n]"]) auto
next
  case (post srq posted wr srq')
  then obtain q where q: "srq_pool srq q" "length (wqes srq) = n" "distinct (q @ posted)" "set (q @ posted) = {..<n}"
    by blast
  then have "q \<noteq> []" "hd q = srq_head srq" by (simp_all add: srq_pool_def free_chain_def)
  then obtain r where r: "q = srq_head srq # r" by (cases q) auto
  obtain s where s: "post_srq_loop srq 0 [wr] = Some (if 1 < length q then 0 else - ENOMEM,
        drop (length q - 1) [wr], min 1 (length q - 1), s)" "length (wqes s) = length (wqes srq)"
      "free_chain s (drop (min 1 (length q - 1)) q)" "srq_wf s"
    using post_srq_loop_spec [of srq q "[wr]" 0] post.hyps(2) q(1) by (auto simp: srq_pool_def)
  with post.hyps(3) r have "r \<noteq> []" by (auto simp: mlx5_ib_post_srq_recv_def ENOMEM_def)
  with s post.hyps(3) r have "srq_pool srq' r" "length (wqes srq') = n"
    using q(2) by (auto simp: mlx5_ib_post_srq_recv_def srq_pool_def free_chain_def srq_wf_def Let_def Suc_le_eq
        split: if_splits)
  with q r show ?case by (intro exI [of _ r]) auto
next
  case (complete srq posted i srq')
  then obtain q where q: "srq_pool srq q" "length (wqes srq) = n" "distinct (q @ posted)" "set (q @ posted) = {..<n}"
    by blast
  with complete.hyps(2) have "i < n" "i \<notin> set q" by auto
  with q complete.hyps(3) srq_pool.release_law [of srq q i]
  have "srq_pool srq' (q @ [i])" "length (wqes srq') = n" by auto
  with q complete.hyps(2) show ?case
    by (intro exI [of _ "q @ [i]"]) (auto simp: distinct_remove1)
qed

text \<open>
  C31. Every reachable shared receive queue hands an entry to the hardware at most once: the posted
  entries are pairwise different and inside the ring, at least one entry is always free, the next
  entry to be used is not posted, and a request is refused exactly when all but one are posted.
\<close>

theorem srq_run_safe:
  assumes "srq_run n srq posted"
  shows "distinct posted \<and> set posted \<subseteq> {..<n} \<and> length posted < n \<and> srq_head srq < n \<and>
    srq_head srq \<notin> set posted \<and> (srq_head srq = srq_tail srq \<longleftrightarrow> length posted = n - 1)"
proof -
  obtain q where q: "srq_pool srq q" "distinct (q @ posted)" "set (q @ posted) = {..<n}"
    using srq_run_partition [OF assms] by blast
  then have c: "q \<noteq> []" "hd q = srq_head srq" "last q = srq_tail srq" by (simp_all add: srq_pool_def free_chain_def)
  then obtain a r where r: "q = a # r" by (cases q) auto
  have "length q + length posted = n"
    using distinct_card [OF q(2)] q(3) by simp
  moreover have "srq_head srq = srq_tail srq \<longleftrightarrow> r = []"
    using c r q(2) last_in_set [of r] by (cases "r = []") auto
  moreover have "srq_head srq \<in> set q" using c r by simp
  moreover have "srq_head srq < n" using calculation(3) q(3) by auto
  ultimately show ?thesis using q r by auto
qed

theorem srq_run_safe_witness:
  "\<exists>srq. srq_run 4 srq [] \<and> srq_head srq < 4"
proof -
  have run: "srq_run 4 sample_srq []"
    unfolding sample_srq_def by (rule srq_run.create [of _ 2]) simp_all
  from srq_run_safe [OF run] run show ?thesis by blast
qed

lemma srq_sizes_ring:
  assumes "srq_sizes lg max_wr max_sge = Inr (mx, gather, shift)" "lg \<le> 16"
  obtains k where "mx = 2 ^ k" "k \<le> lg" "uint max_wr < mx" "unat max_sge \<le> gather"
    "2 ^ shift = 16 * (gather + 1)"
proof -
  have "(2 :: nat) ^ lg \<le> 2 ^ 16" using assms(2) by (intro power_increasing) auto
  then have lg: "unat (push_bit lg 1 :: u32) = 2 ^ lg"
    using unat_of_nat [of "2 ^ lg", where 'a = 32] by simp
  have lt: "unat max_wr < 2 ^ lg"
    using assms(1) lg by (simp add: srq_sizes_def Let_def word_le_nat_alt split: if_splits)
  then have suc: "unat (max_wr + 1) = unat max_wr + 1"
    using \<open>2 ^ lg \<le> 2 ^ 16\<close> by (simp add: unat_word_ariths)
  then obtain k where k: "roundup_pow_of_two (unat (max_wr + 1)) = Some (2 ^ k)" "unat max_wr + 1 \<le> 2 ^ k"
      "2 ^ k < 2 * (unat max_wr + 1) \<or> unat max_wr + 1 = 1 \<and> k = 0"
    using roundup_pow_of_twoE [of "unat (max_wr + 1)"] by auto
  have "k \<le> lg"
  proof (rule ccontr)
    assume "\<not> k \<le> lg"
    then have "(2 :: nat) ^ Suc lg \<le> 2 ^ k" by (intro power_increasing) auto
    with k(3) lt \<open>\<not> k \<le> lg\<close> show False by auto
  qed
  then have c: "c_int (2 ^ k) = 2 ^ k"
    using assms(2) power_strict_increasing [of k 31 "2 :: int"] by (intro c_int_nonneg) auto
  obtain d where d: "roundup_pow_of_two (16 + unat max_sge * 16) = Some (2 ^ d)" "16 + unat max_sge * 16 \<le> 2 ^ d"
    using roundup_pow_of_twoE [of "16 + unat max_sge * 16"] by auto
  define e where "e = max 5 d"
  have e: "max 32 (2 ^ d) = (2 :: nat) ^ e"
    using power_increasing [of d 4 "2 :: nat"] power_increasing [of 5 d "2 :: nat"]
    by (cases "5 \<le> d") (auto simp: e_def max_def)
  have d16: "(16 :: nat) dvd 2 ^ e" using le_imp_power_dvd [of 4 e "2 :: nat"] by (simp add: e_def)
  define g where "g = (2 ^ e - 16 :: nat) div 16"
  have sh: "16 * (g + 1) = (2 :: nat) ^ e"
    unfolding g_def using d16
    using power_increasing [of 5 e "2 :: nat"] by (auto simp: e_def elim!: dvdE)
  have "mx = 2 ^ k" "gather = g" "shift = e"
    using assms(1) k(1) d(1) e c by (auto simp: srq_sizes_def sizeof_srq_next_seg_def g_def Let_def split: if_splits)
  moreover have "16 * (unat max_sge + 1) \<le> 2 ^ e" using d(2) by (simp flip: e add: le_max_iff_disj)
  then have "unat max_sge \<le> g" by (simp flip: sh)
  moreover have "int (unat max_wr) < int (2 ^ k)" using k(2) by linarith
  ultimately show ?thesis using that [of k] \<open>k \<le> lg\<close> sh by simp
qed

text \<open>
  A shared receive queue sized by the driver holds the requested number of receive requests with
  the requested scatter entries: created with those sizes it starts a run of the queue, every entry
  of which is free.
\<close>

theorem create_srq_run:
  assumes "srq_sizes lg max_wr max_sge = Inr (mx, gather, shift)" and "lg \<le> 16"
    and "length ids = nat mx" and "length garbage = nat mx" and "\<forall>g \<in> set garbage. length g = gather"
  shows "srq_run (nat mx) (create_srq_kernel (nat mx) (unat max_sge) gather garbage ids) [] \<and>
    uint max_wr < mx \<and> mx \<le> 2 ^ lg \<and> 2 ^ shift = sizeof_srq_next_seg + gather * 16"
proof -
  obtain k where k: "mx = 2 ^ k" "k \<le> lg" "uint max_wr < mx" "unat max_sge \<le> gather"
      "2 ^ shift = 16 * (gather + 1)"
    by (rule srq_sizes_ring [OF assms(1,2)])
  then have "nat mx = 2 ^ k" by (simp add: nat_power_eq)
  with k assms show ?thesis
    by (auto intro!: srq_run.create [of _ k] power_increasing simp: sizeof_srq_next_seg_def)
qed

theorem create_srq_run_witness:
  "srq_run 4 sample_srq [] \<and> (4 :: int) \<le> 2 ^ 15"
proof -
  have r: "roundup_pow_of_two 4 = Some 4" "roundup_pow_of_two 32 = Some 32" "ilog2 32 = 5"
    using fls_pow2 [of 1] fls_pow2 [of 5] by (simp_all add: roundup_pow_of_two_def ilog2_def fls.simps)
  have "srq_sizes 15 3 1 = Inr (4, 1, 5)"
    by (simp add: srq_sizes_def sizeof_srq_next_seg_def r)
  from create_srq_run [OF this, of "[0, 0, 0, 0]" "replicate 4 [\<lparr>byte_count = 0, lkey = 0, addr = 0\<rparr>]"]
  show ?thesis by (simp add: sample_srq_def)
qed

end
