(* ===== verification/Mlx5Cq.thy ===== *)
theory Mlx5Cq
  imports UdHeader Mlx5Srq
begin

text \<open>
  Completion queues of the mlx5 driver, \<^verbatim>\<open>drivers/infiniband/hw/mlx5/cq.c\<close> and the lock order of
  \<^verbatim>\<open>drivers/infiniband/hw/mlx5/qp.c\<close>: the ring of completion entries with its ownership bit
  (\<^verbatim>\<open>get_sw_cqe\<close>), removal of the entries of a dead queue pair (\<^verbatim>\<open>__mlx5_ib_cq_clean\<close>), the copy made
  when a queue is resized (\<^verbatim>\<open>copy_resize_cqes\<close>), and \<^verbatim>\<open>mlx5_ib_lock_cqs\<close>.
  An entry is a block of 64 or 128 bytes, as in memory; indices are 32-bit words and wrap around.
  The abstract view of a queue is the list of completions that are waiting to be polled.
\<close>

unbundle bit_operations_syntax

section \<open>State\<close>

record mlx5_ib_cq_buf =
  slots :: "block list"
  cqe_size :: nat
  nent :: u32

record mlx5_ib_cq =
  cqe :: u32
  cons_index :: u32
  cqe_sz :: nat
  buf :: mlx5_ib_cq_buf
  resize_buf :: "mlx5_ib_cq_buf option"
  set_ci_db :: u32

definition MLX5_CQE_OWNER_MASK :: u8 where "MLX5_CQE_OWNER_MASK = 1"
definition MLX5_CQE_RESIZE_CQ :: u8 where "MLX5_CQE_RESIZE_CQ = 5"
definition MLX5_CQE_INVALID :: u8 where "MLX5_CQE_INVALID = 15"

text \<open>The 64 bytes the hardware writes, at the end of an entry; members are read at their offsets.\<close>

definition cqe64_of :: "nat \<Rightarrow> block \<Rightarrow> block" where
  "cqe64_of sz c = (if sz = 64 then c else drop 64 c)"

definition op_own :: "block \<Rightarrow> u8" where
  "op_own c64 = c64 ! 63"

definition srqn :: "block \<Rightarrow> u32" where
  "srqn c64 = rd32 32 c64"

definition sop_drop_qpn :: "block \<Rightarrow> u32" where
  "sop_drop_qpn c64 = rd32 56 c64"

definition wqe_counter :: "block \<Rightarrow> u16" where
  "wqe_counter c64 = rd16 60 c64"

definition get_cqe_opcode :: "block \<Rightarrow> u8" where
  "get_cqe_opcode c64 = drop_bit 4 (op_own c64)"

definition set_op_own :: "nat \<Rightarrow> block \<Rightarrow> u8 \<Rightarrow> block" where
  "set_op_own sz c v = c[(if sz = 64 then 63 else 127) := v]"

section \<open>Entries in software ownership\<close>

definition get_cqe :: "mlx5_ib_cq_buf \<Rightarrow> u32 \<Rightarrow> block option" where
  "get_cqe b n = (if unat n < length (slots b) then Some (slots b ! unat n) else None)"

definition sw_ownership_bit :: "u32 \<Rightarrow> u32 \<Rightarrow> u8" where
  "sw_ownership_bit n cnt = (if n AND cnt \<noteq> 0 then 1 else 0)"

text \<open>The inner \<^const>\<open>None\<close> is the null pointer: the entry belongs to the hardware.\<close>

definition get_sw_cqe :: "mlx5_ib_cq \<Rightarrow> u32 \<Rightarrow> block option option" where
  "get_sw_cqe cq n = do {
     c \<leftarrow> get_cqe (buf cq) (n AND cqe cq);
     let c64 = cqe64_of (cqe_sz cq) c;
     Some (if get_cqe_opcode c64 \<noteq> MLX5_CQE_INVALID \<and>
         op_own c64 AND MLX5_CQE_OWNER_MASK = (if n AND (cqe cq + 1) \<noteq> 0 then 1 else 0)
       then Some c else None)
   }"

definition next_cqe_sw :: "mlx5_ib_cq \<Rightarrow> block option option" where
  "next_cqe_sw cq = get_sw_cqe cq (cons_index cq)"

definition mlx5_cq_set_ci :: "mlx5_ib_cq \<Rightarrow> mlx5_ib_cq" where
  "mlx5_cq_set_ci cq = cq\<lparr>set_ci_db := cons_index cq AND 0xffffff\<rparr>"

section \<open>Cleaning\<close>

definition is_equal_rsn :: "block \<Rightarrow> u32 \<Rightarrow> bool" where
  "is_equal_rsn c64 rsn = (rsn = sop_drop_qpn c64 AND 0xffffff)"

text \<open>The search for the producer index; it visits at most as many entries as the queue has.\<close>

function clean_find :: "mlx5_ib_cq \<Rightarrow> u32 \<Rightarrow> u32 option" where
  "clean_find cq prod_index =
     (case get_sw_cqe cq prod_index of
        None \<Rightarrow> None
      | Some None \<Rightarrow> Some prod_index
      | Some (Some _) \<Rightarrow>
          if prod_index = cons_index cq + cqe cq then Some prod_index else clean_find cq (prod_index + 1))"
  by pat_completeness auto

lemma unat_minus_one_less: "(x :: u32) \<noteq> 0 \<Longrightarrow> unat (x - 1) < unat x"
  using unat_gt_0 [of x] by (simp add: unat_minus_one)

termination clean_find
proof (relation "measure (\<lambda>(cq, p). unat (cons_index cq + cqe cq - p))")
  fix cq :: mlx5_ib_cq and p :: u32
  assume "p \<noteq> cons_index cq + cqe cq"
  then show "((cq, p + 1), cq, p) \<in> measure (\<lambda>(cq, p). unat (cons_index cq + cqe cq - p))"
    using unat_minus_one_less [of "cons_index cq + cqe cq - p"] by (simp add: algebra_simps)
qed simp

declare clean_find.simps [simp del]

text \<open>One turn of the sweep: drop a matching entry, or move one over the gap left by dropped ones.\<close>

definition clean_step :: "u32 \<Rightarrow> u32 \<Rightarrow> mlx5_ib_cq \<times> mlx5_ib_srq option \<times> u32 \<Rightarrow>
    (mlx5_ib_cq \<times> mlx5_ib_srq option \<times> u32) option" where
  "clean_step rsn prod_index = (\<lambda>(cq, srq, nfreed). do {
     c \<leftarrow> get_cqe (buf cq) (prod_index AND cqe cq);
     let c64 = cqe64_of (cqe_sz cq) c;
     if is_equal_rsn c64 rsn then do {
       srq' \<leftarrow> (case srq of None \<Rightarrow> Some None | Some s \<Rightarrow>
         if srqn c64 AND 0xffffff \<noteq> 0
         then map_option Some (mlx5_ib_free_srq_wqe s (unat (wqe_counter c64))) else Some srq);
       Some (cq, srq', nfreed + 1)
     } else if nfreed \<noteq> 0 then do {
       let i = (prod_index + nfreed) AND cqe cq;
       dest \<leftarrow> get_cqe (buf cq) i;
       let owner_bit = op_own (cqe64_of (cqe_sz cq) dest) AND MLX5_CQE_OWNER_MASK;
       let own = owner_bit OR (op_own c64 AND NOT MLX5_CQE_OWNER_MASK);
       Some (cq\<lparr>buf := (buf cq)\<lparr>slots := (slots (buf cq))[unat i := set_op_own (cqe_sz cq) c own]\<rparr>\<rparr>, srq, nfreed)
     } else Some (cq, srq, nfreed)
   })"

text \<open>
  The sweep.  The guard subtracts two \<^verbatim>\<open>int\<close>s; the kernel is compiled with wrapping signed arithmetic.
\<close>

function clean_sweep :: "u32 \<Rightarrow> u32 \<Rightarrow> u32 \<Rightarrow> mlx5_ib_cq \<times> mlx5_ib_srq option \<times> u32 \<Rightarrow>
    (mlx5_ib_cq \<times> mlx5_ib_srq option \<times> u32) option" where
  "clean_sweep rsn cons prod_index st =
     (if c_int (sint (prod_index - 1) - sint cons) \<ge> 0
      then do { st' \<leftarrow> clean_step rsn (prod_index - 1) st; clean_sweep rsn cons (prod_index - 1) st' }
      else Some st)"
  by pat_completeness auto

lemma c_int_sint_diff: "c_int (sint (a :: u32) - sint b) = sint (a - b)"
proof -
  have "sint (a - b) = signed_take_bit 31 (sint a - sint b)"
    by (simp add: sint_word_ariths)
  then show ?thesis by (simp add: c_int_def signed_take_bit_eq_take_bit_shift take_bit_eq_mod)
qed

termination clean_sweep
proof (relation "measure (\<lambda>(rsn, cons, p, st). unat (p - cons))")
  fix rsn cons p :: u32 and st st' :: "mlx5_ib_cq \<times> mlx5_ib_srq option \<times> u32"
  assume "0 \<le> c_int (sint (p - 1) - sint cons)"
  then have "0 \<le> sint (p - 1 - cons)" by (simp add: c_int_sint_diff)
  then have "p - cons \<noteq> 0" by (auto simp: algebra_simps)
  then show "((rsn, cons, p - 1, st'), rsn, cons, p, st) \<in> measure (\<lambda>(rsn, cons, p, st). unat (p - cons))"
    using unat_minus_one_less [of "p - cons"] by (simp add: algebra_simps)
qed simp

declare clean_sweep.simps [simp del]

definition cq_clean :: "mlx5_ib_cq \<Rightarrow> u32 \<Rightarrow> mlx5_ib_srq option \<Rightarrow> (mlx5_ib_cq \<times> mlx5_ib_srq option) option" where
  "cq_clean cq rsn srq = do {
     prod_index \<leftarrow> clean_find cq (cons_index cq);
     (cq, srq, nfreed) \<leftarrow> clean_sweep rsn (cons_index cq) prod_index (cq, srq, 0);
     Some (if nfreed \<noteq> 0 then mlx5_cq_set_ci (cq\<lparr>cons_index := cons_index cq + nfreed\<rparr>) else cq, srq)
   }"

definition mlx5_ib_cq_clean :: "mlx5_ib_cq option \<Rightarrow> u32 \<Rightarrow> mlx5_ib_srq option \<Rightarrow>
    (mlx5_ib_cq option \<times> mlx5_ib_srq option) option" where
  "mlx5_ib_cq_clean cq qpn srq = (case cq of None \<Rightarrow> Some (None, srq)
     | Some c \<Rightarrow> map_option (\<lambda>(c', s). (Some c', s)) (cq_clean c qpn srq))"

section \<open>Entries without their ownership bit\<close>

definition ent_own :: "nat \<Rightarrow> block \<Rightarrow> u8" where
  "ent_own sz c = op_own (cqe64_of sz c) AND MLX5_CQE_OWNER_MASK"

definition ent_op :: "nat \<Rightarrow> block \<Rightarrow> u8" where
  "ent_op sz c = get_cqe_opcode (cqe64_of sz c)"

definition ent_match :: "nat \<Rightarrow> u32 \<Rightarrow> block \<Rightarrow> bool" where
  "ent_match sz rsn c = is_equal_rsn (cqe64_of sz c) rsn"

definition strip_own :: "nat \<Rightarrow> block \<Rightarrow> block" where
  "strip_own sz c = set_op_own sz c (op_own (cqe64_of sz c) AND NOT MLX5_CQE_OWNER_MASK)"

definition move_onto :: "nat \<Rightarrow> block \<Rightarrow> block \<Rightarrow> block" where
  "move_onto sz d c = set_op_own sz c (ent_own sz d OR (op_own (cqe64_of sz c) AND NOT MLX5_CQE_OWNER_MASK))"

definition cqe_ok :: "nat \<Rightarrow> block \<Rightarrow> bool" where
  "cqe_ok sz c = ((sz = 64 \<or> sz = 128) \<and> length c = sz)"

lemma set_op_own [simp]:
  assumes "cqe_ok sz c"
  shows "op_own (cqe64_of sz (set_op_own sz c v)) = v" "cqe_ok sz (set_op_own sz c v)"
    "set_op_own sz (set_op_own sz c v) v' = set_op_own sz c v'"
  using assms by (auto simp: cqe_ok_def op_own_def cqe64_of_def set_op_own_def)

lemma set_op_own_other [simp]:
  assumes "cqe_ok sz c" "n + i \<le> 63"
  shows "take n (drop i (cqe64_of sz (set_op_own sz c v))) = take n (drop i (cqe64_of sz c))"
  using assms by (auto simp: cqe_ok_def cqe64_of_def set_op_own_def drop_update_swap)

lemma bit_owner_mask: "bit MLX5_CQE_OWNER_MASK n \<longleftrightarrow> n = 0"
  by (simp add: MLX5_CQE_OWNER_MASK_def bit_simps)

lemma owner_bits:
  "((d AND MLX5_CQE_OWNER_MASK) OR (x AND NOT MLX5_CQE_OWNER_MASK)) AND NOT MLX5_CQE_OWNER_MASK =
     x AND NOT MLX5_CQE_OWNER_MASK"
  "((d AND MLX5_CQE_OWNER_MASK) OR (x AND NOT MLX5_CQE_OWNER_MASK)) AND MLX5_CQE_OWNER_MASK =
     d AND MLX5_CQE_OWNER_MASK"
  "(x AND MLX5_CQE_OWNER_MASK) OR (x AND NOT MLX5_CQE_OWNER_MASK) = x"
  "drop_bit 4 MLX5_CQE_OWNER_MASK = 0"
  "drop_bit 4 x AND drop_bit 4 (NOT MLX5_CQE_OWNER_MASK) = drop_bit 4 x"
  by (rule bit_word_eqI; auto simp: bit_simps bit_owner_mask dest: bit_imp_le_length)+

lemma move_onto [simp]:
  assumes "cqe_ok sz c"
  shows "strip_own sz (move_onto sz d c) = strip_own sz c" "ent_own sz (move_onto sz d c) = ent_own sz d"
    "ent_op sz (move_onto sz d c) = ent_op sz c" "cqe_ok sz (move_onto sz d c)"
    "ent_op sz (strip_own sz c) = ent_op sz c"
  using assms
  by (simp_all add: strip_own_def move_onto_def ent_own_def ent_op_def get_cqe_opcode_def owner_bits)

lemma move_onto_self [simp]: "cqe_ok sz c \<Longrightarrow> move_onto sz c c = c"
  by (auto simp: move_onto_def ent_own_def owner_bits cqe_ok_def set_op_own_def
      op_own_def cqe64_of_def nth_drop)

lemma ent_match_strip [simp]: "cqe_ok sz c \<Longrightarrow> ent_match sz rsn (strip_own sz c) = ent_match sz rsn c"
  by (simp add: ent_match_def is_equal_rsn_def sop_drop_qpn_def rd32_def strip_own_def)

section \<open>The sweep on the list of entries\<close>

text \<open>
  Cleaning seen from the consumer index: \<open>V\<close> lists the slots in ring order.  A matching entry widens
  the gap, any other entry moves over it.
\<close>

definition gap_step :: "nat \<Rightarrow> u32 \<Rightarrow> nat \<Rightarrow> block list \<times> nat \<Rightarrow> block list \<times> nat" where
  "gap_step sz rsn j = (\<lambda>(V, nf). if ent_match sz rsn (V ! j) then (V, nf + 1)
     else (V[j + nf := move_onto sz (V ! (j + nf)) (V ! j)], nf))"

primrec gap_sweep :: "nat \<Rightarrow> u32 \<Rightarrow> nat \<Rightarrow> block list \<times> nat \<Rightarrow> block list \<times> nat" where
  "gap_sweep sz rsn 0 st = st"
| "gap_sweep sz rsn (Suc j) st = gap_sweep sz rsn j (gap_step sz rsn j st)"

lemma gap_sweep_spec:
  assumes "gap_sweep sz rsn j (V, nf) = (V', nf')" "j + nf \<le> length V" "\<forall>c \<in> set V. cqe_ok sz c"
  shows "nf' = nf + length (filter (ent_match sz rsn) (take j V)) \<and> length V' = length V \<and>
    (\<forall>c \<in> set V'. cqe_ok sz c) \<and> map (ent_own sz) V' = map (ent_own sz) V \<and>
    drop (j + nf) V' = drop (j + nf) V \<and>
    map (strip_own sz) (drop nf' (take (j + nf) V')) =
      map (strip_own sz) (filter (\<lambda>c. \<not> ent_match sz rsn c) (take j V))"
  using assms
proof (induction j arbitrary: V nf)
  case (Suc j)
  have j: "j < length V" "take (Suc j) V = take j V @ [V ! j]"
    using Suc.prems(2) by (simp_all add: take_Suc_conv_app_nth)
  show ?case
  proof (cases "ent_match sz rsn (V ! j)")
    case True
    then show ?thesis using Suc.IH [of V "nf + 1"] Suc.prems j by (auto simp: gap_step_def)
  next
    case False
    define V1 where "V1 = V[j + nf := move_onto sz (V ! (j + nf)) (V ! j)]"
    have ok: "cqe_ok sz (V ! j)" using Suc.prems(3) j(1) by simp
    have V1: "\<forall>c \<in> set V1. cqe_ok sz c" "length V1 = length V" "take j V1 = take j V"
        "drop (Suc j + nf) V1 = drop (Suc j + nf) V" "V1 ! (j + nf) = move_onto sz (V ! (j + nf)) (V ! j)"
      using Suc.prems(2,3) ok by (auto simp: V1_def dest!: subsetD [OF set_update_subset_insert])
    have own: "map (ent_own sz) V1 = map (ent_own sz) V"
      using ok Suc.prems(2) by (auto simp: V1_def list_eq_iff_nth_eq nth_list_update)
    have IH: "nf' = nf + length (filter (ent_match sz rsn) (take j V))" "length V' = length V"
        "\<forall>c \<in> set V'. cqe_ok sz c" "map (ent_own sz) V' = map (ent_own sz) V"
        "drop (j + nf) V' = drop (j + nf) V1"
        "map (strip_own sz) (drop nf' (take (j + nf) V')) =
          map (strip_own sz) (filter (\<lambda>c. \<not> ent_match sz rsn c) (take j V))"
      using Suc.IH [of V1 nf] Suc.prems(1,2) V1 own False by (auto simp: gap_step_def simp flip: V1_def)
    then have "V' ! (j + nf) = V1 ! (j + nf)"
      using Suc.prems(2) V1(2) nth_drop [of "j + nf" V' 0] nth_drop [of "j + nf" V1 0] by simp
    moreover have "nf' \<le> j + nf" using IH length_filter_le [of "ent_match sz rsn" "take j V"] by (simp add: IH(1))
    moreover have "take (Suc (j + nf)) V' = take (j + nf) V' @ [V' ! (j + nf)]"
      using IH Suc.prems(2) by (intro take_Suc_conv_app_nth) simp
    moreover have "drop (Suc j + nf) V' = drop (Suc j + nf) V"
    proof -
      have "drop 1 (drop (j + nf) V') = drop 1 (drop (j + nf) V1)" using IH by simp
      then show ?thesis using V1(4) by (simp add: drop_drop)
    qed
    ultimately show ?thesis using IH j V1(5) ok False Suc.prems(2) by (simp add: min_absorb2)
  qed
qed simp

section \<open>The ring seen from an index\<close>

definition cq_wf :: "nat \<Rightarrow> mlx5_ib_cq \<Rightarrow> bool" where
  "cq_wf k cq = (k \<le> 30 \<and> cqe cq = mask k \<and> length (slots (buf cq)) = 2 ^ k \<and>
     (\<forall>c \<in> set (slots (buf cq)). cqe_ok (cqe_sz cq) c))"

definition slot_at :: "mlx5_ib_cq \<Rightarrow> u32 \<Rightarrow> block" where
  "slot_at cq n = slots (buf cq) ! unat (n AND cqe cq)"

definition ring_view :: "nat \<Rightarrow> u32 \<Rightarrow> mlx5_ib_cq \<Rightarrow> block list" where
  "ring_view k c cq = map (\<lambda>i. slot_at cq (c + of_nat i)) [0..<2 ^ k]"

definition is_sw :: "mlx5_ib_cq \<Rightarrow> u32 \<Rightarrow> bool" where
  "is_sw cq n = (case get_sw_cqe cq n of Some (Some _) \<Rightarrow> True | _ \<Rightarrow> False)"

abbreviation with_slots :: "mlx5_ib_cq \<Rightarrow> block list \<Rightarrow> mlx5_ib_cq" where
  "with_slots cq S \<equiv> cq\<lparr>buf := (buf cq)\<lparr>slots := S\<rparr>\<rparr>"

lemma cq_wf_size: "cq_wf k cq \<Longrightarrow> (2 :: nat) ^ k \<le> 2 ^ 30"
  by (rule power_increasing) (simp_all add: cq_wf_def)

lemma with_slots_id [simp]: "with_slots cq (slots (buf cq)) = cq"
  by (cases cq; cases "buf cq"; simp)

lemma ring_slot_in:
  assumes "cq_wf k cq"
  shows "unat (n AND cqe cq) < length (slots (buf cq))" "get_cqe (buf cq) (n AND cqe cq) = Some (slot_at cq n)"
    "cqe_ok (cqe_sz cq) (slot_at cq n)"
proof -
  show "unat (n AND cqe cq) < length (slots (buf cq))"
    using assms ring_index [of k n 0] by (simp add: cq_wf_def)
  then show "get_cqe (buf cq) (n AND cqe cq) = Some (slot_at cq n)" "cqe_ok (cqe_sz cq) (slot_at cq n)"
    using assms by (simp_all add: get_cqe_def slot_at_def cq_wf_def)
qed

lemma view_nth [simp]: "i < 2 ^ k \<Longrightarrow> ring_view k c cq ! i = slot_at cq (c + of_nat i)"
  "length (ring_view k c cq) = 2 ^ k"
  by (simp_all add: ring_view_def)

lemma view_ok: "cq_wf k cq \<Longrightarrow> \<forall>c \<in> set (ring_view k c0 cq). cqe_ok (cqe_sz cq) c"
  by (auto simp: ring_view_def ring_slot_in(3))

lemma view_update:
  assumes "cq_wf k cq" "i < 2 ^ k" "cqe_ok (cqe_sz cq) x"
  shows "ring_view k c (with_slots cq ((slots (buf cq))[unat ((c + of_nat i) AND cqe cq) := x])) =
      (ring_view k c cq)[i := x]"
    "cq_wf k (with_slots cq ((slots (buf cq))[unat ((c + of_nat i) AND cqe cq) := x]))"
proof -
  have "unat ((c + of_nat i) AND mask k) = unat ((c + of_nat j) AND mask k) \<longleftrightarrow> i = j" if "j < 2 ^ k" for j
    using assms that mod_add_inj [of "unat c" i "2 ^ k" j] by (auto simp: cq_wf_def ring_index)
  then show "ring_view k c (with_slots cq ((slots (buf cq))[unat ((c + of_nat i) AND cqe cq) := x])) =
      (ring_view k c cq)[i := x]"
    using assms ring_slot_in(1) [OF assms(1), of "c + of_nat i"]
    by (intro nth_equalityI) (auto simp: slot_at_def nth_list_update cq_wf_def)
  show "cq_wf k (with_slots cq ((slots (buf cq))[unat ((c + of_nat i) AND cqe cq) := x]))"
    using assms by (auto simp: cq_wf_def dest!: subsetD [OF set_update_subset_insert])
qed

lemma is_sw_iff:
  assumes "cq_wf k cq"
  shows "is_sw cq n \<longleftrightarrow> ent_op (cqe_sz cq) (slot_at cq n) \<noteq> MLX5_CQE_INVALID \<and>
    ent_own (cqe_sz cq) (slot_at cq n) = (if n AND (cqe cq + 1) \<noteq> 0 then 1 else 0)"
  using assms by (simp add: is_sw_def get_sw_cqe_def ring_slot_in ent_op_def ent_own_def Let_def)

section \<open>The sweep refines the list sweep\<close>

definition freed_ids :: "nat \<Rightarrow> u32 \<Rightarrow> block \<Rightarrow> nat list" where
  "freed_ids sz rsn c = (if ent_match sz rsn c \<and> srqn (cqe64_of sz c) AND 0xffffff \<noteq> 0
     then [unat (wqe_counter (cqe64_of sz c))] else [])"

definition free_all :: "mlx5_ib_srq option \<Rightarrow> nat list \<Rightarrow> mlx5_ib_srq option option" where
  "free_all srq is = (case srq of None \<Rightarrow> Some None
     | Some s \<Rightarrow> map_option Some (release_all mlx5_ib_free_srq_wqe s is))"

lemma release_all_append:
  "release_all r s (a @ b) = Option.bind (release_all r s a) (\<lambda>s'. release_all r s' b)"
  by (induction a arbitrary: s) (simp_all add: Option.bind_assoc)

lemma free_all_simps [simp]:
  "free_all srq [] = Some srq"
  "free_all srq (a @ b) = Option.bind (free_all srq a) (\<lambda>s. free_all s b)"
  by (cases srq; cases "release_all mlx5_ib_free_srq_wqe (the srq) a"; simp add: free_all_def release_all_append)+

lemma free_all_ids:
  "free_all srq (freed_ids sz rsn c) = (if ent_match sz rsn c then
      (case srq of None \<Rightarrow> Some None | Some s \<Rightarrow> if srqn (cqe64_of sz c) AND 0xffffff \<noteq> 0
         then map_option Some (mlx5_ib_free_srq_wqe s (unat (wqe_counter (cqe64_of sz c)))) else Some srq)
    else Some srq)"
  by (cases srq) (simp_all add: free_all_def freed_ids_def)

lemma clean_step_gap:
  assumes "cq_wf k cq" "i + nf < 2 ^ k" "gap_step (cqe_sz cq) rsn i (ring_view k c cq, nf) = (V', nf')"
  shows "\<exists>S. (\<forall>srq. clean_step rsn (c + of_nat i) (cq, srq, of_nat nf) =
      map_option (\<lambda>s. (with_slots cq S, s, of_nat nf')) (free_all srq (freed_ids (cqe_sz cq) rsn (ring_view k c cq ! i)))) \<and>
    cq_wf k (with_slots cq S) \<and> ring_view k c (with_slots cq S) = V'"
proof -
  define e where "e = slot_at cq (c + of_nat i)"
  have i: "ring_view k c cq ! i = e" "get_cqe (buf cq) ((c + of_nat i) AND cqe cq) = Some e"
      "cqe_ok (cqe_sz cq) e"
    using assms(1,2) ring_slot_in [OF assms(1), of "c + of_nat i"] by (simp_all add: e_def)
  have d: "get_cqe (buf cq) ((c + of_nat i + of_nat nf) AND cqe cq) = Some (ring_view k c cq ! (i + nf))"
    using assms ring_slot_in [OF assms(1), of "c + of_nat (i + nf)"] by (simp add: add.assoc)
  have nf0: "(of_nat nf :: u32) = 0 \<longleftrightarrow> nf = 0"
  proof -
    have "unat (of_nat nf :: u32) = nf" using assms(2) cq_wf_size [OF assms(1)] by (simp add: unat_of_nat)
    then show ?thesis by (cases "nf = 0") auto
  qed
  show ?thesis
  proof (cases "ent_match (cqe_sz cq) rsn e")
    case True
    then have "V' = ring_view k c cq" "nf' = nf + 1" using assms(3) i(1) by (simp_all add: gap_step_def)
    moreover have "clean_step rsn (c + of_nat i) (cq, srq, of_nat nf) =
        map_option (\<lambda>s. (cq, s, 1 + of_nat nf)) (free_all srq (freed_ids (cqe_sz cq) rsn e))" for srq
      unfolding free_all_ids using True i(2) by (simp add: clean_step_def ent_match_def map_conv_bind_option comp_def Let_def add.commute)
    ultimately show ?thesis using assms(1) i(1) by (intro exI [of _ "slots (buf cq)"]) simp
  next
    case False
    define x where "x = move_onto (cqe_sz cq) (ring_view k c cq ! (i + nf)) e"
    have V': "V' = (ring_view k c cq)[i + nf := x]" "nf' = nf"
      using assms(3) False unfolding gap_step_def prod.case i(1) x_def by auto
    define S where "S = (slots (buf cq))[unat ((c + of_nat (i + nf)) AND cqe cq) := x]"
    have "cqe_ok (cqe_sz cq) x" using i(3) by (simp add: x_def)
    then have S: "cq_wf k (with_slots cq S)" "ring_view k c (with_slots cq S) = V'"
      using view_update [OF assms(1,2)] V' by (simp_all add: S_def)
    have "freed_ids (cqe_sz cq) rsn e = []" using False by (simp add: freed_ids_def)
    moreover have "clean_step rsn (c + of_nat i) (cq, srq, of_nat nf) = Some (with_slots cq S, srq, of_nat nf)" for srq
    proof (cases "nf = 0")
      case True
      then have "x = e" using i by (simp add: x_def)
      then have "S = slots (buf cq)" using True i(2) by (simp add: S_def e_def slot_at_def)
      then show ?thesis using True False i by (simp add: clean_step_def ent_match_def)
    next
      case nz: False
      then show ?thesis
        using False i d nf0
        by (simp add: clean_step_def ent_match_def S_def x_def move_onto_def ent_own_def Let_def add.assoc)
    qed
    ultimately show ?thesis using S V' i(1) by (intro exI [of _ S]) simp
  qed
qed

lemma gap_step_below: "gap_step sz rsn i (V, nf) = (V', nf') \<Longrightarrow> take i V' = take i V \<and> nf' \<le> nf + 1"
  by (auto simp: gap_step_def split: if_splits)

lemma clean_sweep_unfold:
  assumes "j < 2 ^ 31"
  shows "clean_sweep rsn c (c + of_nat (Suc j)) st =
    Option.bind (clean_step rsn (c + of_nat j) st) (clean_sweep rsn c (c + of_nat j))"
proof -
  have "c + of_nat (Suc j) - 1 = c + of_nat j" by simp
  moreover have "0 \<le> c_int (sint (c + of_nat j) - sint c)"
    using assms by (simp add: c_int_sint_diff signed_of_nat signed_take_bit_int_eq_self)
  ultimately show ?thesis by (subst clean_sweep.simps) simp
qed

lemma clean_sweep_gap:
  assumes "cq_wf k cq" "j + nf \<le> 2 ^ k" "gap_sweep (cqe_sz cq) rsn j (ring_view k c cq, nf) = (V', nf')"
  shows "\<exists>S. (\<forall>srq. clean_sweep rsn c (c + of_nat j) (cq, srq, of_nat nf) =
      map_option (\<lambda>s. (with_slots cq S, s, of_nat nf'))
        (free_all srq (concat (map (freed_ids (cqe_sz cq) rsn) (rev (take j (ring_view k c cq))))))) \<and>
    cq_wf k (with_slots cq S) \<and> ring_view k c (with_slots cq S) = V'"
  using assms
proof (induction j arbitrary: cq nf)
  case 0
  have "clean_sweep rsn c c (cq, srq, of_nat nf) = Some (cq, srq, of_nat nf)" for srq
    by (subst clean_sweep.simps) (simp add: c_int_sint_diff)
  with 0 show ?case by (intro exI [of _ "slots (buf cq)"]) simp
next
  case (Suc j)
  obtain V1 nf1 where st: "gap_step (cqe_sz cq) rsn j (ring_view k c cq, nf) = (V1, nf1)"
    by (metis surj_pair)
  obtain S1 where S1: "clean_step rsn (c + of_nat j) (cq, srq, of_nat nf) =
        map_option (\<lambda>s. (with_slots cq S1, s, of_nat nf1)) (free_all srq (freed_ids (cqe_sz cq) rsn (ring_view k c cq ! j)))"
      "cq_wf k (with_slots cq S1)" "ring_view k c (with_slots cq S1) = V1" for srq
    using clean_step_gap [OF Suc.prems(1) _ st] Suc.prems(2) by auto
  have below: "take j V1 = take j (ring_view k c cq)" "nf1 \<le> nf + 1" using gap_step_below [OF st] by auto
  obtain S where S: "clean_sweep rsn c (c + of_nat j) (with_slots cq S1, s, of_nat nf1) =
      map_option (\<lambda>s. (with_slots cq S, s, of_nat nf'))
        (free_all s (concat (map (freed_ids (cqe_sz cq) rsn) (rev (take j (ring_view k c cq))))))"
    "cq_wf k (with_slots cq S)" "ring_view k c (with_slots cq S) = V'" for s
    using Suc.IH [OF S1(2), of nf1] Suc.prems(2,3) st S1(3) below by auto
  have "j < 2 ^ k" "(2 :: nat) ^ k \<le> 2 ^ 30"
    using Suc.prems(2) cq_wf_size [OF Suc.prems(1)] by auto
  then have "j < 2 ^ 31" "take (Suc j) (ring_view k c cq) = take j (ring_view k c cq) @ [ring_view k c cq ! j]"
    by (simp_all add: take_Suc_conv_app_nth)
  then have "clean_sweep rsn c (c + of_nat (Suc j)) (cq, srq, of_nat nf) =
      map_option (\<lambda>s. (with_slots cq S, s, of_nat nf'))
        (free_all srq (concat (map (freed_ids (cqe_sz cq) rsn) (rev (take (Suc j) (ring_view k c cq))))))" for srq
    by (simp only: clean_sweep_unfold S1(1))
      (cases "free_all srq (freed_ids (cqe_sz cq) rsn (ring_view k c cq ! j))"; simp add: S(1))
  with S(2,3) show ?case by blast
qed

section \<open>The completions waiting to be polled\<close>

definition sw_count :: "mlx5_ib_cq \<Rightarrow> nat" where
  "sw_count cq = length (takeWhile (\<lambda>i. is_sw cq (cons_index cq + of_nat i)) [0..<unat (cqe cq) + 1])"

definition pending :: "mlx5_ib_cq \<Rightarrow> block list" where
  "pending cq = map (\<lambda>i. strip_own (cqe_sz cq) (slot_at cq (cons_index cq + of_nat i))) [0..<sw_count cq]"

lemma cqe_count: "cq_wf k cq \<Longrightarrow> unat (cqe cq) + 1 = 2 ^ k"
proof -
  assume wf: "cq_wf k cq"
  have "mask k < (2 :: nat) ^ 32" using cq_wf_size [OF wf] by (simp add: mask_eq_exp_minus_1)
  then have "unat (of_nat (mask k) :: u32) = mask k" by (simp add: unat_of_nat)
  then show ?thesis using wf by (simp add: cq_wf_def of_nat_mask_eq mask_eq_exp_minus_1)
qed

lemma sw_count_eqI:
  assumes "cq_wf k cq" "\<And>i. i < m \<Longrightarrow> is_sw cq (cons_index cq + of_nat i)"
    "\<not> is_sw cq (cons_index cq + of_nat m)" "m < 2 ^ k"
  shows "sw_count cq = m"
proof -
  have "takeWhile (\<lambda>i. is_sw cq (cons_index cq + of_nat i)) [0..<2 ^ k] = take m [0..<2 ^ k]"
    using assms by (intro takeWhile_eq_take_P_nth) auto
  then show ?thesis using assms(4) unfolding sw_count_def cqe_count [OF assms(1)] by simp
qed

lemma sw_countD:
  assumes "cq_wf k cq"
  shows "i < sw_count cq \<Longrightarrow> is_sw cq (cons_index cq + of_nat i)"
    "sw_count cq < 2 ^ k \<Longrightarrow> \<not> is_sw cq (cons_index cq + of_nat (sw_count cq))" "sw_count cq \<le> 2 ^ k"
proof -
  let ?P = "\<lambda>i. is_sw cq (cons_index cq + of_nat i)"
  have eq: "sw_count cq = length (takeWhile ?P [0..<2 ^ k])"
    unfolding sw_count_def cqe_count [OF assms] ..
  show "sw_count cq \<le> 2 ^ k" using length_takeWhile_le [of ?P "[0..<2 ^ k]"] eq by simp
  then show "is_sw cq (cons_index cq + of_nat i)" if "i < sw_count cq"
    using that eq takeWhile_nth [of i ?P "[0..<2 ^ k]"] nth_mem [of i "takeWhile ?P [0..<2 ^ k]"]
    by (auto dest: set_takeWhileD)
  show "\<not> is_sw cq (cons_index cq + of_nat (sw_count cq))" if "sw_count cq < 2 ^ k"
    using that eq nth_length_takeWhile [of ?P "[0..<2 ^ k]"] by simp
qed

lemma pending_view:
  "cq_wf k cq \<Longrightarrow> pending cq = map (strip_own (cqe_sz cq)) (take (sw_count cq) (ring_view k (cons_index cq) cq))"
  using sw_countD(3) [of k cq] by (simp add: pending_def ring_view_def take_map min_absorb1)

lemma clean_find_count:
  assumes "cq_wf k cq" "sw_count cq < 2 ^ k"
  shows "i \<le> sw_count cq \<Longrightarrow>
    clean_find cq (cons_index cq + of_nat i) = Some (cons_index cq + of_nat (sw_count cq))"
proof (induction "sw_count cq - i" arbitrary: i)
  case 0
  then have "\<not> is_sw cq (cons_index cq + of_nat i)" "i = sw_count cq"
    using sw_countD(2) [OF assms(1)] assms(2) by auto
  moreover have "get_sw_cqe cq (cons_index cq + of_nat i) \<noteq> None"
    using ring_slot_in [OF assms(1)] by (simp add: get_sw_cqe_def Let_def)
  ultimately show ?case by (subst clean_find.simps) (auto simp: is_sw_def split: option.splits)
next
  case (Suc n)
  then have "is_sw cq (cons_index cq + of_nat i)" "i < 2 ^ k - 1"
    using sw_countD(1) [OF assms(1), of i] assms(2) by auto
  moreover have "(of_nat i :: u32) \<noteq> cqe cq"
  proof -
    have "unat (of_nat i :: u32) = i"
      using \<open>i < 2 ^ k - 1\<close> cq_wf_size [OF assms(1)] by (simp add: unat_of_nat)
    then show ?thesis using \<open>i < 2 ^ k - 1\<close> cqe_count [OF assms(1)] by auto
  qed
  moreover have "clean_find cq (cons_index cq + of_nat i + 1) = Some (cons_index cq + of_nat (sw_count cq))"
    using Suc.hyps(1) [of "Suc i"] Suc.hyps(2) by (simp add: ac_simps)
  ultimately show ?case by (subst clean_find.simps) (auto simp: is_sw_def split: option.splits)
qed

text \<open>What the entries after a sweep say about ownership: everything up to the old producer stays with software.\<close>

lemma sw_after_sweep:
  assumes "cq_wf k cq" "sw_count cq < 2 ^ k"
    and sw: "gap_sweep (cqe_sz cq) rsn (sw_count cq) (ring_view k (cons_index cq) cq, 0) = (V', nf)"
    and S: "cq_wf k (with_slots cq S)" "ring_view k (cons_index cq) (with_slots cq S) = V'"
  shows "nf \<le> i \<Longrightarrow> i < sw_count cq \<Longrightarrow> is_sw (with_slots cq S) (cons_index cq + of_nat i)"
    "\<not> is_sw (with_slots cq S) (cons_index cq + of_nat (sw_count cq))"
proof -
  define V m sz where "V = ring_view k (cons_index cq) cq" and "m = sw_count cq" and "sz = cqe_sz cq"
  note d = V_def [symmetric] m_def [symmetric] sz_def [symmetric]
  have ok: "\<forall>c \<in> set V. cqe_ok sz c" using view_ok [OF assms(1)] by (simp add: V_def sz_def)
  have m: "m < 2 ^ k" "length V = 2 ^ k" using assms(2) by (simp_all add: V_def m_def)
  have spec: "length V' = 2 ^ k" "\<forall>c \<in> set V'. cqe_ok sz c" "map (ent_own sz) V' = map (ent_own sz) V"
      "drop m V' = drop m V"
      "map (strip_own sz) (drop nf (take m V')) = map (strip_own sz) (filter (\<lambda>c. \<not> ent_match sz rsn c) (take m V))"
    using gap_sweep_spec [OF sw] ok m by (auto simp: d)
  have own: "ent_own sz (V' ! i) = ent_own sz (V ! i)" if "i < 2 ^ k" for i
    using arg_cong [OF spec(3), of "\<lambda>l. l ! i"] that spec(1) m by simp
  have before: "is_sw cq (cons_index cq + of_nat i) \<longleftrightarrow> ent_op sz (V ! i) \<noteq> MLX5_CQE_INVALID \<and>
      ent_own sz (V ! i) = (if (cons_index cq + of_nat i) AND (cqe cq + 1) \<noteq> 0 then 1 else 0)" if "i < 2 ^ k" for i
    using is_sw_iff [OF assms(1), of "cons_index cq + of_nat i"] that by (simp add: V_def sz_def)
  have after: "is_sw (with_slots cq S) (cons_index cq + of_nat i) \<longleftrightarrow> ent_op sz (V' ! i) \<noteq> MLX5_CQE_INVALID \<and>
      ent_own sz (V ! i) = (if (cons_index cq + of_nat i) AND (cqe cq + 1) \<noteq> 0 then 1 else 0)" if "i < 2 ^ k" for i
    using is_sw_iff [OF S(1), of "cons_index cq + of_nat i"] that own [OF that] by (simp add: S(2) [symmetric] sz_def)
  have "V' ! m = V ! m"
    using arg_cong [OF spec(4), of hd] m spec(1) by (simp add: hd_drop_conv_nth)
  then show "\<not> is_sw (with_slots cq S) (cons_index cq + of_nat (sw_count cq))"
    using sw_countD(2) [OF assms(1,2)] before [OF m(1)] after [OF m(1)] by (simp add: d)
  have "map (ent_op sz) (drop nf (take m V')) = map (ent_op sz) (map (strip_own sz) (drop nf (take m V')))"
    using spec(2) by (auto dest!: in_set_dropD in_set_takeD)
  also have "\<dots> = map (ent_op sz) (filter (\<lambda>c. \<not> ent_match sz rsn c) (take m V))"
    unfolding spec(5) using ok by (auto dest!: in_set_takeD)
  finally have "set (map (ent_op sz) (drop nf (take m V'))) \<subseteq> ent_op sz ` set (take m V)" by auto
  moreover have "ent_op sz c \<noteq> MLX5_CQE_INVALID" if c: "c \<in> set (take m V)" for c
  proof -
    obtain i where "i < m" "c = V ! i" using c m by (auto simp: in_set_conv_nth)
    then show ?thesis using sw_countD(1) [OF assms(1), of i] before [of i] m by (simp add: d)
  qed
  ultimately have op: "ent_op sz c \<noteq> MLX5_CQE_INVALID" if "c \<in> set (drop nf (take m V'))" for c
    using that by fastforce
  show "is_sw (with_slots cq S) (cons_index cq + of_nat i)" if i: "nf \<le> i" "i < sw_count cq"
  proof -
    have im: "i < m" "i < 2 ^ k" using i m by (simp_all add: m_def)
    have "V' ! i = drop nf (take m V') ! (i - nf)" using i im spec(1) by simp
    moreover have "i - nf < length (drop nf (take m V'))" using i im m spec(1) by simp
    ultimately have "ent_op sz (V' ! i) \<noteq> MLX5_CQE_INVALID" using op nth_mem by metis
    then show ?thesis
      using sw_countD(1) [OF assms(1) i(2)] before [OF im(2)] after [OF im(2)] by simp
  qed
qed

lemma freed_ids_strip: "cqe_ok sz c \<Longrightarrow> freed_ids sz rsn (strip_own sz c) = freed_ids sz rsn c"
  by (simp add: freed_ids_def srqn_def wqe_counter_def rd32_def rd16_def strip_own_def)
    (simp add: ent_match_def is_equal_rsn_def sop_drop_qpn_def rd32_def)

lemma pending_strip: "cq_wf k cq \<Longrightarrow> c \<in> set (pending cq) \<Longrightarrow> cqe_ok (cqe_sz cq) c"
  using ring_slot_in(3) [of k cq] by (auto simp: pending_def strip_own_def)

text \<open>The queue after cleaning: the slots \<open>S\<close> and a consumer index advanced by the removed entries.\<close>

definition cleaned :: "mlx5_ib_cq \<Rightarrow> block list \<Rightarrow> nat \<Rightarrow> mlx5_ib_cq" where
  "cleaned cq S nf = (if nf \<noteq> 0
     then mlx5_cq_set_ci ((with_slots cq S)\<lparr>cons_index := cons_index cq + of_nat nf\<rparr>) else with_slots cq S)"

lemma cleaned_simps [simp]:
  "slots (buf (cleaned cq S nf)) = S" "cqe (cleaned cq S nf) = cqe cq" "cqe_sz (cleaned cq S nf) = cqe_sz cq"
  "cons_index (cleaned cq S nf) = cons_index cq + of_nat nf"
  by (simp_all add: cleaned_def mlx5_cq_set_ci_def)

lemma cleaned_like [simp]:
  "slot_at (cleaned cq S nf) n = slot_at (with_slots cq S) n"
  "is_sw (cleaned cq S nf) n = is_sw (with_slots cq S) n"
  "cq_wf k (cleaned cq S nf) = cq_wf k (with_slots cq S)"
  by (simp_all add: slot_at_def is_sw_def get_sw_cqe_def get_cqe_def cq_wf_def)

lemma pending_cleaned:
  assumes "cq_wf k cq" "sw_count cq < 2 ^ k"
    and sw: "gap_sweep (cqe_sz cq) rsn (sw_count cq) (ring_view k (cons_index cq) cq, 0) = (V', nf)"
    and S: "cq_wf k (with_slots cq S)" "ring_view k (cons_index cq) (with_slots cq S) = V'"
  shows "pending (cleaned cq S nf) = filter (\<lambda>c. \<not> ent_match (cqe_sz cq) rsn c) (pending cq)"
proof -
  define V m where "V = ring_view k (cons_index cq) cq" and "m = sw_count cq"
  have ok: "\<forall>c \<in> set V. cqe_ok (cqe_sz cq) c" using view_ok [OF assms(1)] by (simp add: V_def)
  have m: "m < 2 ^ k" "length V = 2 ^ k" using assms(2) by (simp_all add: V_def m_def)
  have nf: "nf = length (filter (ent_match (cqe_sz cq) rsn) (take m V))"
    and strip: "map (strip_own (cqe_sz cq)) (drop nf (take m V')) =
      map (strip_own (cqe_sz cq)) (filter (\<lambda>c. \<not> ent_match (cqe_sz cq) rsn c) (take m V))"
    using gap_sweep_spec [OF sw] ok m by (auto simp: V_def m_def)
  then have "nf \<le> m" using length_filter_le [of "ent_match (cqe_sz cq) rsn" "take m V"] by simp
  have "sw_count (cleaned cq S nf) = m - nf"
  proof (rule sw_count_eqI [of k])
    show "cq_wf k (cleaned cq S nf)" "m - nf < 2 ^ k" using S(1) m(1) by simp_all
    show "is_sw (cleaned cq S nf) (cons_index (cleaned cq S nf) + of_nat i)" if "i < m - nf" for i
      using sw_after_sweep(1) [OF assms, of "nf + i"] that by (simp add: add.assoc m_def)
    show "\<not> is_sw (cleaned cq S nf) (cons_index (cleaned cq S nf) + of_nat (m - nf))"
      using sw_after_sweep(2) [OF assms] \<open>nf \<le> m\<close> by (simp add: add.assoc m_def flip: of_nat_add)
  qed
  then have "pending (cleaned cq S nf) = map (strip_own (cqe_sz cq)) (drop nf (take m V'))"
    using m(1) S(2) \<open>nf \<le> m\<close>
    by (intro nth_equalityI) (auto simp: pending_def add.assoc simp flip: S(2) of_nat_add)
  also have "\<dots> = filter (\<lambda>c. \<not> ent_match (cqe_sz cq) rsn c) (map (strip_own (cqe_sz cq)) (take m V))"
    unfolding strip filter_map using ok by (intro arg_cong [where f = "map _"] filter_cong) (auto dest!: in_set_takeD)
  finally show ?thesis using pending_view [OF assms(1)] by (simp add: V_def m_def)
qed

lemma cq_clean_general:
  assumes "cq_wf k cq" "sw_count cq < 2 ^ k"
  shows "\<exists>cq'. (\<forall>srq. cq_clean cq rsn srq = map_option (Pair cq')
        (free_all srq (concat (map (freed_ids (cqe_sz cq) rsn) (rev (pending cq)))))) \<and>
    cq_wf k cq' \<and> cqe_sz cq' = cqe_sz cq \<and>
    pending cq' = filter (\<lambda>c. \<not> ent_match (cqe_sz cq) rsn c) (pending cq)"
proof -
  define m where "m = sw_count cq"
  obtain V' nf where sw: "gap_sweep (cqe_sz cq) rsn m (ring_view k (cons_index cq) cq, 0) = (V', nf)"
    by (metis surj_pair)
  obtain S where S: "clean_sweep rsn (cons_index cq) (cons_index cq + of_nat m) (cq, srq, 0) =
        map_option (\<lambda>s. (with_slots cq S, s, of_nat nf))
          (free_all srq (concat (map (freed_ids (cqe_sz cq) rsn) (rev (take m (ring_view k (cons_index cq) cq))))))"
      "cq_wf k (with_slots cq S)" "ring_view k (cons_index cq) (with_slots cq S) = V'" for srq
    using clean_sweep_gap [OF assms(1) _ sw] assms(2) by (auto simp: m_def)
  have "nf \<le> m"
    using gap_sweep_spec [OF sw] view_ok [OF assms(1)] assms(2)
      length_filter_le [of "ent_match (cqe_sz cq) rsn" "take m (ring_view k (cons_index cq) cq)"]
    by (auto simp: m_def)
  then have nf: "(of_nat nf :: u32) \<noteq> 0 \<longleftrightarrow> nf \<noteq> 0"
    using assms(2) cq_wf_size [OF assms(1)] unat_of_nat [of nf, where 'a = 32] by (cases "nf = 0") (auto simp: m_def)
  have ids: "concat (map (freed_ids (cqe_sz cq) rsn) (rev (pending cq))) =
      concat (map (freed_ids (cqe_sz cq) rsn) (rev (take m (ring_view k (cons_index cq) cq))))"
    using view_ok [OF assms(1)]
    by (simp add: pending_view [OF assms(1)] m_def rev_map comp_def)
      (intro arg_cong [where f = concat] map_cong refl freed_ids_strip, auto dest!: in_set_takeD)
  have "cq_clean cq rsn srq = map_option (Pair (cleaned cq S nf))
      (free_all srq (concat (map (freed_ids (cqe_sz cq) rsn) (rev (pending cq)))))" for srq
    unfolding ids using clean_find_count [OF assms, of 0] S(1) [of srq] nf
    by (auto simp: cq_clean_def m_def cleaned_def map_option_case split: option.splits)
  then show ?thesis
    using pending_cleaned [OF assms sw [unfolded m_def] S(2,3)] S(2) by (intro exI [of _ "cleaned cq S nf"]) simp
qed

lemma pending_length: "length (pending cq) = sw_count cq"
  by (simp add: pending_def)

text \<open>
  C13. Removing the completions of a destroyed queue pair from a completion queue: the completions
  waiting afterwards are those waiting before, without the ones of that queue pair, in the same
  order and with the same contents.  The queue may hold up to the advertised number of entries, one
  less than the ring has.
\<close>

theorem cq_clean_filters:
  assumes "cq_wf k cq" and "length (pending cq) < 2 ^ k"
  shows "\<exists>cq'. mlx5_ib_cq_clean (Some cq) qpn None = Some (Some cq', None) \<and> cq_wf k cq' \<and>
    pending cq' = filter (\<lambda>c. \<not> is_equal_rsn (cqe64_of (cqe_sz cq) c) qpn) (pending cq)"
  using cq_clean_general [of k cq qpn] assms
  by (auto simp: mlx5_ib_cq_clean_def free_all_def pending_length ent_match_def)

definition sample_cqe :: "u32 \<Rightarrow> u8 \<Rightarrow> u8 \<Rightarrow> block" where
  "sample_cqe qpn ctr own = replicate 32 0 @ [0, 0, 0, 1] @ replicate 20 0 @ be32 qpn @ [0, ctr, 0, own]"

definition sample_cq :: mlx5_ib_cq where
  "sample_cq = \<lparr>cqe = 3, cons_index = 0, cqe_sz = 64,
     buf = \<lparr>slots = [sample_cqe 7 1 0x20, sample_cqe 9 2 0x20, sample_cqe 7 0 0x20, sample_cqe 0 0 0xf1],
       cqe_size = 64, nent = 4\<rparr>, resize_buf = None, set_ci_db = 0\<rparr>"

lemma sample_cqe_fields:
  "cqe_ok 64 (sample_cqe q n w)" "op_own (sample_cqe q n w) = w" "sop_drop_qpn (sample_cqe q n w) = q"
  "wqe_counter (sample_cqe q n w) = ucast n" "srqn (sample_cqe q n w) = 1"
  "set_op_own 64 (sample_cqe q n w) v = sample_cqe q n v"
proof -
  show "cqe_ok 64 (sample_cqe q n w)" "op_own (sample_cqe q n w) = w"
    "set_op_own 64 (sample_cqe q n w) v = sample_cqe q n v"
    by (simp_all add: sample_cqe_def cqe_ok_def op_own_def set_op_own_def nth_append list_update_append)
  show "sop_drop_qpn (sample_cqe q n w) = q"
    by (simp add: sample_cqe_def sop_drop_qpn_def rd_defs ucast_be_bytes del: be_val_be_bytes)
  show "srqn (sample_cqe q n w) = 1"
    by (simp add: sample_cqe_def srqn_def rd_defs be_val_def)
  show "wqe_counter (sample_cqe q n w) = ucast n"
    by (simp add: sample_cqe_def wqe_counter_def rd_defs be_val_def)
      (rule bit_word_eqI, auto simp: bit_simps dest: bit_imp_le_length)
qed

lemma sample_cq_wf: "cq_wf 2 sample_cq"
  by (simp add: cq_wf_def sample_cq_def sample_cqe_fields(1) mask_eq_exp_minus_1)

lemma sample_cq_pending: "pending sample_cq = [sample_cqe 7 1 0x20, sample_cqe 9 2 0x20, sample_cqe 7 0 0x20]"
proof -
  have "[0..<unat (3 :: u32) + 1] = [0, 1, 2, 3]" by (simp add: upt_rec)
  then have c: "sw_count sample_cq = 3"
    by (simp add: sw_count_def sample_cq_def is_sw_def get_sw_cqe_def get_cqe_def cqe64_of_def get_cqe_opcode_def
        sample_cqe_fields MLX5_CQE_INVALID_def MLX5_CQE_OWNER_MASK_def)
  have "[0..<3] = [0, 1, 2 :: nat]" by (simp add: upt_rec)
  then show ?thesis
    unfolding pending_def c
    by (simp add: sample_cq_def slot_at_def strip_own_def cqe64_of_def sample_cqe_fields MLX5_CQE_OWNER_MASK_def)
qed

theorem cq_clean_filters_witness:
  "\<exists>cq'. mlx5_ib_cq_clean (Some sample_cq) 7 None = Some (Some cq', None) \<and> pending cq' = [sample_cqe 9 2 0x20]"
proof -
  have "cqe_sz sample_cq = 64" by (simp add: sample_cq_def)
  with cq_clean_filters [OF sample_cq_wf, of 7] show ?thesis
    by (simp add: sample_cq_pending is_equal_rsn_def cqe64_of_def sample_cqe_fields) blast
qed

text \<open>
  When the destroyed queue pair received through a shared receive queue, cleaning also returns the
  receive entries of the removed completions to that queue: they join its free entries, the newest
  completion first, and every other completion and entry is untouched.
\<close>

theorem cq_clean_returns_receives:
  assumes "cq_wf k cq" and "length (pending cq) < 2 ^ k" and "srq_pool srq q"
    and "ids = map (\<lambda>c. unat (wqe_counter (cqe64_of (cqe_sz cq) c)))
      (filter (\<lambda>c. is_equal_rsn (cqe64_of (cqe_sz cq) c) qpn \<and> srqn (cqe64_of (cqe_sz cq) c) AND 0xffffff \<noteq> 0)
        (rev (pending cq)))"
    and "distinct (q @ ids)" and "\<forall>i \<in> set ids. i < length (wqes srq)"
  shows "\<exists>cq' srq'. mlx5_ib_cq_clean (Some cq) qpn (Some srq) = Some (Some cq', Some srq') \<and>
    srq_pool srq' (q @ ids) \<and>
    pending cq' = filter (\<lambda>c. \<not> is_equal_rsn (cqe64_of (cqe_sz cq) c) qpn) (pending cq)"
proof -
  have "concat (map (freed_ids sz rsn) xs) = map (\<lambda>c. unat (wqe_counter (cqe64_of sz c)))
      (filter (\<lambda>c. is_equal_rsn (cqe64_of sz c) rsn \<and> srqn (cqe64_of sz c) AND 0xffffff \<noteq> 0) xs)" for sz rsn xs
    by (induction xs) (simp_all add: freed_ids_def ent_match_def)
  then have ids: "concat (map (freed_ids (cqe_sz cq) qpn) (rev (pending cq))) = ids"
    using assms(4) by simp
  obtain srq' where "release_all mlx5_ib_free_srq_wqe srq ids = Some srq'" "srq_pool srq' (q @ ids)"
    using srq_pool.release_all_pool [OF assms(3,5)] assms(6) by blast
  then show ?thesis
    using cq_clean_general [of k cq qpn] assms(1,2) unfolding ids
    by (auto simp: mlx5_ib_cq_clean_def free_all_def pending_length ent_match_def)
qed

theorem cq_clean_returns_receives_witness:
  "\<exists>srq cq' srq'. srq_pool srq [2, 3] \<and>
    mlx5_ib_cq_clean (Some sample_cq) 7 (Some srq) = Some (Some cq', Some srq') \<and> srq_pool srq' [2, 3, 0, 1]"
proof -
  let ?wr = "sample_recv 1"
  have gs: "srq_max_gs sample_srq = 1" "length (wqes sample_srq) = 4" "length (sg_list ?wr) = 1"
    by (simp_all add: sample_srq_def create_srq_kernel_def sample_recv_def)
  obtain s where s: "post_srq_one sample_srq ?wr = Some s" "free_chain s [1, 2, 3]" "srq_wf s" "length (wqes s) = 4"
    using free_chain_post [of sample_srq 0 "[1, 2, 3]" ?wr] sample_srq_pool gs by (auto simp: srq_pool_def)
  obtain t where t: "free_chain t [2, 3]" "srq_wf t" "length (wqes t) = 4"
    using free_chain_post [of s 1 "[2, 3]" ?wr] post_srq_one_keeps [OF s(1)] s gs by auto
  have "cqe_sz sample_cq = 64" by (simp add: sample_cq_def)
  with cq_clean_returns_receives [OF sample_cq_wf, of t "[2, 3]" "[0, 1]" 7] t show ?thesis
    by (auto simp: sample_cq_pending is_equal_rsn_def cqe64_of_def sample_cqe_fields srq_pool_def)
qed

section \<open>Resizing\<close>

text \<open>
  \<^verbatim>\<open>copy_resize_cqes\<close> copies the waiting completions to the new buffer, up to the marker the hardware
  left.  The comparison of entry pointers is a comparison of slot numbers.
\<close>

definition copy_one :: "mlx5_ib_cq_buf \<Rightarrow> u32 \<Rightarrow> block \<Rightarrow> mlx5_ib_cq_buf option" where
  "copy_one rb i scqe = do {
     let d = (i + 1) AND nent rb;
     _ \<leftarrow> get_cqe rb d;
     let own = (op_own (cqe64_of (cqe_size rb) scqe) AND NOT MLX5_CQE_OWNER_MASK) OR sw_ownership_bit (i + 1) (nent rb);
     Some (rb\<lparr>slots := (slots rb)[unat d := set_op_own (cqe_size rb) scqe own]\<rparr>)
   }"

function copy_loop :: "mlx5_ib_cq \<Rightarrow> u32 \<Rightarrow> u32 \<Rightarrow> block \<Rightarrow> mlx5_ib_cq_buf \<Rightarrow> (int \<times> mlx5_ib_cq_buf) option" where
  "copy_loop cq start i scqe rb =
     (if get_cqe_opcode (cqe64_of (cqe_size (buf cq)) scqe) = MLX5_CQE_RESIZE_CQ then Some (0, rb)
      else do {
        rb \<leftarrow> copy_one rb i scqe;
        next \<leftarrow> get_sw_cqe cq (i + 1);
        (case next of None \<Rightarrow> Some (- EINVAL, rb)
         | Some scqe' \<Rightarrow>
             if (i + 1) AND cqe cq = start AND cqe cq then Some (- ENOMEM, rb)
             else copy_loop cq start (i + 1) scqe' rb)
      })"
  by pat_completeness auto

termination copy_loop
proof (relation "measure (\<lambda>(cq, start, i, scqe, rb). unat (start - 1 - i))")
  fix cq :: mlx5_ib_cq and start i :: u32 and scqe scqe' :: block and rb rb' :: mlx5_ib_cq_buf
  assume "(i + 1) AND cqe cq \<noteq> start AND cqe cq"
  then have "start - 1 - i \<noteq> 0" by (auto simp: algebra_simps)
  from unat_minus_one_less [OF this]
  show "((cq, start, i + 1, scqe', rb'), cq, start, i, scqe, rb) \<in>
      measure (\<lambda>(cq, start, i, scqe, rb). unat (start - 1 - i))"
    by (simp add: algebra_simps)
qed simp

declare copy_loop.simps [simp del]

definition copy_resize_cqes :: "mlx5_ib_cq \<Rightarrow> mlx5_ib_cq_buf \<Rightarrow> (int \<times> mlx5_ib_cq_buf \<times> mlx5_ib_cq) option" where
  "copy_resize_cqes cq rb =
     (if cqe_size (buf cq) \<noteq> cqe_size rb then Some (- EINVAL, rb, cq)
      else do {
        scqe \<leftarrow> get_sw_cqe cq (cons_index cq);
        (case scqe of None \<Rightarrow> Some (- EINVAL, rb, cq)
         | Some s \<Rightarrow> do {
             (err, rb) \<leftarrow> copy_loop cq (cons_index cq) (cons_index cq) s rb;
             Some (err, rb, if err = 0 then cq\<lparr>cons_index := cons_index cq + 1\<rparr> else cq)
           })
      })"

text \<open>The end of \<^verbatim>\<open>mlx5_ib_resize_cq\<close> for a queue of the kernel, under the queue's lock.\<close>

definition resize_finish :: "u32 \<Rightarrow> mlx5_ib_cq \<Rightarrow> mlx5_ib_cq option" where
  "resize_finish entries cq = do {
     cq \<leftarrow> (case resize_buf cq of None \<Rightarrow> Some cq
       | Some rb \<Rightarrow> do {
           (err, rb, cq) \<leftarrow> copy_resize_cqes cq rb;
           Some (if err = 0 then cq\<lparr>buf := rb, resize_buf := None\<rparr> else cq\<lparr>resize_buf := Some rb\<rparr>)
         });
     Some (cq\<lparr>cqe := entries - 1\<rparr>)
   }"

lemma and_pow2_cases: "(x :: u32) AND 2 ^ k = 0 \<or> x AND 2 ^ k = 2 ^ k"
proof (cases "bit x k")
  case True
  then have "x AND 2 ^ k = 2 ^ k" by (intro bit_word_eqI) (auto simp: bit_simps)
  then show ?thesis ..
next
  case False
  then have "x AND 2 ^ k = 0" by (intro bit_word_eqI) (auto simp: bit_simps)
  then show ?thesis ..
qed

lemma copy_one_first_slot:
  assumes "nent rb = 2 ^ k" "length (slots rb) = unat (nent rb)" "copy_one rb i scqe = Some rb'"
  shows "nent rb' = nent rb" "length (slots rb') = length (slots rb)" "0 < j \<Longrightarrow> slots rb' ! j = slots rb ! j"
proof -
  define d where "d = (i + 1) AND nent rb"
  have "unat d < length (slots rb)"
    using assms(3) by (auto simp: copy_one_def get_cqe_def d_def Let_def split: if_splits)
  then have "d \<noteq> nent rb" using assms(2) by auto
  then have "d = 0" using and_pow2_cases [of "i + 1" k] assms(1) by (auto simp: d_def)
  then show "nent rb' = nent rb" "length (slots rb') = length (slots rb)" "0 < j \<Longrightarrow> slots rb' ! j = slots rb ! j"
    using assms(3) by (auto simp: copy_one_def Let_def d_def bind_eq_Some_conv)
qed

lemma copy_loop_first_slot:
  assumes "nent rb = 2 ^ k" "length (slots rb) = unat (nent rb)" "copy_loop cq start i scqe rb = Some (err, rb')"
  shows "length (slots rb') = length (slots rb) \<and> (\<forall>j. 0 < j \<longrightarrow> slots rb' ! j = slots rb ! j)"
  using assms
proof (induction cq start i scqe rb rule: copy_loop.induct)
  case (1 cq start i scqe rb)
  show ?case
  proof (cases "get_cqe_opcode (cqe64_of (cqe_size (buf cq)) scqe) = MLX5_CQE_RESIZE_CQ")
    case True
    with 1(4) show ?thesis by (simp add: copy_loop.simps [of cq start i scqe rb])
  next
    case False
    obtain rb1 nx where c: "copy_one rb i scqe = Some rb1" "get_sw_cqe cq (i + 1) = Some nx"
      using 1(4) False by (auto simp: copy_loop.simps [of cq start i scqe rb] bind_eq_Some_conv)
    note rb1 = copy_one_first_slot [OF 1(2,3) c(1)]
    show ?thesis
    proof (cases "nx = None \<or> (i + 1) AND cqe cq = start AND cqe cq")
      case True
      with 1(4) False c have "rb' = rb1"
        by (auto simp: copy_loop.simps [of cq start i scqe rb] split: option.splits)
      with rb1 show ?thesis by simp
    next
      case more: False
      then obtain scqe' where nx: "nx = Some scqe'" by auto
      with 1(4) False c more have "copy_loop cq start (i + 1) scqe' rb1 = Some (err, rb')"
        by (simp add: copy_loop.simps [of cq start i scqe rb])
      with 1(1) [OF False c nx] more rb1 1(2,3) show ?thesis by simp
    qed
  qed
qed

text \<open>
  Copying the waiting completions into a resized buffer writes at most its first slot: the index
  is masked with the number of entries instead of that number minus one.  Whatever the number of
  waiting completions, every slot but the first keeps its old contents.
\<close>

theorem copy_resize_cqes_overwrites:
  assumes "nent rb = 2 ^ k" and "length (slots rb) = unat (nent rb)"
    and "copy_resize_cqes cq rb = Some (err, rb', cq')"
  shows "length (slots rb') = length (slots rb) \<and> (\<forall>j. 0 < j \<longrightarrow> slots rb' ! j = slots rb ! j)"
proof (cases "rb' = rb")
  case False
  with assms(3) obtain s e where "copy_loop cq (cons_index cq) (cons_index cq) s rb = Some (e, rb')"
    by (auto simp: copy_resize_cqes_def bind_eq_Some_conv split: if_splits option.splits)
  with assms(1,2) show ?thesis by (rule copy_loop_first_slot)
qed simp

definition resize_cq_sample :: mlx5_ib_cq where
  "resize_cq_sample = sample_cq\<lparr>buf := \<lparr>slots = [sample_cqe 7 1 0x20, sample_cqe 9 2 0x20, sample_cqe 0 0 0x50,
     sample_cqe 0 0 0xf1], cqe_size = 64, nent = 4\<rparr>\<rparr>"

definition resize_buf_sample :: mlx5_ib_cq_buf where
  "resize_buf_sample = \<lparr>slots = replicate 8 (sample_cqe 0 0 0xf1), cqe_size = 64, nent = 8\<rparr>"

lemma copy_loop_step:
  "get_cqe_opcode (cqe64_of (cqe_size (buf cq)) scqe) \<noteq> MLX5_CQE_RESIZE_CQ \<Longrightarrow> copy_one rb i scqe = Some rb1 \<Longrightarrow>
   get_sw_cqe cq (i + 1) = Some (Some scqe') \<Longrightarrow> (i + 1) AND cqe cq \<noteq> start AND cqe cq \<Longrightarrow>
     copy_loop cq start i scqe rb = copy_loop cq start (i + 1) scqe' rb1"
  by (simp add: copy_loop.simps [of cq start i scqe rb])

lemmas sample_eval = get_sw_cqe_def get_cqe_def cqe64_of_def get_cqe_opcode_def sample_cqe_fields
  MLX5_CQE_INVALID_def MLX5_CQE_OWNER_MASK_def MLX5_CQE_RESIZE_CQ_def sw_ownership_bit_def Let_def

theorem copy_resize_cqes_overwrites_witness:
  "\<exists>rb' cq'. copy_resize_cqes resize_cq_sample resize_buf_sample = Some (0, rb', cq') \<and>
    is_sw resize_cq_sample 0 \<and> is_sw resize_cq_sample 1 \<and> slots rb' ! 0 = sample_cqe 9 2 0x20 \<and>
    (\<forall>j. 0 < j \<longrightarrow> slots rb' ! j = slots resize_buf_sample ! j)"
proof -
  define rb where "rb e = resize_buf_sample\<lparr>slots := (slots resize_buf_sample)[0 := e]\<rparr>" for e
  have one: "copy_one resize_buf_sample 0 (sample_cqe 7 1 0x20) = Some (rb (sample_cqe 7 1 0x20))"
      "copy_one (rb (sample_cqe 7 1 0x20)) 1 (sample_cqe 9 2 0x20) = Some (rb (sample_cqe 9 2 0x20))"
    by (simp_all add: copy_one_def resize_buf_sample_def rb_def sample_eval)
  have sw: "get_sw_cqe resize_cq_sample 0 = Some (Some (sample_cqe 7 1 0x20))"
      "get_sw_cqe resize_cq_sample 1 = Some (Some (sample_cqe 9 2 0x20))"
      "get_sw_cqe resize_cq_sample 2 = Some (Some (sample_cqe 0 0 0x50))"
    by (simp_all add: resize_cq_sample_def sample_cq_def sample_eval)
  have start: "cons_index resize_cq_sample = 0" "cqe resize_cq_sample = 3" "cqe_size (buf resize_cq_sample) = 64"
    by (simp_all add: resize_cq_sample_def sample_cq_def)
  have "copy_loop resize_cq_sample 0 2 (sample_cqe 0 0 0x50) (rb (sample_cqe 9 2 0x20)) = Some (0, rb (sample_cqe 9 2 0x20))"
    by (subst copy_loop.simps) (simp add: start sample_eval)
  moreover have "copy_loop resize_cq_sample 0 1 (sample_cqe 9 2 0x20) (rb (sample_cqe 7 1 0x20)) =
      copy_loop resize_cq_sample 0 2 (sample_cqe 0 0 0x50) (rb (sample_cqe 9 2 0x20))"
    by (subst copy_loop_step [OF _ one(2)]) (simp_all add: start sw, simp add: sample_eval)
  moreover have "copy_loop resize_cq_sample 0 0 (sample_cqe 7 1 0x20) resize_buf_sample =
      copy_loop resize_cq_sample 0 1 (sample_cqe 9 2 0x20) (rb (sample_cqe 7 1 0x20))"
    by (subst copy_loop_step [OF _ one(1)]) (simp_all add: start sw, simp add: sample_eval)
  ultimately have run: "copy_resize_cqes resize_cq_sample resize_buf_sample =
      Some (0, rb (sample_cqe 9 2 0x20), resize_cq_sample\<lparr>cons_index := 1\<rparr>)"
    by (simp add: copy_resize_cqes_def start sw resize_buf_sample_def)
  have "nent resize_buf_sample = 2 ^ 3" "length (slots resize_buf_sample) = unat (nent resize_buf_sample)"
    by (simp_all add: resize_buf_sample_def)
  from copy_resize_cqes_overwrites [OF this run] run show ?thesis
    by (simp add: is_sw_def sw) (simp add: rb_def resize_buf_sample_def)
qed

end
