(* ===== verification/CqLock.thy ===== *)
theory CqLock
  imports QpState
begin

text \<open>
  The order in which the mlx5 driver takes the locks of the two completion queues of a queue pair
  (\<^verbatim>\<open>mlx5_ib_lock_cqs\<close> and \<^verbatim>\<open>mlx5_ib_unlock_cqs\<close> in \<^verbatim>\<open>drivers/infiniband/hw/mlx5/qp.c\<close>), and which
  queues those are (\<^verbatim>\<open>get_cqs\<close>).  A completion queue is identified by its number; any number of
  threads run lock and unlock sequences in any interleaving.
\<close>

section \<open>Which queues\<close>

definition get_cqs :: "ib_qp_type \<Rightarrow> nat option \<Rightarrow> nat option \<Rightarrow> nat option \<times> nat option" where
  "get_cqs t send recv =
     (if t = IB_QPT_XRC_TGT then (None, None)
      else if t \<in> {IB_QPT_RESERVED1, IB_QPT_XRC_INI} then (send, None)
      else if t \<in> {IB_QPT_SMI, IB_QPT_RESERVED2, IB_QPT_RC, IB_QPT_UC, IB_QPT_UD, IB_QPT_RAW_IPV6,
          IB_QPT_RAW_ETHERTYPE, IB_QPT_RESERVED5, IB_QPT_RAW_PACKET} then (send, recv)
      else (None, None))"

section \<open>Lock sequences\<close>

datatype lock_event = Acquire nat | Release nat

fun mlx5_ib_lock_cqs :: "nat option \<Rightarrow> nat option \<Rightarrow> lock_event list" where
  "mlx5_ib_lock_cqs (Some s) (Some r) =
     (if s < r then [Acquire s, Acquire r] else if s = r then [Acquire s] else [Acquire r, Acquire s])"
| "mlx5_ib_lock_cqs (Some s) None = [Acquire s]"
| "mlx5_ib_lock_cqs None (Some r) = [Acquire r]"
| "mlx5_ib_lock_cqs None None = []"

fun mlx5_ib_unlock_cqs :: "nat option \<Rightarrow> nat option \<Rightarrow> lock_event list" where
  "mlx5_ib_unlock_cqs (Some s) (Some r) =
     (if s < r then [Release r, Release s] else if s = r then [Release s] else [Release s, Release r])"
| "mlx5_ib_unlock_cqs (Some s) None = [Release s]"
| "mlx5_ib_unlock_cqs None (Some r) = [Release r]"
| "mlx5_ib_unlock_cqs None None = []"

section \<open>Threads\<close>

text \<open>
  A state maps each lock to the thread holding it, and lists what every thread still has to do.  A
  thread waits while the lock it wants is held, by itself included.
\<close>

type_synonym lock_state = "(nat \<Rightarrow> nat option) \<times> lock_event list list"

inductive lock_step :: "lock_state \<Rightarrow> lock_state \<Rightarrow> bool" where
  acquire: "i < length rest \<Longrightarrow> rest ! i = Acquire l # es \<Longrightarrow> held l = None \<Longrightarrow>
     lock_step (held, rest) (held(l := Some i), rest[i := es])"
| release: "i < length rest \<Longrightarrow> rest ! i = Release l # es \<Longrightarrow>
     lock_step (held, rest) (held(l := None), rest[i := es])"

inductive lock_reach :: "(nat option \<times> nat option) list \<Rightarrow> lock_state \<Rightarrow> bool" for cqs where
  start: "lock_reach cqs (\<lambda>_. None, map (\<lambda>(s, r). mlx5_ib_lock_cqs s r @ mlx5_ib_unlock_cqs s r) cqs)"
| step: "lock_reach cqs st \<Longrightarrow> lock_step st st' \<Longrightarrow> lock_reach cqs st'"

inductive_cases lock_stepE: "lock_step st st'"

text \<open>
  What holds of a thread at any time: the locks it has yet to take are taken in increasing order, above
  those it holds; it holds exactly the locks it will release without taking them first; and each
  lock is taken and released at most once.
\<close>

definition ordered :: "lock_event list \<Rightarrow> bool" where
  "ordered es = (\<exists>as rs. es = map Acquire as @ map Release rs \<and> sorted_wrt (<) as \<and> distinct rs \<and>
     set as \<subseteq> set rs \<and> (\<forall>a \<in> set as. \<forall>r \<in> set rs - set as. r < a))"

definition holds :: "lock_event list \<Rightarrow> nat set" where
  "holds es = {l. Release l \<in> set es \<and> Acquire l \<notin> set es}"

definition lock_inv :: "lock_state \<Rightarrow> bool" where
  "lock_inv = (\<lambda>(held, rest). (\<forall>l i. held l = Some i \<longrightarrow> i < length rest) \<and> (\<forall>i < length rest. ordered (rest ! i) \<and> (\<forall>l. held l = Some i \<longleftrightarrow> l \<in> holds (rest ! i))))"

lemma orderedI:
  "es = map Acquire as @ map Release rs \<Longrightarrow> sorted_wrt (<) as \<Longrightarrow> distinct rs \<Longrightarrow> set as \<subseteq> set rs \<Longrightarrow>
     (\<And>a r. a \<in> set as \<Longrightarrow> r \<in> set rs \<Longrightarrow> r \<notin> set as \<Longrightarrow> r < a) \<Longrightarrow> ordered es"
  unfolding ordered_def by blast

lemma lock_sequence_ordered: "ordered (mlx5_ib_lock_cqs s r @ mlx5_ib_unlock_cqs s r)"
proof -
  have "ordered (map Acquire as @ map Release rs)"
    if "sorted_wrt (<) as" "distinct rs" "set as = set rs" for as rs
    using that by (intro orderedI [OF refl]) auto
  from this [of "[]" "[]"] this [of "[the s]" "[the s]"] this [of "[the r]" "[the r]"]
    this [of "[the s, the r]" "[the r, the s]"] this [of "[the r, the s]" "[the s, the r]"]
  show ?thesis by (cases s; cases r) (auto simp: insert_commute split: if_splits)
qed

lemma lock_sequence_holds: "holds (mlx5_ib_lock_cqs s r @ mlx5_ib_unlock_cqs s r) = {}"
  by (cases s; cases r) (auto simp: holds_def)

lemma ordered_acquire:
  assumes "ordered (Acquire l # es)"
  shows "ordered es" "holds es = insert l (holds (Acquire l # es))" "\<forall>k \<in> holds (Acquire l # es). k < l"
proof -
  obtain as rs where e: "Acquire l # es = map Acquire as @ map Release rs" "sorted_wrt (<) as" "distinct rs"
      "set as \<subseteq> set rs" "\<forall>a \<in> set as. \<forall>r \<in> set rs - set as. r < a"
    using assms by (auto simp: ordered_def)
  then obtain bs where b: "as = l # bs" by (cases as) (auto simp: map_eq_Cons_conv)
  then have es: "es = map Acquire bs @ map Release rs" using e(1) by simp
  moreover have "\<forall>a \<in> set bs. \<forall>r \<in> set rs - set bs. r < a" using e(2,5) b by auto
  ultimately show "ordered es" using e b by (auto simp: ordered_def)
  show "holds es = insert l (holds (Acquire l # es))"
    using es e(2,4) b by (auto simp: holds_def)
  show "\<forall>k \<in> holds (Acquire l # es). k < l"
    using es e(5) b by (auto simp: holds_def)
qed

lemma ordered_release:
  assumes "ordered (Release l # es)"
  shows "ordered es" "holds es = holds (Release l # es) - {l}" "l \<in> holds (Release l # es)"
proof -
  obtain as rs where e: "Release l # es = map Acquire as @ map Release rs" "distinct rs" "set as \<subseteq> set rs"
    using assms by (auto simp: ordered_def)
  then have "as = []" by (cases as) auto
  with e obtain qs where q: "rs = l # qs" "es = map Release qs" by auto
  then show "ordered es" using e(2) by (intro orderedI [of _ "[]" qs]) auto
  show "holds es = holds (Release l # es) - {l}" "l \<in> holds (Release l # es)"
    using q e(2) by (auto simp: holds_def)
qed

lemma lock_inv_start:
  "lock_inv (\<lambda>_. None, map (\<lambda>(s, r). mlx5_ib_lock_cqs s r @ mlx5_ib_unlock_cqs s r) cqs)"
  by (simp add: lock_inv_def split_beta lock_sequence_ordered lock_sequence_holds)

lemma lock_inv_step:
  assumes "lock_inv st" "lock_step st st'"
  shows "lock_inv st'"
  using assms(2)
proof cases
  case (acquire i rest l es held)
  with assms(1) have inv: "ordered (rest ! j)" "held k = Some j \<longleftrightarrow> k \<in> holds (rest ! j)" if "j < length rest" for j k
    using that by (auto simp: lock_inv_def)
  have bound: "held k = Some j \<Longrightarrow> j < length rest" for k j
    using assms(1) acquire by (auto simp: lock_inv_def)
  have "ordered (Acquire l # es)" using inv(1) acquire by metis
  note o = ordered_acquire [OF this]
  have "l \<notin> holds (rest ! j)" if "j < length rest" for j
    using inv(2) [OF that, of l] acquire by simp
  then show ?thesis
    using inv o acquire bound by (auto simp: lock_inv_def nth_list_update)
next
  case (release i rest l es held)
  with assms(1) have inv: "ordered (rest ! j)" "held k = Some j \<longleftrightarrow> k \<in> holds (rest ! j)" if "j < length rest" for j k
    using that by (auto simp: lock_inv_def)
  have bound: "held k = Some j \<Longrightarrow> j < length rest" for k j
    using assms(1) release by (auto simp: lock_inv_def)
  have "ordered (Release l # es)" using inv(1) release by metis
  note o = ordered_release [OF this]
  have "held l = Some i" using inv(2) [of i l] o(3) release by simp
  then have "l \<notin> holds (rest ! j)" if "j < length rest" "j \<noteq> i" for j
    using inv(2) [OF that(1), of l] that(2) by auto
  then show ?thesis
    using inv o release bound by (auto simp: lock_inv_def nth_list_update)
qed

lemma lock_reach_inv: "lock_reach cqs st \<Longrightarrow> lock_inv st"
  by (induction rule: lock_reach.induct) (auto intro: lock_inv_start lock_inv_step)

lemma no_deadlock:
  assumes "lock_inv (held, rest)" "i < length rest" "rest ! i \<noteq> []"
  shows "\<exists>st'. lock_step (held, rest) st'"
proof (rule ccontr)
  assume stuck: "\<not> ?thesis"
  define W where "W = {l. \<exists>j < length rest. \<exists>es. rest ! j = Acquire l # es}"
  have wait: "\<exists>l \<in> W. rest ! j = Acquire l # tl (rest ! j)" if "j < length rest" "rest ! j \<noteq> []" for j
    using that stuck by (cases "rest ! j"; cases "hd (rest ! j)") (auto simp: W_def intro: lock_step.intros)
  have next_lock: "\<exists>l' \<in> W. l < l'" if l: "l \<in> W" for l
  proof -
    obtain j es where j: "j < length rest" "rest ! j = Acquire l # es" using l by (auto simp: W_def)
    then obtain h where h: "held l = Some h" using stuck by (cases "held l") (auto intro: lock_step.acquire)
    then have hl: "h < length rest" "l \<in> holds (rest ! h)" "ordered (rest ! h)"
      using assms(1) by (auto simp: lock_inv_def)
    then have "rest ! h \<noteq> []" by (auto simp: holds_def)
    with wait [OF hl(1)] obtain l' where "l' \<in> W" "rest ! h = Acquire l' # tl (rest ! h)" by blast
    with hl ordered_acquire(3) [of l' "tl (rest ! h)"] show ?thesis by auto
  qed
  have "W \<subseteq> (\<lambda>e. case e of Acquire l \<Rightarrow> l | Release l \<Rightarrow> l) ` set (concat rest)"
  proof
    fix l
    assume "l \<in> W"
    then obtain j es where "j < length rest" "rest ! j = Acquire l # es" by (auto simp: W_def)
    then have "Acquire l \<in> set (concat rest)" using nth_mem [of j rest] by (auto intro!: bexI [of _ "rest ! j"])
    then show "l \<in> (\<lambda>e. case e of Acquire l \<Rightarrow> l | Release l \<Rightarrow> l) ` set (concat rest)"
      by (rule rev_image_eqI) simp
  qed
  then have "finite W" by (rule finite_subset) simp
  moreover have "W \<noteq> {}" using wait [OF assms(2,3)] by blast
  ultimately show False using next_lock [OF Max_in] Max_ge by (metis leD)
qed

lemma lock_step_shorter:
  "lock_step st st' \<Longrightarrow> sum_list (map length (snd st')) < sum_list (map length (snd st))"
proof (induction rule: lock_step.induct)
  case (acquire i rest l es held)
  then show ?case using elem_le_sum_list [of i "map length rest"] by (simp add: map_update sum_list_update)
next
  case (release i rest l es held)
  then show ?case using elem_le_sum_list [of i "map length rest"] by (simp add: map_update sum_list_update)
qed

text \<open>
  C37. Locking the completion queues of queue pairs never deadlocks: whatever pairs of queues the
  threads use and however they interleave, some thread can always go on as long as one is not
  finished, every step makes the remaining work smaller, and when all are finished all locks are
  free.
\<close>

theorem lock_cqs_progress:
  assumes "lock_reach cqs (held, rest)"
  shows "(\<exists>st'. lock_step (held, rest) st' \<and> sum_list (map length (snd st')) < sum_list (map length rest)) \<or>
    (rest = replicate (length rest) [] \<and> (\<forall>l. held l = None))"
proof (cases "\<exists>i < length rest. rest ! i \<noteq> []")
  case True
  then obtain st' where "lock_step (held, rest) st'"
    using no_deadlock lock_reach_inv [OF assms] by blast
  with lock_step_shorter [OF this] have "lock_step (held, rest) st' \<and> sum_list (map length (snd st')) < sum_list (map length rest)"
    by simp
  then show ?thesis by blast
next
  case False
  have "held l = None" for l
  proof (rule ccontr)
    assume "held l \<noteq> None"
    then obtain i where "held l = Some i" by auto
    then have "i < length rest" "l \<in> holds (rest ! i)" using lock_reach_inv [OF assms] by (auto simp: lock_inv_def)
    then show False using False by (simp add: holds_def)
  qed
  moreover have "rest = replicate (length rest) []" using False by (intro nth_equalityI) auto
  ultimately show ?thesis by blast
qed

theorem lock_cqs_progress_witness:
  "\<exists>st'. lock_step (\<lambda>_. None, [[Acquire 3, Acquire 8, Release 8, Release 3], [Acquire 3, Acquire 8, Release 8, Release 3]]) st'"
proof -
  have "lock_reach [(Some 3, Some 8), (Some 8, Some 3)] (\<lambda>_. None,
      [[Acquire 3, Acquire 8, Release 8, Release 3], [Acquire 3, Acquire 8, Release 8, Release 3]])"
    using lock_reach.start [of "[(Some 3, Some 8), (Some 8, Some 3)]"] by simp
  from lock_cqs_progress [OF this] show ?thesis by auto
qed

end
