(* ===== verification/Mlx5Destroy.thy ===== *)
theory Mlx5Destroy
  imports Mlx5Cq CqLock
begin

text \<open>
  The completion queues of a queue pair that is destroyed (\<^verbatim>\<open>destroy_qp_common\<close> in
  \<^verbatim>\<open>drivers/infiniband/hw/mlx5/qp.c\<close>): the queues chosen by \<^verbatim>\<open>get_cqs\<close> are locked, cleaned and
  unlocked.  Completion queues live in a table under their numbers.
\<close>

type_synonym cq_table = "nat \<Rightarrow> mlx5_ib_cq option"

text \<open>\<^verbatim>\<open>__mlx5_ib_cq_clean\<close> on a pointer into the table; a null pointer is left alone.\<close>

definition clean_at :: "cq_table \<Rightarrow> nat option \<Rightarrow> u32 \<Rightarrow> mlx5_ib_srq option \<Rightarrow> (cq_table \<times> mlx5_ib_srq option) option" where
  "clean_at cqs n qpn srq = (case n of None \<Rightarrow> Some (cqs, srq)
     | Some i \<Rightarrow> do {
         cq \<leftarrow> cqs i;
         (cq', srq') \<leftarrow> cq_clean cq qpn srq;
         Some (cqs(i \<mapsto> cq'), srq')
       })"

text \<open>
  The part of \<^verbatim>\<open>destroy_qp_common\<close> between the choice of the queues and the destruction of the hardware
  object; the second component of the result is the sequence of lock operations around it.
\<close>

definition destroy_qp_cqs :: "ib_qp_type \<Rightarrow> bool \<Rightarrow> u32 \<Rightarrow> nat option \<Rightarrow> nat option \<Rightarrow> mlx5_ib_srq option \<Rightarrow> cq_table \<Rightarrow>
    (cq_table \<times> mlx5_ib_srq option \<times> lock_event list) option" where
  "destroy_qp_cqs t in_kernel qpn ib_send_cq ib_recv_cq srq cqs =
     (let (send_cq, recv_cq) = get_cqs t ib_send_cq ib_recv_cq;
          locks = mlx5_ib_lock_cqs send_cq recv_cq @ mlx5_ib_unlock_cqs send_cq recv_cq in
      if \<not> in_kernel then Some (cqs, srq, locks)
      else do {
        (cqs, srq) \<leftarrow> clean_at cqs recv_cq qpn srq;
        (cqs, _) \<leftarrow> (if send_cq \<noteq> recv_cq then clean_at cqs send_cq qpn None else Some (cqs, None));
        Some (cqs, srq, locks)
      })"

definition cq_ready :: "mlx5_ib_cq \<Rightarrow> bool" where
  "cq_ready cq = (\<exists>k. cq_wf k cq \<and> length (pending cq) < 2 ^ k)"

lemma clean_at_filters:
  assumes "cqs i = Some cq" "cq_ready cq"
  shows "\<exists>cq'. clean_at cqs (Some i) qpn None = Some (cqs(i \<mapsto> cq'), None) \<and> cq_ready cq' \<and> cqe_sz cq' = cqe_sz cq \<and>
    pending cq' = filter (\<lambda>c. \<not> is_equal_rsn (cqe64_of (cqe_sz cq) c) qpn) (pending cq)"
proof -
  obtain k where k: "cq_wf k cq" "sw_count cq < 2 ^ k"
    using assms(2) by (auto simp: cq_ready_def pending_length)
  obtain cq' where c: "cq_clean cq qpn None = Some (cq', None)" "cq_wf k cq'" "cqe_sz cq' = cqe_sz cq"
      "pending cq' = filter (\<lambda>c. \<not> ent_match (cqe_sz cq) qpn c) (pending cq)"
    using cq_clean_general [OF k, of qpn] by (auto simp: free_all_def)
  have "length (pending cq') \<le> length (pending cq)" unfolding c(4) by (rule length_filter_le)
  then have "cq_ready cq'"
    using c(2) k(2) unfolding cq_ready_def by (intro exI [of _ k]) (simp add: pending_length)
  with c assms(1) show ?thesis by (intro exI [of _ cq']) (simp add: clean_at_def ent_match_def)
qed

text \<open>
  C35. Destroying a queue pair of the kernel of one of the types SMI, RC, UC, UD and raw packet, without a shared receive
  queue, removes all its completions, and only those, from its two completion queues, which may be the same; other queues
  are not touched.  A dynamically connected initiator, in contrast, leaves its completions behind.
\<close>

theorem destroy_qp_cleans:
  assumes "t \<in> {IB_QPT_SMI, IB_QPT_RC, IB_QPT_UC, IB_QPT_UD, IB_QPT_RAW_PACKET}"
    and "cqs s = Some scq" and "cqs r = Some rcq" and "cq_ready scq" and "cq_ready rcq"
  shows "\<exists>cqs' locks. destroy_qp_cqs t True qpn (Some s) (Some r) None cqs = Some (cqs', None, locks) \<and>
    (\<forall>i. i \<noteq> s \<longrightarrow> i \<noteq> r \<longrightarrow> cqs' i = cqs i) \<and>
    (\<forall>i cq. i = s \<or> i = r \<longrightarrow> cqs i = Some cq \<longrightarrow> (\<exists>cq'. cqs' i = Some cq' \<and>
       pending cq' = filter (\<lambda>c. \<not> is_equal_rsn (cqe64_of (cqe_sz cq) c) qpn) (pending cq)))"
proof -
  have t: "get_cqs t (Some s) (Some r) = (Some s, Some r)" using assms(1) by (auto simp: get_cqs_def)
  obtain rcq' where r: "clean_at cqs (Some r) qpn None = Some (cqs(r \<mapsto> rcq'), None)"
      "pending rcq' = filter (\<lambda>c. \<not> is_equal_rsn (cqe64_of (cqe_sz rcq) c) qpn) (pending rcq)"
    using clean_at_filters [of cqs r rcq qpn] assms(3,5) by blast
  show ?thesis
  proof (cases "s = r")
    case True
    with r t assms(3) show ?thesis by (auto simp: destroy_qp_cqs_def)
  next
    case False
    then obtain scq' where s: "clean_at (cqs(r \<mapsto> rcq')) (Some s) qpn None = Some (cqs(r \<mapsto> rcq', s \<mapsto> scq'), None)"
        "pending scq' = filter (\<lambda>c. \<not> is_equal_rsn (cqe64_of (cqe_sz scq) c) qpn) (pending scq)"
      using clean_at_filters [of "cqs(r \<mapsto> rcq')" s scq qpn] assms(2,4) by auto
    with r t False assms(2,3) show ?thesis by (auto simp: destroy_qp_cqs_def)
  qed
qed

theorem destroy_qp_cleans_witness:
  "\<exists>cqs' locks cq'. destroy_qp_cqs IB_QPT_RC True 7 (Some 1) (Some 1) None [1 \<mapsto> sample_cq] = Some (cqs', None, locks) \<and>
    cqs' 1 = Some cq' \<and> pending cq' = [sample_cqe 9 2 0x20]"
proof -
  have "cq_ready sample_cq"
    using sample_cq_wf by (auto simp: cq_ready_def sample_cq_pending intro!: exI [of _ 2])
  moreover have "cqe_sz sample_cq = 64" by (simp add: sample_cq_def)
  ultimately show ?thesis
    using destroy_qp_cleans [of IB_QPT_RC "[1 \<mapsto> sample_cq]" 1 sample_cq 1 sample_cq 7]
    by (auto simp: sample_cq_pending is_equal_rsn_def cqe64_of_def sample_cqe_fields dest!: spec [of _ 1])
qed

text \<open>
  For a dynamically connected initiator \<^verbatim>\<open>get_cqs\<close> knows no queues: nothing is locked, and all
  completions of the destroyed queue pair stay in the completion queues it used.
\<close>

lemma destroy_dci_keeps_completions:
  "destroy_qp_cqs IB_EXP_QPT_DC_INI in_kernel qpn send recv srq cqs = Some (cqs, srq, [])"
  by (simp add: destroy_qp_cqs_def get_cqs_def clean_at_def)

end
