(* ===== verification/Mlx5QpTables.thy ===== *)
theory Mlx5QpTables
  imports Mlx5Sizing
begin

text \<open>
  The tables and conversions behind the mlx5 driver's \<^verbatim>\<open>modify_qp\<close>, \<^verbatim>\<open>drivers/infiniband/hw/mlx5/qp.c\<close>:
  states and transport types in the encoding of the hardware, the optional parameters the firmware
  accepts for a transition (\<^verbatim>\<open>opt_mask\<close>), the command for a transition (\<^verbatim>\<open>optab\<close>), attribute masks
  (\<^verbatim>\<open>ib_nr_to_mlx5_nr\<close>, \<^verbatim>\<open>ib_mask_to_mlx5_opt\<close>, \<^verbatim>\<open>is_valid_mask\<close>, \<^verbatim>\<open>modify_dci_qp_is_ok\<close>), rates, atomic
  modes and access flags.  Device capabilities are arguments.
\<close>

unbundle bit_operations_syntax

section \<open>Encodings\<close>

datatype mlx5_qp_state =
  MLX5_QP_STATE_RST | MLX5_QP_STATE_INIT | MLX5_QP_STATE_RTR | MLX5_QP_STATE_RTS | MLX5_QP_STATE_SQER |
  MLX5_QP_STATE_SQD | MLX5_QP_STATE_ERR | MLX5_QP_STATE_SQ_DRAINING | MLX5_QP_STATE_SUSPENDED

fun to_mlx5_state :: "ib_qp_state \<Rightarrow> mlx5_qp_state" where
  "to_mlx5_state IB_QPS_RESET = MLX5_QP_STATE_RST"
| "to_mlx5_state IB_QPS_INIT = MLX5_QP_STATE_INIT"
| "to_mlx5_state IB_QPS_RTR = MLX5_QP_STATE_RTR"
| "to_mlx5_state IB_QPS_RTS = MLX5_QP_STATE_RTS"
| "to_mlx5_state IB_QPS_SQD = MLX5_QP_STATE_SQD"
| "to_mlx5_state IB_QPS_SQE = MLX5_QP_STATE_SQER"
| "to_mlx5_state IB_QPS_ERR = MLX5_QP_STATE_ERR"

text \<open>The way back, used by queries; a suspended queue pair has no state of the verbs interface.\<close>

fun to_ib_qp_state :: "mlx5_qp_state \<Rightarrow> ib_qp_state option" where
  "to_ib_qp_state MLX5_QP_STATE_RST = Some IB_QPS_RESET"
| "to_ib_qp_state MLX5_QP_STATE_INIT = Some IB_QPS_INIT"
| "to_ib_qp_state MLX5_QP_STATE_RTR = Some IB_QPS_RTR"
| "to_ib_qp_state MLX5_QP_STATE_RTS = Some IB_QPS_RTS"
| "to_ib_qp_state MLX5_QP_STATE_SQ_DRAINING = Some IB_QPS_SQD"
| "to_ib_qp_state MLX5_QP_STATE_SQD = Some IB_QPS_SQD"
| "to_ib_qp_state MLX5_QP_STATE_SQER = Some IB_QPS_SQE"
| "to_ib_qp_state MLX5_QP_STATE_ERR = Some IB_QPS_ERR"
| "to_ib_qp_state MLX5_QP_STATE_SUSPENDED = None"

definition MLX5_QP_ST_RC :: nat where "MLX5_QP_ST_RC = 0"
definition MLX5_QP_ST_UC :: nat where "MLX5_QP_ST_UC = 1"
definition MLX5_QP_ST_UD :: nat where "MLX5_QP_ST_UD = 2"
definition MLX5_QP_ST_XRC :: nat where "MLX5_QP_ST_XRC = 3"
definition MLX5_QP_ST_MLX :: nat where "MLX5_QP_ST_MLX = 4"
definition MLX5_QP_ST_DCI :: nat where "MLX5_QP_ST_DCI = 5"
definition MLX5_QP_ST_QP0 :: nat where "MLX5_QP_ST_QP0 = 7"
definition MLX5_QP_ST_QP1 :: nat where "MLX5_QP_ST_QP1 = 8"
definition MLX5_QP_ST_RAW_ETHERTYPE :: nat where "MLX5_QP_ST_RAW_ETHERTYPE = 9"
definition MLX5_QP_ST_RAW_IPV6 :: nat where "MLX5_QP_ST_RAW_IPV6 = 10"
definition MLX5_QP_ST_REG_UMR :: nat where "MLX5_QP_ST_REG_UMR = 12"
definition MLX5_QP_ST_SW_CNAK :: nat where "MLX5_QP_ST_SW_CNAK = 16"
definition MLX5_QP_ST_MAX :: nat where "MLX5_QP_ST_MAX = 13"

text \<open>The transport type; \<^const>\<open>None\<close> is the error \<^verbatim>\<open>-EINVAL\<close>.\<close>

definition to_mlx5_st :: "ib_qp_type \<Rightarrow> nat option" where
  "to_mlx5_st t =
     (case t of
        IB_QPT_RC \<Rightarrow> Some MLX5_QP_ST_RC
      | IB_QPT_UC \<Rightarrow> Some MLX5_QP_ST_UC
      | IB_QPT_UD \<Rightarrow> Some MLX5_QP_ST_UD
      | IB_QPT_RESERVED1 \<Rightarrow> Some MLX5_QP_ST_REG_UMR
      | IB_QPT_RESERVED5 \<Rightarrow> Some MLX5_QP_ST_SW_CNAK
      | IB_QPT_XRC_INI \<Rightarrow> Some MLX5_QP_ST_XRC
      | IB_QPT_XRC_TGT \<Rightarrow> Some MLX5_QP_ST_XRC
      | IB_QPT_SMI \<Rightarrow> Some MLX5_QP_ST_QP0
      | IB_QPT_RESERVED2 \<Rightarrow> Some MLX5_QP_ST_QP1
      | IB_QPT_RESERVED3 \<Rightarrow> Some MLX5_QP_ST_DCI
      | IB_QPT_RAW_IPV6 \<Rightarrow> Some MLX5_QP_ST_RAW_IPV6
      | IB_QPT_RAW_PACKET \<Rightarrow> Some MLX5_QP_ST_RAW_ETHERTYPE
      | IB_QPT_RAW_ETHERTYPE \<Rightarrow> Some MLX5_QP_ST_RAW_ETHERTYPE
      | IB_EXP_QPT_DC_INI \<Rightarrow> Some MLX5_QP_ST_DCI
      | _ \<Rightarrow> None)"

section \<open>Optional parameters\<close>

definition MLX5_QP_OPTPAR_ALT_ADDR_PATH :: u32 where "MLX5_QP_OPTPAR_ALT_ADDR_PATH = 0x1"
definition MLX5_QP_OPTPAR_RRE :: u32 where "MLX5_QP_OPTPAR_RRE = 0x2"
definition MLX5_QP_OPTPAR_RAE :: u32 where "MLX5_QP_OPTPAR_RAE = 0x4"
definition MLX5_QP_OPTPAR_RWE :: u32 where "MLX5_QP_OPTPAR_RWE = 0x8"
definition MLX5_QP_OPTPAR_PKEY_INDEX :: u32 where "MLX5_QP_OPTPAR_PKEY_INDEX = 0x10"
definition MLX5_QP_OPTPAR_Q_KEY :: u32 where "MLX5_QP_OPTPAR_Q_KEY = 0x20"
definition MLX5_QP_OPTPAR_RNR_TIMEOUT :: u32 where "MLX5_QP_OPTPAR_RNR_TIMEOUT = 0x40"
definition MLX5_QP_OPTPAR_PRIMARY_ADDR_PATH :: u32 where "MLX5_QP_OPTPAR_PRIMARY_ADDR_PATH = 0x80"
definition MLX5_QP_OPTPAR_SRA_MAX :: u32 where "MLX5_QP_OPTPAR_SRA_MAX = 0x100"
definition MLX5_QP_OPTPAR_RRA_MAX :: u32 where "MLX5_QP_OPTPAR_RRA_MAX = 0x200"
definition MLX5_QP_OPTPAR_PM_STATE :: u32 where "MLX5_QP_OPTPAR_PM_STATE = 0x400"
definition MLX5_QP_OPTPAR_RETRY_COUNT :: u32 where "MLX5_QP_OPTPAR_RETRY_COUNT = 0x1000"
definition MLX5_QP_OPTPAR_RNR_RETRY :: u32 where "MLX5_QP_OPTPAR_RNR_RETRY = 0x2000"
definition MLX5_QP_OPTPAR_ACK_TIMEOUT :: u32 where "MLX5_QP_OPTPAR_ACK_TIMEOUT = 0x4000"
definition MLX5_QP_OPTPAR_PRI_PORT :: u32 where "MLX5_QP_OPTPAR_PRI_PORT = 0x10000"
definition MLX5_QP_OPTPAR_RMPN_XRQN :: u32 where "MLX5_QP_OPTPAR_RMPN_XRQN = 0x40000"
definition MLX5_QP_OPTPAR_CQN_RCV :: u32 where "MLX5_QP_OPTPAR_CQN_RCV = 0x80000"
definition MLX5_QP_OPTPAR_DC_KEY :: u32 where "MLX5_QP_OPTPAR_DC_KEY = 0x200000"
definition MLX5_QP_OPTPAR_OFFLOAD_TYPE :: u32 where "MLX5_QP_OPTPAR_OFFLOAD_TYPE = 0x1000000"
definition MLX5_QP_OPTPAR_COUNTER_SET_ID :: u32 where "MLX5_QP_OPTPAR_COUNTER_SET_ID = 0x2000000"

text \<open>The rows of \<^verbatim>\<open>opt_mask\<close>, by current and new state; all other rows are zero.\<close>

definition opt_INIT_INIT :: "nat \<Rightarrow> u32" where
  "opt_INIT_INIT st =
     (if st = MLX5_QP_ST_RC then MLX5_QP_OPTPAR_RRE OR MLX5_QP_OPTPAR_RAE OR MLX5_QP_OPTPAR_RWE OR
        MLX5_QP_OPTPAR_PKEY_INDEX OR MLX5_QP_OPTPAR_PRI_PORT
      else if st = MLX5_QP_ST_UC then MLX5_QP_OPTPAR_RWE OR MLX5_QP_OPTPAR_PKEY_INDEX OR
        MLX5_QP_OPTPAR_PRI_PORT
      else if st = MLX5_QP_ST_UD then MLX5_QP_OPTPAR_PKEY_INDEX OR MLX5_QP_OPTPAR_Q_KEY OR
        MLX5_QP_OPTPAR_PRI_PORT
      else if st = MLX5_QP_ST_XRC then MLX5_QP_OPTPAR_RRE OR MLX5_QP_OPTPAR_RAE OR MLX5_QP_OPTPAR_RWE OR
        MLX5_QP_OPTPAR_PKEY_INDEX OR MLX5_QP_OPTPAR_PRI_PORT
      else if st = MLX5_QP_ST_DCI then MLX5_QP_OPTPAR_PRI_PORT OR MLX5_QP_OPTPAR_DC_KEY OR
        MLX5_QP_OPTPAR_PKEY_INDEX OR MLX5_QP_OPTPAR_RAE
      else 0)"

definition opt_INIT_RTR :: "nat \<Rightarrow> u32" where
  "opt_INIT_RTR st =
     (if st = MLX5_QP_ST_RC then MLX5_QP_OPTPAR_ALT_ADDR_PATH OR MLX5_QP_OPTPAR_RRE OR
        MLX5_QP_OPTPAR_RAE OR MLX5_QP_OPTPAR_RWE OR MLX5_QP_OPTPAR_PKEY_INDEX
      else if st = MLX5_QP_ST_UC then MLX5_QP_OPTPAR_ALT_ADDR_PATH OR MLX5_QP_OPTPAR_RWE OR
        MLX5_QP_OPTPAR_PKEY_INDEX
      else if st = MLX5_QP_ST_UD then MLX5_QP_OPTPAR_PKEY_INDEX OR MLX5_QP_OPTPAR_Q_KEY
      else if st = MLX5_QP_ST_MLX then MLX5_QP_OPTPAR_PKEY_INDEX OR MLX5_QP_OPTPAR_Q_KEY
      else if st = MLX5_QP_ST_XRC then MLX5_QP_OPTPAR_ALT_ADDR_PATH OR MLX5_QP_OPTPAR_RRE OR
        MLX5_QP_OPTPAR_RAE OR MLX5_QP_OPTPAR_RWE OR MLX5_QP_OPTPAR_PKEY_INDEX
      else if st = MLX5_QP_ST_DCI then MLX5_QP_OPTPAR_PKEY_INDEX OR MLX5_QP_OPTPAR_RAE OR
        MLX5_QP_OPTPAR_DC_KEY
      else 0)"

definition opt_RTR_RTS :: "nat \<Rightarrow> u32" where
  "opt_RTR_RTS st =
     (if st = MLX5_QP_ST_RC then MLX5_QP_OPTPAR_ALT_ADDR_PATH OR MLX5_QP_OPTPAR_RRE OR
        MLX5_QP_OPTPAR_RAE OR MLX5_QP_OPTPAR_RWE OR MLX5_QP_OPTPAR_PM_STATE OR
        MLX5_QP_OPTPAR_RNR_TIMEOUT OR MLX5_QP_OPTPAR_OFFLOAD_TYPE
      else if st = MLX5_QP_ST_UC then MLX5_QP_OPTPAR_ALT_ADDR_PATH OR MLX5_QP_OPTPAR_RWE OR
        MLX5_QP_OPTPAR_PM_STATE
      else if st = MLX5_QP_ST_UD then MLX5_QP_OPTPAR_Q_KEY
      else if st = MLX5_QP_ST_XRC then MLX5_QP_OPTPAR_ALT_ADDR_PATH OR MLX5_QP_OPTPAR_RRE OR
        MLX5_QP_OPTPAR_RAE OR MLX5_QP_OPTPAR_RWE OR MLX5_QP_OPTPAR_PM_STATE OR MLX5_QP_OPTPAR_RNR_TIMEOUT
      else if st = MLX5_QP_ST_DCI then MLX5_QP_OPTPAR_DC_KEY OR MLX5_QP_OPTPAR_PM_STATE OR
        MLX5_QP_OPTPAR_RAE
      else 0)"

definition opt_RTS_RTS :: "nat \<Rightarrow> u32" where
  "opt_RTS_RTS st =
     (if st = MLX5_QP_ST_RC then MLX5_QP_OPTPAR_RRE OR MLX5_QP_OPTPAR_RAE OR MLX5_QP_OPTPAR_RWE OR
        MLX5_QP_OPTPAR_RNR_TIMEOUT OR MLX5_QP_OPTPAR_PM_STATE OR MLX5_QP_OPTPAR_ALT_ADDR_PATH OR
        MLX5_QP_OPTPAR_OFFLOAD_TYPE OR MLX5_QP_OPTPAR_RMPN_XRQN
      else if st = MLX5_QP_ST_UC then MLX5_QP_OPTPAR_RWE OR MLX5_QP_OPTPAR_PM_STATE OR
        MLX5_QP_OPTPAR_ALT_ADDR_PATH
      else if st = MLX5_QP_ST_UD then MLX5_QP_OPTPAR_Q_KEY OR MLX5_QP_OPTPAR_CQN_RCV
      else if st = MLX5_QP_ST_XRC then MLX5_QP_OPTPAR_RRE OR MLX5_QP_OPTPAR_RAE OR MLX5_QP_OPTPAR_RWE OR
        MLX5_QP_OPTPAR_RNR_TIMEOUT OR MLX5_QP_OPTPAR_PM_STATE OR MLX5_QP_OPTPAR_ALT_ADDR_PATH
      else if st = MLX5_QP_ST_DCI then MLX5_QP_OPTPAR_DC_KEY OR MLX5_QP_OPTPAR_PM_STATE OR
        MLX5_QP_OPTPAR_RAE
      else 0)"

definition opt_SQER_RTS :: "nat \<Rightarrow> u32" where
  "opt_SQER_RTS st =
     (if st = MLX5_QP_ST_UD then MLX5_QP_OPTPAR_Q_KEY
      else if st = MLX5_QP_ST_MLX then MLX5_QP_OPTPAR_Q_KEY
      else if st = MLX5_QP_ST_UC then MLX5_QP_OPTPAR_RWE
      else if st = MLX5_QP_ST_RC then MLX5_QP_OPTPAR_RNR_TIMEOUT OR MLX5_QP_OPTPAR_RWE OR
        MLX5_QP_OPTPAR_RAE OR MLX5_QP_OPTPAR_RRE
      else if st = MLX5_QP_ST_XRC then MLX5_QP_OPTPAR_RNR_TIMEOUT OR MLX5_QP_OPTPAR_RWE OR
        MLX5_QP_OPTPAR_RAE OR MLX5_QP_OPTPAR_RRE
      else if st = MLX5_QP_ST_DCI then MLX5_QP_OPTPAR_DC_KEY OR MLX5_QP_OPTPAR_RAE
      else 0)"

definition opt_SQD_RTS :: "nat \<Rightarrow> u32" where
  "opt_SQD_RTS st =
     (if st = MLX5_QP_ST_UD then MLX5_QP_OPTPAR_Q_KEY
      else if st = MLX5_QP_ST_MLX then MLX5_QP_OPTPAR_Q_KEY
      else if st = MLX5_QP_ST_UC then MLX5_QP_OPTPAR_RWE
      else if st = MLX5_QP_ST_RC then MLX5_QP_OPTPAR_RNR_TIMEOUT OR MLX5_QP_OPTPAR_RWE OR
        MLX5_QP_OPTPAR_RAE OR MLX5_QP_OPTPAR_RRE
      else 0)"

text \<open>
  A lookup in \<^verbatim>\<open>opt_mask\<close>.  The innermost dimension has \<^verbatim>\<open>MLX5_QP_ST_MAX\<close> entries; a larger index
  reads outside the row.
\<close>

definition opt_mask :: "mlx5_qp_state \<Rightarrow> mlx5_qp_state \<Rightarrow> nat \<Rightarrow> u32 option" where
  "opt_mask cur new st =
     (if st \<ge> MLX5_QP_ST_MAX then None
      else Some (case (cur, new) of
        (MLX5_QP_STATE_INIT, MLX5_QP_STATE_INIT) \<Rightarrow> opt_INIT_INIT st
      | (MLX5_QP_STATE_INIT, MLX5_QP_STATE_RTR) \<Rightarrow> opt_INIT_RTR st
      | (MLX5_QP_STATE_RTR, MLX5_QP_STATE_RTS) \<Rightarrow> opt_RTR_RTS st
      | (MLX5_QP_STATE_RTS, MLX5_QP_STATE_RTS) \<Rightarrow> opt_RTS_RTS st
      | (MLX5_QP_STATE_SQER, MLX5_QP_STATE_RTS) \<Rightarrow> opt_SQER_RTS st
      | (MLX5_QP_STATE_SQD, MLX5_QP_STATE_RTS) \<Rightarrow> opt_SQD_RTS st
      | _ \<Rightarrow> 0))"

definition ib_nr_to_mlx5_nr :: "u32 \<Rightarrow> u32" where
  "ib_nr_to_mlx5_nr ib_mask =
     (if ib_mask = IB_QP_ACCESS_FLAGS then MLX5_QP_OPTPAR_RWE OR MLX5_QP_OPTPAR_RRE OR MLX5_QP_OPTPAR_RAE
      else if ib_mask = IB_QP_PKEY_INDEX then MLX5_QP_OPTPAR_PKEY_INDEX
      else if ib_mask = IB_QP_PORT then MLX5_QP_OPTPAR_PRI_PORT
      else if ib_mask = IB_QP_QKEY then MLX5_QP_OPTPAR_Q_KEY
      else if ib_mask = IB_QP_AV then MLX5_QP_OPTPAR_PRIMARY_ADDR_PATH OR MLX5_QP_OPTPAR_PRI_PORT
      else if ib_mask = IB_QP_TIMEOUT then MLX5_QP_OPTPAR_ACK_TIMEOUT
      else if ib_mask = IB_QP_RETRY_CNT then MLX5_QP_OPTPAR_RETRY_COUNT
      else if ib_mask = IB_QP_RNR_RETRY then MLX5_QP_OPTPAR_RNR_RETRY
      else if ib_mask = IB_QP_MAX_QP_RD_ATOMIC then MLX5_QP_OPTPAR_SRA_MAX
      else if ib_mask = IB_QP_ALT_PATH then MLX5_QP_OPTPAR_ALT_ADDR_PATH
      else if ib_mask = IB_QP_MIN_RNR_TIMER then MLX5_QP_OPTPAR_RNR_TIMEOUT
      else if ib_mask = IB_QP_MAX_DEST_RD_ATOMIC then MLX5_QP_OPTPAR_RRA_MAX OR MLX5_QP_OPTPAR_RWE OR
        MLX5_QP_OPTPAR_RRE OR MLX5_QP_OPTPAR_RAE
      else if ib_mask = IB_QP_PATH_MIG_STATE then MLX5_QP_OPTPAR_PM_STATE
      else if ib_mask = IB_QP_OFFLOAD_TYPE then MLX5_QP_OPTPAR_OFFLOAD_TYPE
      else if ib_mask = IB_QP_RMPN_XRQN then MLX5_QP_OPTPAR_RMPN_XRQN
      else 0)"

definition ib_mask_to_mlx5_opt :: "u32 \<Rightarrow> u32" where
  "ib_mask_to_mlx5_opt ib_mask =
     fold (\<lambda>i result. if push_bit i 1 AND ib_mask \<noteq> 0 then result OR ib_nr_to_mlx5_nr (push_bit i 1) else result)
       [0..<32] 0"

section \<open>Commands\<close>

definition MLX5_CMD_OP_RST2INIT_QP :: u16 where "MLX5_CMD_OP_RST2INIT_QP = 0x502"
definition MLX5_CMD_OP_INIT2RTR_QP :: u16 where "MLX5_CMD_OP_INIT2RTR_QP = 0x503"
definition MLX5_CMD_OP_RTR2RTS_QP :: u16 where "MLX5_CMD_OP_RTR2RTS_QP = 0x504"
definition MLX5_CMD_OP_RTS2RTS_QP :: u16 where "MLX5_CMD_OP_RTS2RTS_QP = 0x505"
definition MLX5_CMD_OP_SQERR2RTS_QP :: u16 where "MLX5_CMD_OP_SQERR2RTS_QP = 0x506"
definition MLX5_CMD_OP_2ERR_QP :: u16 where "MLX5_CMD_OP_2ERR_QP = 0x507"
definition MLX5_CMD_OP_2RST_QP :: u16 where "MLX5_CMD_OP_2RST_QP = 0x50a"
definition MLX5_CMD_OP_SQD_RTS_QP :: u16 where "MLX5_CMD_OP_SQD_RTS_QP = 0x50c"
definition MLX5_CMD_OP_INIT2INIT_QP :: u16 where "MLX5_CMD_OP_INIT2INIT_QP = 0x50e"

text \<open>The command that performs a transition, 0 when there is none.\<close>

definition optab :: "mlx5_qp_state \<Rightarrow> mlx5_qp_state \<Rightarrow> u16" where
  "optab cur new =
     (if cur \<in> {MLX5_QP_STATE_SQ_DRAINING, MLX5_QP_STATE_SUSPENDED} then 0
      else case (cur, new) of
        (_, MLX5_QP_STATE_RST) \<Rightarrow> MLX5_CMD_OP_2RST_QP
      | (_, MLX5_QP_STATE_ERR) \<Rightarrow> MLX5_CMD_OP_2ERR_QP
      | (MLX5_QP_STATE_RST, MLX5_QP_STATE_INIT) \<Rightarrow> MLX5_CMD_OP_RST2INIT_QP
      | (MLX5_QP_STATE_INIT, MLX5_QP_STATE_INIT) \<Rightarrow> MLX5_CMD_OP_INIT2INIT_QP
      | (MLX5_QP_STATE_INIT, MLX5_QP_STATE_RTR) \<Rightarrow> MLX5_CMD_OP_INIT2RTR_QP
      | (MLX5_QP_STATE_RTR, MLX5_QP_STATE_RTS) \<Rightarrow> MLX5_CMD_OP_RTR2RTS_QP
      | (MLX5_QP_STATE_RTS, MLX5_QP_STATE_RTS) \<Rightarrow> MLX5_CMD_OP_RTS2RTS_QP
      | (MLX5_QP_STATE_SQD, MLX5_QP_STATE_RTS) \<Rightarrow> MLX5_CMD_OP_SQD_RTS_QP
      | (MLX5_QP_STATE_SQER, MLX5_QP_STATE_RTS) \<Rightarrow> MLX5_CMD_OP_SQERR2RTS_QP
      | _ \<Rightarrow> 0)"

section \<open>Attribute masks\<close>

definition is_valid_mask :: "u32 \<Rightarrow> u32 \<Rightarrow> u32 \<Rightarrow> bool" where
  "is_valid_mask m req opt =
     (if m AND req \<noteq> req then False else if m AND NOT (req OR opt) \<noteq> 0 then False else True)"

definition modify_dci_qp_is_ok :: "ib_qp_state \<Rightarrow> ib_qp_state \<Rightarrow> u32 \<Rightarrow> bool" where
  "modify_dci_qp_is_ok cur new attr_mask =
     (if new = IB_QPS_RESET then is_valid_mask attr_mask IB_QP_STATE 0
      else if cur = IB_QPS_RESET \<and> new = IB_QPS_INIT then
        is_valid_mask attr_mask (IB_QP_STATE OR IB_QP_PKEY_INDEX OR IB_QP_PORT) 0
      else if cur = IB_QPS_INIT \<and> new = IB_QPS_INIT then
        is_valid_mask attr_mask IB_QP_STATE (IB_QP_PKEY_INDEX OR IB_QP_PORT)
      else if cur = IB_QPS_INIT \<and> new = IB_QPS_RTR then
        is_valid_mask attr_mask (IB_QP_STATE OR IB_QP_PATH_MTU) (IB_QP_PKEY_INDEX OR IB_QP_AV)
      else if cur = IB_QPS_RTR \<and> new = IB_QPS_RTS then
        is_valid_mask attr_mask (IB_QP_STATE OR IB_QP_TIMEOUT OR IB_QP_RETRY_CNT OR IB_QP_RNR_RETRY OR
          IB_QP_MAX_QP_RD_ATOMIC OR IB_QP_SQ_PSN) IB_QP_MIN_RNR_TIMER
      else if cur = IB_QPS_RTS \<and> new = IB_QPS_RTS then
        is_valid_mask attr_mask IB_QP_STATE IB_QP_MIN_RNR_TIMER
      else if cur \<noteq> IB_QPS_RESET \<and> new = IB_QPS_ERR then is_valid_mask attr_mask IB_QP_STATE 0
      else False)"

definition ignored_ts_check :: "ib_qp_type \<Rightarrow> bool" where
  "ignored_ts_check t = (t = MLX5_IB_QPT_REG_UMR \<or> t = MLX5_IB_QPT_SW_CNAK \<or> t = MLX5_IB_QPT_DCI)"

section \<open>Rates, atomic modes and access flags\<close>

definition IB_RATE_PORT_CURRENT :: u8 where "IB_RATE_PORT_CURRENT = 0"
definition IB_RATE_2_5_GBPS :: u8 where "IB_RATE_2_5_GBPS = 2"
definition IB_RATE_600_GBPS :: u8 where "IB_RATE_600_GBPS = 22"
definition MLX5_STAT_RATE_OFFSET :: nat where "MLX5_STAT_RATE_OFFSET = 5"

fun rate_loop :: "u32 \<Rightarrow> nat \<Rightarrow> nat" where
  "rate_loop stat_rate_support rate =
     (if rate \<noteq> 0 \<and> push_bit (rate + MLX5_STAT_RATE_OFFSET) 1 AND stat_rate_support = 0
      then rate_loop stat_rate_support (rate - 1) else rate)"

declare rate_loop.simps [simp del]

definition ib_rate_to_mlx5 :: "u32 \<Rightarrow> u8 \<Rightarrow> int" where
  "ib_rate_to_mlx5 stat_rate_support rate =
     (if rate = IB_RATE_PORT_CURRENT then 0
      else if rate < IB_RATE_2_5_GBPS \<or> rate > IB_RATE_600_GBPS then - EINVAL
      else let r = rate_loop stat_rate_support (unat rate) in
        if r \<noteq> 0 then int (r + MLX5_STAT_RATE_OFFSET) else 0)"

definition IB_ACCESS_REMOTE_WRITE :: u32 where "IB_ACCESS_REMOTE_WRITE = 2"
definition IB_ACCESS_REMOTE_READ :: u32 where "IB_ACCESS_REMOTE_READ = 4"
definition IB_ACCESS_REMOTE_ATOMIC :: u32 where "IB_ACCESS_REMOTE_ATOMIC = 8"
definition MLX5_QP_BIT_RRE :: u32 where "MLX5_QP_BIT_RRE = 0x8000"
definition MLX5_QP_BIT_RWE :: u32 where "MLX5_QP_BIT_RWE = 0x4000"
definition MLX5_QP_BIT_RAE :: u32 where "MLX5_QP_BIT_RAE = 0x2000"
definition MLX5_ATOMIC_MODE_OFF :: nat where "MLX5_ATOMIC_MODE_OFF = 16"
definition MLX5_ATOMIC_MODE_IB_COMP :: int where "MLX5_ATOMIC_MODE_IB_COMP = 1 * 2 ^ MLX5_ATOMIC_MODE_OFF"
definition MLX5_ATOMIC_MODE_8B :: int where "MLX5_ATOMIC_MODE_8B = 3 * 2 ^ MLX5_ATOMIC_MODE_OFF"
definition MLX5_ATOMIC_OPS_CMP_SWAP :: u8 where "MLX5_ATOMIC_OPS_CMP_SWAP = 1"
definition MLX5_ATOMIC_OPS_FETCH_ADD :: u8 where "MLX5_ATOMIC_OPS_FETCH_ADD = 2"
definition MLX5_ATOMIC_OPS_EXTENDED_CMP_SWAP :: u8 where "MLX5_ATOMIC_OPS_EXTENDED_CMP_SWAP = 4"
definition MLX5_ATOMIC_OPS_EXTENDED_FETCH_ADD :: u8 where "MLX5_ATOMIC_OPS_EXTENDED_FETCH_ADD = 8"

record atomic_caps =
  atomic :: u8
  atomic_operations :: u8
  atomic_size_qp :: u16
  atomic_size_dc :: u16

definition atomic_size_to_mode :: "u16 \<Rightarrow> int" where
  "atomic_size_to_mode size_mask =
     (let supported_size_mask = size_mask AND 0x1ff in
      if supported_size_mask = 0 then - EOPNOTSUPP
      else let log_max_size = ilog2 (unat supported_size_mask) in
        if log_max_size > 3 then int log_max_size else MLX5_ATOMIC_MODE_8B)"

definition get_atomic_mode :: "atomic_caps \<Rightarrow> ib_qp_type \<Rightarrow> int" where
  "get_atomic_mode c t =
     (if atomic c = 0 then - EOPNOTSUPP
      else let sz = (if t = MLX5_IB_QPT_DCT then atomic_size_dc c else atomic_size_qp c);
        m = (if atomic_operations c AND MLX5_ATOMIC_OPS_EXTENDED_CMP_SWAP \<noteq> 0 \<or>
            atomic_operations c AND MLX5_ATOMIC_OPS_EXTENDED_FETCH_ADD \<noteq> 0
          then atomic_size_to_mode sz else - EOPNOTSUPP) in
        if m \<le> 0 \<and> atomic_operations c AND MLX5_ATOMIC_OPS_CMP_SWAP \<noteq> 0 \<and>
            atomic_operations c AND MLX5_ATOMIC_OPS_FETCH_ADD \<noteq> 0
        then MLX5_ATOMIC_MODE_IB_COMP else m)"

text \<open>
  The last part of \<^verbatim>\<open>to_mlx5_access_flags\<close>, from the responder depth and the verbs flags.  The mode is
  shifted as a 32-bit value.
\<close>

definition hw_access_flags :: "atomic_caps \<Rightarrow> ib_qp_type \<Rightarrow> u8 \<Rightarrow> u32 \<Rightarrow> int + u32" where
  "hw_access_flags c t dest_rd_atomic flags =
     (let flags = (if dest_rd_atomic = 0 then flags AND IB_ACCESS_REMOTE_WRITE else flags);
          rre = (if flags AND IB_ACCESS_REMOTE_READ \<noteq> 0 then MLX5_QP_BIT_RRE else 0);
          rwe = (if flags AND IB_ACCESS_REMOTE_WRITE \<noteq> 0 then MLX5_QP_BIT_RWE else 0) in
      if flags AND IB_ACCESS_REMOTE_ATOMIC \<noteq> 0 then
        (let m = get_atomic_mode c t in
         if m < 0 then Inl (- EOPNOTSUPP)
         else Inr (rre OR MLX5_QP_BIT_RAE OR push_bit MLX5_ATOMIC_MODE_OFF (word_of_int m) OR rwe))
      else Inr (rre OR rwe))"

definition to_ib_qp_access_flags :: "u32 \<Rightarrow> u32" where
  "to_ib_qp_access_flags f =
     (if f AND MLX5_QP_BIT_RRE \<noteq> 0 then IB_ACCESS_REMOTE_READ else 0) OR
     (if f AND MLX5_QP_BIT_RWE \<noteq> 0 then IB_ACCESS_REMOTE_WRITE else 0) OR
     (if f AND MLX5_QP_BIT_RAE \<noteq> 0 then IB_ACCESS_REMOTE_ATOMIC else 0)"

text \<open>
  The atomic mode of a target; \<^verbatim>\<open>find_last_bit\<close> of an empty mask is the width of the mask.  The
  enumerators returned for 2 to 8 (\<^verbatim>\<open>MLX5_ATOMIC_MODE_DCT_CX\<close> to \<^verbatim>\<open>MLX5_ATOMIC_MODE_DCT_256B\<close>) have
  those values.
\<close>

definition MLX5_ATOMIC_MODE_DCT_NONE :: u32 where "MLX5_ATOMIC_MODE_DCT_NONE = 0"

definition atomic_mode_dct :: "atomic_caps \<Rightarrow> u32" where
  "atomic_mode_dct c =
     (let tmp = (if atomic_size_dc c = 0 then 64 else ilog2 (unat (atomic_size_dc c))) in
      if tmp = 0 \<or> tmp = 1 then MLX5_ATOMIC_MODE_DCT_NONE else of_nat tmp)"

section \<open>Facts\<close>

lemmas optpar_defs = MLX5_QP_OPTPAR_ALT_ADDR_PATH_def MLX5_QP_OPTPAR_RRE_def MLX5_QP_OPTPAR_RAE_def
  MLX5_QP_OPTPAR_RWE_def MLX5_QP_OPTPAR_PKEY_INDEX_def MLX5_QP_OPTPAR_Q_KEY_def MLX5_QP_OPTPAR_RNR_TIMEOUT_def
  MLX5_QP_OPTPAR_PRIMARY_ADDR_PATH_def MLX5_QP_OPTPAR_SRA_MAX_def MLX5_QP_OPTPAR_RRA_MAX_def
  MLX5_QP_OPTPAR_PM_STATE_def MLX5_QP_OPTPAR_RETRY_COUNT_def MLX5_QP_OPTPAR_RNR_RETRY_def
  MLX5_QP_OPTPAR_ACK_TIMEOUT_def MLX5_QP_OPTPAR_PRI_PORT_def MLX5_QP_OPTPAR_RMPN_XRQN_def
  MLX5_QP_OPTPAR_CQN_RCV_def MLX5_QP_OPTPAR_DC_KEY_def MLX5_QP_OPTPAR_OFFLOAD_TYPE_def
lemmas qp_st_defs = MLX5_QP_ST_RC_def MLX5_QP_ST_UC_def MLX5_QP_ST_UD_def MLX5_QP_ST_XRC_def MLX5_QP_ST_MLX_def
  MLX5_QP_ST_DCI_def MLX5_QP_ST_QP0_def MLX5_QP_ST_QP1_def MLX5_QP_ST_RAW_ETHERTYPE_def MLX5_QP_ST_RAW_IPV6_def
  MLX5_QP_ST_REG_UMR_def MLX5_QP_ST_SW_CNAK_def MLX5_QP_ST_MAX_def

lemma fold_or_bit:
  "bit (fold (\<lambda>i r. if P i then r OR f i else r) xs (a :: u32)) n \<longleftrightarrow> bit a n \<or> (\<exists>i \<in> set xs. P i \<and> bit (f i) n)"
  by (induction xs arbitrary: a) (auto simp: bit_simps)

text \<open>A bit of the translated mask comes from one attribute of the mask.\<close>

lemma ib_mask_bit:
  "bit (ib_mask_to_mlx5_opt m) n \<longleftrightarrow> (\<exists>i < 32. bit m i \<and> bit (ib_nr_to_mlx5_nr (push_bit i 1)) n)"
proof -
  have "(push_bit i 1 AND m \<noteq> 0) = bit m i" if "i < 32" for i
    using that by (simp add: bit_iff_and_push_bit_not_eq_0 and.commute)
  then show ?thesis
    unfolding ib_mask_to_mlx5_opt_def fold_or_bit by auto
qed

lemma ib_nr_no_dc_key: "\<not> bit (ib_nr_to_mlx5_nr m) 21"
  by (simp add: ib_nr_to_mlx5_nr_def optpar_defs bit_or_iff)

text \<open>
  The key of a dynamically connected queue pair never reaches the firmware as an optional
  parameter: although the table of optional parameters lists it for every transition, no attribute is
  translated to it.
\<close>

theorem dc_key_not_forwarded:
  "ib_mask_to_mlx5_opt attr_mask AND MLX5_QP_OPTPAR_DC_KEY = 0 \<and>
   opt_mask MLX5_QP_STATE_INIT MLX5_QP_STATE_RTR MLX5_QP_ST_DCI =
     Some (MLX5_QP_OPTPAR_PKEY_INDEX OR MLX5_QP_OPTPAR_RAE OR MLX5_QP_OPTPAR_DC_KEY)"
proof
  show "ib_mask_to_mlx5_opt attr_mask AND MLX5_QP_OPTPAR_DC_KEY = 0"
  proof (rule bit_word_eqI)
    fix n
    have k: "MLX5_QP_OPTPAR_DC_KEY = 2 ^ 21" by (simp add: MLX5_QP_OPTPAR_DC_KEY_def)
    have "bit MLX5_QP_OPTPAR_DC_KEY n \<longleftrightarrow> n = 21" unfolding k bit_exp_iff by auto
    then show "bit (ib_mask_to_mlx5_opt attr_mask AND MLX5_QP_OPTPAR_DC_KEY) n = bit 0 n"
      by (auto simp: bit_and_iff ib_mask_bit ib_nr_no_dc_key)
  qed
  show "opt_mask MLX5_QP_STATE_INIT MLX5_QP_STATE_RTR MLX5_QP_ST_DCI =
      Some (MLX5_QP_OPTPAR_PKEY_INDEX OR MLX5_QP_OPTPAR_RAE OR MLX5_QP_OPTPAR_DC_KEY)"
    by (simp add: opt_mask_def opt_INIT_RTR_def qp_st_defs)
qed

lemma ib_mask_or [simp]: "ib_mask_to_mlx5_opt (a OR b) = ib_mask_to_mlx5_opt a OR ib_mask_to_mlx5_opt b"
  by (rule bit_word_eqI) (auto simp: bit_or_iff ib_mask_bit)

lemma ib_mask_single: "k < 32 \<Longrightarrow> ib_mask_to_mlx5_opt (push_bit k 1) = ib_nr_to_mlx5_nr (push_bit k 1)"
  by (rule bit_word_eqI) (auto simp: ib_mask_bit bit_exp_iff)

lemma ib_mask_values [simp]:
  "ib_mask_to_mlx5_opt 0 = 0" "ib_mask_to_mlx5_opt IB_QP_CUR_STATE = 0"
  "ib_mask_to_mlx5_opt IB_QP_ACCESS_FLAGS = MLX5_QP_OPTPAR_RWE OR MLX5_QP_OPTPAR_RRE OR MLX5_QP_OPTPAR_RAE"
  "ib_mask_to_mlx5_opt IB_QP_PKEY_INDEX = MLX5_QP_OPTPAR_PKEY_INDEX"
  "ib_mask_to_mlx5_opt IB_QP_PORT = MLX5_QP_OPTPAR_PRI_PORT"
  "ib_mask_to_mlx5_opt IB_QP_QKEY = MLX5_QP_OPTPAR_Q_KEY"
  "ib_mask_to_mlx5_opt IB_QP_ALT_PATH = MLX5_QP_OPTPAR_ALT_ADDR_PATH"
  "ib_mask_to_mlx5_opt IB_QP_MIN_RNR_TIMER = MLX5_QP_OPTPAR_RNR_TIMEOUT"
  "ib_mask_to_mlx5_opt IB_QP_PATH_MIG_STATE = MLX5_QP_OPTPAR_PM_STATE"
  "ib_mask_to_mlx5_opt IB_QP_OFFLOAD_TYPE = MLX5_QP_OPTPAR_OFFLOAD_TYPE"
  "ib_mask_to_mlx5_opt IB_QP_RMPN_XRQN = MLX5_QP_OPTPAR_RMPN_XRQN"
  "ib_mask_to_mlx5_opt IB_QP_RATE_LIMIT = 0" "ib_mask_to_mlx5_opt IB_QP_FLOW_ENTROPY = 0"
  "ib_mask_to_mlx5_opt IB_EXP_QP_OOO_RW_DATA_PLACEMENT = 0" "ib_mask_to_mlx5_opt IB_QP_GROUP_RSS = 0"
proof -
  show "ib_mask_to_mlx5_opt 0 = 0" by (rule bit_word_eqI) (simp add: ib_mask_bit)
qed (use ib_mask_single [of 1] ib_mask_single [of 3] ib_mask_single [of 4] ib_mask_single [of 5] ib_mask_single [of 6]
    ib_mask_single [of 14] ib_mask_single [of 15] ib_mask_single [of 18] ib_mask_single [of 24] ib_mask_single [of 25]
    ib_mask_single [of 26] ib_mask_single [of 27] ib_mask_single [of 29] ib_mask_single [of 30]
   in \<open>simp_all add: qp_attr_masks ib_nr_to_mlx5_nr_def\<close>)

text \<open>
  The optional attributes that the verbs layer accepts for a transition between the working states
  all reach the firmware, for reliable, extended reliable and datagram queue pairs.
\<close>

theorem optional_attributes_forwarded:
  assumes "t \<in> {IB_QPT_RC, IB_QPT_XRC_INI, IB_QPT_XRC_TGT, IB_QPT_UD}"
    and "(cur, new) \<in> {(IB_QPS_INIT, IB_QPS_INIT), (IB_QPS_INIT, IB_QPS_RTR), (IB_QPS_RTR, IB_QPS_RTS),
      (IB_QPS_RTS, IB_QPS_RTS), (IB_QPS_SQE, IB_QPS_RTS)}"
    and "to_mlx5_st t = Some st" and "opt_mask (to_mlx5_state cur) (to_mlx5_state new) st = Some m"
  shows "ib_mask_to_mlx5_opt (opt_param (qp_state_table cur new) t) AND NOT m = 0"
  using assms(1)
proof -
  have "m = (case (cur, new) of (IB_QPS_INIT, IB_QPS_INIT) \<Rightarrow> opt_INIT_INIT st | (IB_QPS_INIT, IB_QPS_RTR) \<Rightarrow> opt_INIT_RTR st
      | (IB_QPS_RTR, IB_QPS_RTS) \<Rightarrow> opt_RTR_RTS st | (IB_QPS_RTS, IB_QPS_RTS) \<Rightarrow> opt_RTS_RTS st | _ \<Rightarrow> opt_SQER_RTS st)"
    using assms(2,4) by (auto simp: opt_mask_def split: if_splits)
  moreover have "st = MLX5_QP_ST_RC \<and> t = IB_QPT_RC \<or> st = MLX5_QP_ST_XRC \<and> t \<in> {IB_QPT_XRC_INI, IB_QPT_XRC_TGT} \<or>
      st = MLX5_QP_ST_UD \<and> t = IB_QPT_UD"
    using assms(1,3) by (auto simp: to_mlx5_st_def)
  ultimately show ?thesis
    using assms(2)
    by (elim disjE conjE insertE emptyE Pair_inject; hypsubst;
        simp add: qp_state_table_def qp_row_INIT_def qp_row_RTR_def qp_row_RTS_def qp_row_SQE_def no_transition_def
          opt_INIT_INIT_def opt_INIT_RTR_def opt_RTR_RTS_def opt_RTS_RTS_def opt_SQER_RTS_def qp_st_defs;
        simp add: optpar_defs)
qed

theorem optional_attributes_forwarded_witness:
  "to_mlx5_st IB_QPT_RC = Some MLX5_QP_ST_RC \<and>
   (\<exists>m. opt_mask MLX5_QP_STATE_RTR MLX5_QP_STATE_RTS MLX5_QP_ST_RC = Some m \<and>
      ib_mask_to_mlx5_opt (opt_param (qp_state_table IB_QPS_RTR IB_QPS_RTS) IB_QPT_RC) AND NOT m = 0)"
  using optional_attributes_forwarded [of IB_QPT_RC IB_QPS_RTR IB_QPS_RTS MLX5_QP_ST_RC]
  by (auto simp: to_mlx5_st_def opt_mask_def qp_st_defs)

lemma rate_supported: "push_bit k 1 AND (s :: u32) \<noteq> 0 \<longleftrightarrow> bit s k"
proof -
  have "bit (push_bit k 1 AND s) n \<longleftrightarrow> n = k \<and> bit s k" for n
    by (auto simp: bit_simps dest: bit_imp_le_length)
  then show ?thesis by (metis bit_0_eq bit_eqI bot_apply bot_bool_def)
qed

lemma rate_loop_greatest:
  "rate_loop s r \<le> r \<and> (rate_loop s r \<noteq> 0 \<longrightarrow> bit s (rate_loop s r + MLX5_STAT_RATE_OFFSET)) \<and>
   (\<forall>k. 0 < k \<longrightarrow> k \<le> r \<longrightarrow> bit s (k + MLX5_STAT_RATE_OFFSET) \<longrightarrow> k \<le> rate_loop s r)"
proof (induction r)
  case 0
  show ?case by (subst (1 2 3 4) rate_loop.simps) simp
next
  case (Suc r)
  show ?case
  proof (cases "bit s (Suc r + MLX5_STAT_RATE_OFFSET)")
    case True
    then have "rate_loop s (Suc r) = Suc r" 
      using rate_supported [of "Suc r + MLX5_STAT_RATE_OFFSET" s] by (subst rate_loop.simps) simp
    with True show ?thesis by simp
  next
    case False
    then have eq: "rate_loop s (Suc r) = rate_loop s r"
      using rate_supported [of "Suc r + MLX5_STAT_RATE_OFFSET" s] by (subst rate_loop.simps) simp
    have "k \<le> rate_loop s r" if "0 < k" "k \<le> Suc r" "bit s (k + MLX5_STAT_RATE_OFFSET)" for k
      using that Suc.IH False by (cases "k = Suc r") auto
    with Suc.IH eq show ?thesis by auto
  qed
qed

text \<open>
  For every rate of the verbs enumeration, \<^verbatim>\<open>ib_rate_to_mlx5\<close> returns the firmware code of the greatest
  supported enumerator that is not above the one requested, and 0 (no static rate) when none is: the loop always
  ends, and it never selects a rate the device does not support.
\<close>
theorem ib_rate_to_mlx5_greatest:
  assumes "IB_RATE_2_5_GBPS \<le> rate" and "rate \<le> IB_RATE_600_GBPS"
  shows "ib_rate_to_mlx5 support rate =
    (let usable = {k. 0 < k \<and> k \<le> unat rate \<and> bit support (k + MLX5_STAT_RATE_OFFSET)} in
     if usable = {} then 0 else int (Max usable + MLX5_STAT_RATE_OFFSET))"
proof -
  let ?r = "rate_loop support (unat rate)"
  let ?usable = "{k. 0 < k \<and> k \<le> unat rate \<and> bit support (k + MLX5_STAT_RATE_OFFSET)}"
  note g = rate_loop_greatest [of support "unat rate"]
  have fin: "finite ?usable" by (rule finite_subset [of _ "{.. unat rate}"]) auto
  have "rate \<noteq> IB_RATE_PORT_CURRENT"
    using assms(1) by (auto simp: IB_RATE_2_5_GBPS_def IB_RATE_PORT_CURRENT_def)
  then have eq: "ib_rate_to_mlx5 support rate = (if ?r \<noteq> 0 then int (?r + MLX5_STAT_RATE_OFFSET) else 0)"
    using assms by (auto simp: ib_rate_to_mlx5_def Let_def dest: leD)
  show ?thesis
  proof (cases "?r = 0")
    case True
    then have "?usable = {}" using g by auto
    with True eq show ?thesis by (simp add: Let_def)
  next
    case False
    then have "?r \<in> ?usable" using g by auto
    moreover have "Max ?usable = ?r" using False g fin by (intro Max_eqI) auto
    ultimately show ?thesis using False eq by (auto simp: Let_def)
  qed
qed

theorem ib_rate_to_mlx5_greatest_witness: "ib_rate_to_mlx5 0x80 3 = 7"
proof -
  have "{k. 0 < k \<and> k \<le> 3 \<and> bit (0x80 :: u32) (k + MLX5_STAT_RATE_OFFSET)} = {2}"
  proof -
    have "k = 2" if "0 < k" "k \<le> 3" "bit (0x80 :: u32) (k + MLX5_STAT_RATE_OFFSET)" for k :: nat
    proof -
      have "k = 1 \<or> k = 2 \<or> k = 3" using that(1,2) by auto
      then show ?thesis using that(3) by (elim disjE) (simp_all add: MLX5_STAT_RATE_OFFSET_def)
    qed
    moreover have "bit (0x80 :: u32) (2 + MLX5_STAT_RATE_OFFSET)" by (simp add: MLX5_STAT_RATE_OFFSET_def)
    ultimately show ?thesis by auto
  qed
  then show ?thesis
    using ib_rate_to_mlx5_greatest [of 3 "0x80"]
    by (simp add: Let_def MLX5_STAT_RATE_OFFSET_def IB_RATE_2_5_GBPS_def IB_RATE_600_GBPS_def)
qed

lemmas access_bits = IB_ACCESS_REMOTE_WRITE_def IB_ACCESS_REMOTE_READ_def IB_ACCESS_REMOTE_ATOMIC_def
  MLX5_QP_BIT_RRE_def MLX5_QP_BIT_RWE_def MLX5_QP_BIT_RAE_def MLX5_ATOMIC_MODE_OFF_def

text \<open>The access bits below the atomic mode read back as the verbs flags they were set from.\<close>

lemma hw_access_bits:
  assumes "hw_access_flags c t d flags = Inr h"
  defines "f \<equiv> if d = 0 then flags AND IB_ACCESS_REMOTE_WRITE else flags"
  shows "h AND MLX5_QP_BIT_RRE \<noteq> 0 \<longleftrightarrow> f AND IB_ACCESS_REMOTE_READ \<noteq> 0"
    and "h AND MLX5_QP_BIT_RWE \<noteq> 0 \<longleftrightarrow> f AND IB_ACCESS_REMOTE_WRITE \<noteq> 0"
    and "h AND MLX5_QP_BIT_RAE \<noteq> 0 \<longleftrightarrow> f AND IB_ACCESS_REMOTE_ATOMIC \<noteq> 0"
proof -
  have b: "x AND MLX5_QP_BIT_RRE \<noteq> 0 \<longleftrightarrow> bit x 15" "x AND MLX5_QP_BIT_RWE \<noteq> 0 \<longleftrightarrow> bit x 14"
    "x AND MLX5_QP_BIT_RAE \<noteq> 0 \<longleftrightarrow> bit x 13" for x
    using rate_supported [of 15 x] rate_supported [of 14 x] rate_supported [of 13 x]
    by (simp_all add: access_bits and.commute)
  have c: "bit MLX5_QP_BIT_RRE 15" "\<not> bit MLX5_QP_BIT_RRE 14" "\<not> bit MLX5_QP_BIT_RRE 13"
    "\<not> bit MLX5_QP_BIT_RWE 15" "bit MLX5_QP_BIT_RWE 14" "\<not> bit MLX5_QP_BIT_RWE 13"
    "\<not> bit MLX5_QP_BIT_RAE 15" "\<not> bit MLX5_QP_BIT_RAE 14" "bit MLX5_QP_BIT_RAE 13"
    by (simp_all add: access_bits)
  show "h AND MLX5_QP_BIT_RRE \<noteq> 0 \<longleftrightarrow> f AND IB_ACCESS_REMOTE_READ \<noteq> 0"
    "h AND MLX5_QP_BIT_RWE \<noteq> 0 \<longleftrightarrow> f AND IB_ACCESS_REMOTE_WRITE \<noteq> 0"
    "h AND MLX5_QP_BIT_RAE \<noteq> 0 \<longleftrightarrow> f AND IB_ACCESS_REMOTE_ATOMIC \<noteq> 0"
    using assms(1) unfolding b hw_access_flags_def Let_def f_def [symmetric]
    by (auto simp: bit_or_iff bit_push_bit_iff c MLX5_ATOMIC_MODE_OFF_def split: if_splits)
qed

text \<open>
  The access flags written into a queue pair context read back as the verbs flags of the request: as asked for
  when the responder depth is positive, and reduced to remote write when it is zero.
\<close>
theorem access_flags_roundtrip:
  assumes "hw_access_flags c t dest_rd_atomic flags = Inr h"
  shows "to_ib_qp_access_flags h =
    (if dest_rd_atomic = 0 then flags AND IB_ACCESS_REMOTE_WRITE
     else flags AND (IB_ACCESS_REMOTE_WRITE OR IB_ACCESS_REMOTE_READ OR IB_ACCESS_REMOTE_ATOMIC))"
proof -
  have sub: "x AND push_bit k 1 = (if bit x k then push_bit k 1 else 0)" for x :: u32 and k
    by (rule bit_word_eqI) (auto simp: bit_simps)
  have f: "x AND IB_ACCESS_REMOTE_WRITE = (if x AND IB_ACCESS_REMOTE_WRITE \<noteq> 0 then IB_ACCESS_REMOTE_WRITE else 0)"
    "x AND IB_ACCESS_REMOTE_READ = (if x AND IB_ACCESS_REMOTE_READ \<noteq> 0 then IB_ACCESS_REMOTE_READ else 0)"
    "x AND IB_ACCESS_REMOTE_ATOMIC = (if x AND IB_ACCESS_REMOTE_ATOMIC \<noteq> 0 then IB_ACCESS_REMOTE_ATOMIC else 0)" for x
    using sub [of x 1] sub [of x 2] sub [of x 3] by (simp_all add: access_bits split: if_splits)
  have w: "x AND IB_ACCESS_REMOTE_WRITE AND IB_ACCESS_REMOTE_WRITE = x AND IB_ACCESS_REMOTE_WRITE"
    "x AND IB_ACCESS_REMOTE_WRITE AND IB_ACCESS_REMOTE_READ = 0"
    "x AND IB_ACCESS_REMOTE_WRITE AND IB_ACCESS_REMOTE_ATOMIC = 0"
    "IB_ACCESS_REMOTE_WRITE AND IB_ACCESS_REMOTE_READ = 0" "IB_ACCESS_REMOTE_WRITE AND IB_ACCESS_REMOTE_ATOMIC = 0" for x
    by (simp_all add: access_bits and.assoc)
  show ?thesis
    unfolding to_ib_qp_access_flags_def
    using hw_access_bits [OF assms] f [of flags]
    by (cases "dest_rd_atomic = 0") (auto simp: w ac_simps(1,2) bit.conj_disj_distrib or.left_commute or.commute)
qed

theorem access_flags_roundtrip_witness:
  "\<exists>h. hw_access_flags \<lparr>atomic = 1, atomic_operations = 3, atomic_size_qp = 8, atomic_size_dc = 8\<rparr> IB_QPT_RC 4 14 = Inr h \<and>
       to_ib_qp_access_flags h = 14"
proof -
  have "hw_access_flags \<lparr>atomic = 1, atomic_operations = 3, atomic_size_qp = 8, atomic_size_dc = 8\<rparr> IB_QPT_RC 4 14
      = Inr 0xe000"
    by code_simp
  from access_flags_roundtrip [OF this] this show ?thesis
    by (simp add: access_bits)
qed

text \<open>
  The atomic mode of a device that offers the two standard operations only is lost: the enumerator is already
  shifted to its position in the context and \<^verbatim>\<open>to_mlx5_access_flags\<close> shifts it again, so the context enables
  remote atomics (\<^verbatim>\<open>MLX5_QP_BIT_RAE\<close>) while its atomic mode field, bits 16 and up, is that of
  \<^verbatim>\<open>MLX5_ATOMIC_MODE_NONE\<close>.
\<close>
theorem atomic_mode_lost:
  assumes "atomic c \<noteq> 0" and "atomic_operations c = MLX5_ATOMIC_OPS_CMP_SWAP OR MLX5_ATOMIC_OPS_FETCH_ADD"
    and "dest_rd_atomic \<noteq> 0" and "flags AND IB_ACCESS_REMOTE_ATOMIC \<noteq> 0"
  shows "get_atomic_mode c t = MLX5_ATOMIC_MODE_IB_COMP \<and>
    (\<exists>h. hw_access_flags c t dest_rd_atomic flags = Inr h \<and> h AND MLX5_QP_BIT_RAE \<noteq> 0 \<and>
      drop_bit MLX5_ATOMIC_MODE_OFF h = 0)"
proof -
  have m: "get_atomic_mode c t = MLX5_ATOMIC_MODE_IB_COMP"
    using assms(1,2) by (simp add: get_atomic_mode_def Let_def MLX5_ATOMIC_OPS_CMP_SWAP_def
        MLX5_ATOMIC_OPS_FETCH_ADD_def MLX5_ATOMIC_OPS_EXTENDED_CMP_SWAP_def MLX5_ATOMIC_OPS_EXTENDED_FETCH_ADD_def EOPNOTSUPP_def)
  have z: "push_bit MLX5_ATOMIC_MODE_OFF (word_of_int MLX5_ATOMIC_MODE_IB_COMP) = (0 :: u32)" "\<not> MLX5_ATOMIC_MODE_IB_COMP < 0"
    by (simp_all add: MLX5_ATOMIC_MODE_IB_COMP_def MLX5_ATOMIC_MODE_OFF_def)
  obtain h where h: "hw_access_flags c t dest_rd_atomic flags = Inr h"
    and e: "h = (if flags AND IB_ACCESS_REMOTE_READ \<noteq> 0 then MLX5_QP_BIT_RRE else 0) OR MLX5_QP_BIT_RAE OR
        (if flags AND IB_ACCESS_REMOTE_WRITE \<noteq> 0 then MLX5_QP_BIT_RWE else 0)"
    using assms(3,4) by (simp add: hw_access_flags_def Let_def m z)
  have "drop_bit MLX5_ATOMIC_MODE_OFF h = 0" unfolding e by (simp add: access_bits)
  with m h hw_access_bits(3) [OF h] assms(3,4) show ?thesis by simp
qed

theorem atomic_mode_lost_witness:
  "\<exists>h. hw_access_flags \<lparr>atomic = 1, atomic_operations = 3, atomic_size_qp = 8, atomic_size_dc = 8\<rparr> IB_QPT_RC 4 14 = Inr h \<and>
     drop_bit MLX5_ATOMIC_MODE_OFF h = 0"
  using atomic_mode_lost [of "\<lparr>atomic = 1, atomic_operations = 3, atomic_size_qp = 8, atomic_size_dc = 8\<rparr>" 4 14 IB_QPT_RC]
  by (auto simp: access_bits MLX5_ATOMIC_OPS_CMP_SWAP_def MLX5_ATOMIC_OPS_FETCH_ADD_def)

end
