(* ===== verification/Smi.thy ===== *)
theory Smi
  imports Prelude
begin

text \<open>
  Directed-route subnet management packets, \<^verbatim>\<open>drivers/infiniband/core/smi.c\<close>, \<^verbatim>\<open>smi.h\<close> and \<^verbatim>\<open>opa_smi.h\<close>,
  and the two places of \<^verbatim>\<open>mad.c\<close> that drive them: \<^verbatim>\<open>handle_ib_smi\<close> and \<^verbatim>\<open>handle_opa_smi\<close> for a received
  packet, \<^verbatim>\<open>handle_outgoing_dr_smp\<close> for one to be sent.  A packet carries the out-ports of its path and
  collects the in-ports on the way; the response follows them back.  The InfiniBand and the Omni-Path
  packet share the routing part; their handlers are two interpretations of one interface.  A path
  access outside the 64 bytes of a path is \<^const>\<open>None\<close>.
\<close>

unbundle bit_operations_syntax

section \<open>Packets\<close>

definition IB_SMP_MAX_PATH_HOPS :: nat where "IB_SMP_MAX_PATH_HOPS = 64"
definition IB_SMP_DIRECTION :: u16 where "IB_SMP_DIRECTION = 0x8000"
definition IB_LID_PERMISSIVE :: u16 where "IB_LID_PERMISSIVE = 0xFFFF"
definition OPA_LID_PERMISSIVE :: u32 where "OPA_LID_PERMISSIVE = 0xFFFFFFFF"

text \<open>The members both packet layouts have; multi-byte members are in host order.\<close>

record dr_smp =
  smp_status :: u16
  hop_ptr :: u8
  hop_cnt :: u8
  initial_path :: "u8 list"
  return_path :: "u8 list"

record ib_smp = dr_smp +
  dr_slid :: u16
  dr_dlid :: u16

record opa_smp = dr_smp +
  opa_dr_slid :: u32
  opa_dr_dlid :: u32

datatype smi_action = IB_SMI_DISCARD | IB_SMI_HANDLE
datatype smi_forward_action = IB_SMI_LOCAL | IB_SMI_SEND | IB_SMI_FORWARD

definition ib_get_smp_direction :: "'a dr_smp_scheme \<Rightarrow> bool" where
  "ib_get_smp_direction smp \<longleftrightarrow> smp_status smp AND IB_SMP_DIRECTION = IB_SMP_DIRECTION"

section \<open>The routing rules\<close>

definition path_at :: "u8 list \<Rightarrow> nat \<Rightarrow> int option" where
  "path_at path i = (if i < length path then Some (uint (path ! i)) else None)"

text \<open>The packet may pass when the path names the port at the hop pointer.\<close>

definition on_path :: "u8 list \<Rightarrow> int \<Rightarrow> 'a dr_smp_scheme \<Rightarrow> (smi_action \<times> 'a dr_smp_scheme) option" where
  "on_path path port_num smp = do {
     p \<leftarrow> path_at path (unat (hop_ptr smp));
     Some (if p = port_num then IB_SMI_HANDLE else IB_SMI_DISCARD, smp)
   }"

definition handle_if :: "bool \<Rightarrow> smi_action" where
  "handle_if b = (if b then IB_SMI_HANDLE else IB_SMI_DISCARD)"

abbreviation hop_up :: "'a dr_smp_scheme \<Rightarrow> 'a dr_smp_scheme" where
  "hop_up smp \<equiv> smp\<lparr>hop_ptr := hop_ptr smp + 1\<rparr>"

abbreviation hop_down :: "'a dr_smp_scheme \<Rightarrow> 'a dr_smp_scheme" where
  "hop_down smp \<equiv> smp\<lparr>hop_ptr := hop_ptr smp - 1\<rparr>"

definition dr_smp_send :: "bool \<Rightarrow> int \<Rightarrow> bool \<Rightarrow> bool \<Rightarrow> 'a dr_smp_scheme \<Rightarrow> (smi_action \<times> 'a dr_smp_scheme) option" where
  "dr_smp_send is_switch port_num dlid_permissive slid_permissive smp =
     (let ptr = unat (hop_ptr smp); cnt = unat (hop_cnt smp) in
      if cnt \<ge> IB_SMP_MAX_PATH_HOPS then Some (IB_SMI_DISCARD, smp)
      else if \<not> ib_get_smp_direction smp then
        if cnt \<noteq> 0 \<and> ptr = 0 then on_path (initial_path smp) port_num (hop_up smp)
        else if ptr \<noteq> 0 \<and> ptr < cnt then
          if \<not> is_switch then Some (IB_SMI_DISCARD, smp)
          else on_path (initial_path smp) port_num (hop_up smp)
        else if ptr = cnt then Some (handle_if (is_switch \<or> dlid_permissive), hop_up smp)
        else Some (handle_if (ptr = cnt + 1), smp)
      else
        if cnt \<noteq> 0 \<and> ptr = cnt + 1 then on_path (return_path smp) port_num (hop_down smp)
        else if 2 \<le> ptr \<and> ptr \<le> cnt then
          if \<not> is_switch then Some (IB_SMI_DISCARD, smp)
          else on_path (return_path smp) port_num (hop_down smp)
        else if ptr = 1 then Some (handle_if (is_switch \<or> slid_permissive), hop_down smp)
        else Some (handle_if (ptr = 0), smp))"

definition record_port :: "int \<Rightarrow> 'a dr_smp_scheme \<Rightarrow> 'a dr_smp_scheme option" where
  "record_port port_num smp =
     (let ptr = unat (hop_ptr smp) in
      if ptr < length (return_path smp)
      then Some (smp\<lparr>return_path := (return_path smp)[ptr := word_of_int port_num]\<rparr>) else None)"

definition dr_smp_recv :: "bool \<Rightarrow> int \<Rightarrow> int \<Rightarrow> bool \<Rightarrow> bool \<Rightarrow> 'a dr_smp_scheme \<Rightarrow> (smi_action \<times> 'a dr_smp_scheme) option" where
  "dr_smp_recv is_switch port_num phys_port_cnt dlid_permissive slid_permissive smp =
     (let ptr = unat (hop_ptr smp); cnt = unat (hop_cnt smp) in
      if cnt \<ge> IB_SMP_MAX_PATH_HOPS then Some (IB_SMI_DISCARD, smp)
      else if \<not> ib_get_smp_direction smp then
        if cnt \<noteq> 0 \<and> ptr = 0 then Some (IB_SMI_DISCARD, smp)
        else if ptr \<noteq> 0 \<and> ptr < cnt then
          if \<not> is_switch then Some (IB_SMI_DISCARD, smp)
          else do {
            smp \<leftarrow> record_port port_num smp;
            p \<leftarrow> path_at (initial_path smp) (ptr + 1);
            Some (handle_if (p \<le> phys_port_cnt), smp)
          }
        else if ptr = cnt then do {
          smp \<leftarrow> (if cnt \<noteq> 0 then record_port port_num smp else Some smp);
          Some (handle_if (is_switch \<or> dlid_permissive), smp)
        }
        else Some (handle_if (ptr = cnt + 1), smp)
      else
        if cnt \<noteq> 0 \<and> ptr = cnt + 1 then on_path (return_path smp) port_num (hop_down smp)
        else if 2 \<le> ptr \<and> ptr \<le> cnt then
          if \<not> is_switch then Some (IB_SMI_DISCARD, smp)
          else do {
            p \<leftarrow> path_at (return_path smp) (ptr - 1);
            Some (handle_if (p \<le> phys_port_cnt), smp)
          }
        else if ptr = 1 then
          if slid_permissive then Some (IB_SMI_HANDLE, hop_down smp) else Some (handle_if is_switch, smp)
        else Some (handle_if (ptr = 0), smp))"

definition check_forward_dr_smp :: "bool \<Rightarrow> bool \<Rightarrow> 'a dr_smp_scheme \<Rightarrow> smi_forward_action" where
  "check_forward_dr_smp dlid_permissive slid_permissive smp =
     (let ptr = unat (hop_ptr smp); cnt = unat (hop_cnt smp) in
      if \<not> ib_get_smp_direction smp then
        if ptr \<noteq> 0 \<and> ptr < cnt then IB_SMI_FORWARD
        else if ptr = cnt then (if dlid_permissive then IB_SMI_SEND else IB_SMI_LOCAL)
        else if ptr = cnt + 1 then IB_SMI_SEND
        else IB_SMI_LOCAL
      else
        if 2 \<le> ptr \<and> ptr \<le> cnt then IB_SMI_FORWARD
        else if ptr = 1 then (if \<not> slid_permissive then IB_SMI_SEND else IB_SMI_LOCAL)
        else IB_SMI_LOCAL)"

text \<open>At hop pointer 0 a returning packet would index -1.\<close>

definition get_fwd_port :: "'a dr_smp_scheme \<Rightarrow> int option" where
  "get_fwd_port smp =
     (if \<not> ib_get_smp_direction smp then path_at (initial_path smp) (unat (hop_ptr smp) + 1)
      else if hop_ptr smp = 0 then None else path_at (return_path smp) (unat (hop_ptr smp) - 1))"

section \<open>The two packet formats\<close>

definition smi_handle_dr_smp_send :: "ib_smp \<Rightarrow> bool \<Rightarrow> int \<Rightarrow> (smi_action \<times> ib_smp) option" where
  "smi_handle_dr_smp_send smp is_switch port_num =
     dr_smp_send is_switch port_num (dr_dlid smp = IB_LID_PERMISSIVE) (dr_slid smp = IB_LID_PERMISSIVE) smp"

definition opa_smi_handle_dr_smp_send :: "opa_smp \<Rightarrow> bool \<Rightarrow> int \<Rightarrow> (smi_action \<times> opa_smp) option" where
  "opa_smi_handle_dr_smp_send smp is_switch port_num =
     dr_smp_send is_switch port_num (opa_dr_dlid smp = OPA_LID_PERMISSIVE) (opa_dr_slid smp = OPA_LID_PERMISSIVE) smp"

definition smi_handle_dr_smp_recv :: "ib_smp \<Rightarrow> bool \<Rightarrow> int \<Rightarrow> int \<Rightarrow> (smi_action \<times> ib_smp) option" where
  "smi_handle_dr_smp_recv smp is_switch port_num phys_port_cnt =
     dr_smp_recv is_switch port_num phys_port_cnt
       (dr_dlid smp = IB_LID_PERMISSIVE) (dr_slid smp = IB_LID_PERMISSIVE) smp"

definition opa_smi_handle_dr_smp_recv :: "opa_smp \<Rightarrow> bool \<Rightarrow> int \<Rightarrow> int \<Rightarrow> (smi_action \<times> opa_smp) option" where
  "opa_smi_handle_dr_smp_recv smp is_switch port_num phys_port_cnt =
     dr_smp_recv is_switch port_num phys_port_cnt
       (opa_dr_dlid smp = OPA_LID_PERMISSIVE) (opa_dr_slid smp = OPA_LID_PERMISSIVE) smp"

definition smi_check_forward_dr_smp :: "ib_smp \<Rightarrow> smi_forward_action" where
  "smi_check_forward_dr_smp smp =
     check_forward_dr_smp (dr_dlid smp = IB_LID_PERMISSIVE) (dr_slid smp = IB_LID_PERMISSIVE) smp"

definition opa_smi_check_forward_dr_smp :: "opa_smp \<Rightarrow> smi_forward_action" where
  "opa_smi_check_forward_dr_smp smp =
     check_forward_dr_smp (opa_dr_dlid smp = OPA_LID_PERMISSIVE) (opa_dr_slid smp = OPA_LID_PERMISSIVE) smp"

text \<open>The forwarding port and the local checks read shared members only.\<close>

definition smi_get_fwd_port :: "ib_smp \<Rightarrow> int option" where
  "smi_get_fwd_port smp = get_fwd_port smp"

definition opa_smi_get_fwd_port :: "opa_smp \<Rightarrow> int option" where
  "opa_smi_get_fwd_port smp = get_fwd_port smp"

definition smi_check_local_smp :: "bool \<Rightarrow> 'a dr_smp_scheme \<Rightarrow> smi_action" where
  "smi_check_local_smp process_mad smp =
     handle_if (process_mad \<and> \<not> ib_get_smp_direction smp \<and> unat (hop_ptr smp) = unat (hop_cnt smp) + 1)"

definition smi_check_local_returning_smp :: "bool \<Rightarrow> 'a dr_smp_scheme \<Rightarrow> smi_action" where
  "smi_check_local_returning_smp process_mad smp =
     handle_if (process_mad \<and> ib_get_smp_direction smp \<and> hop_ptr smp = 0)"

section \<open>Receiving and sending\<close>

record smi_device =
  is_switch :: bool
  phys_port_cnt :: int
  process_mad :: bool

text \<open>
  The last component of the result of the handlers is the port a copy of the packet is sent through.
\<close>

definition handle_ib_smi :: "smi_device \<Rightarrow> int \<Rightarrow> ib_smp \<Rightarrow> (smi_action \<times> ib_smp \<times> int option) option" where
  "handle_ib_smi dev port_num smp = do {
     (act, smp) \<leftarrow> smi_handle_dr_smp_recv smp (is_switch dev) port_num (phys_port_cnt dev);
     if act = IB_SMI_DISCARD then Some (IB_SMI_DISCARD, smp, None)
     else case smi_check_forward_dr_smp smp of
       IB_SMI_LOCAL \<Rightarrow> Some (IB_SMI_HANDLE, smp, None)
     | IB_SMI_SEND \<Rightarrow> do {
         (act, smp) \<leftarrow> smi_handle_dr_smp_send smp (is_switch dev) port_num;
         if act = IB_SMI_DISCARD then Some (IB_SMI_DISCARD, smp, None)
         else Some (smi_check_local_smp (process_mad dev) smp, smp, None)
       }
     | IB_SMI_FORWARD \<Rightarrow>
         if is_switch dev then do {
           p \<leftarrow> smi_get_fwd_port smp;
           Some (IB_SMI_DISCARD, smp, Some p)
         } else Some (IB_SMI_HANDLE, smp, None)
   }"

definition handle_opa_smi :: "smi_device \<Rightarrow> int \<Rightarrow> opa_smp \<Rightarrow> (smi_action \<times> opa_smp \<times> int option) option" where
  "handle_opa_smi dev port_num smp = do {
     (act, smp) \<leftarrow> opa_smi_handle_dr_smp_recv smp (is_switch dev) port_num (phys_port_cnt dev);
     if act = IB_SMI_DISCARD then Some (IB_SMI_DISCARD, smp, None)
     else case opa_smi_check_forward_dr_smp smp of
       IB_SMI_LOCAL \<Rightarrow> Some (IB_SMI_HANDLE, smp, None)
     | IB_SMI_SEND \<Rightarrow> do {
         (act, smp) \<leftarrow> opa_smi_handle_dr_smp_send smp (is_switch dev) port_num;
         if act = IB_SMI_DISCARD then Some (IB_SMI_DISCARD, smp, None)
         else Some (smi_check_local_smp (process_mad dev) smp, smp, None)
       }
     | IB_SMI_FORWARD \<Rightarrow>
         if is_switch dev then do {
           p \<leftarrow> opa_smi_get_fwd_port smp;
           Some (IB_SMI_DISCARD, smp, Some p)
         } else Some (IB_SMI_HANDLE, smp, None)
   }"

text \<open>
  The routing decision of \<^verbatim>\<open>handle_outgoing_dr_smp\<close> for a packet to be sent through \<open>port_num\<close>: an error,
  or whether the packet is for this node (\<^const>\<open>True\<close>) or goes out on the wire (\<^const>\<open>False\<close>).
\<close>

definition goes_local :: "smi_device \<Rightarrow> 'a dr_smp_scheme \<Rightarrow> bool" where
  "goes_local dev smp \<longleftrightarrow> \<not> (smi_check_local_smp (process_mad dev) smp = IB_SMI_DISCARD \<and>
     smi_check_local_returning_smp (process_mad dev) smp = IB_SMI_DISCARD)"

definition outgoing_dr_smp :: "smi_device \<Rightarrow> int \<Rightarrow> ib_smp \<Rightarrow> ((int + bool) \<times> ib_smp) option" where
  "outgoing_dr_smp dev port_num smp = do {
     (act, smp) \<leftarrow>
       (if (if ib_get_smp_direction smp then dr_dlid smp else dr_slid smp) = IB_LID_PERMISSIVE
        then smi_handle_dr_smp_send smp (is_switch dev) port_num else Some (IB_SMI_HANDLE, smp));
     if act = IB_SMI_DISCARD then Some (Inl (- EINVAL), smp)
     else Some (Inr (goes_local dev smp), smp)
   }"

definition outgoing_opa_dr_smp :: "smi_device \<Rightarrow> int \<Rightarrow> opa_smp \<Rightarrow> ((int + bool) \<times> opa_smp) option" where
  "outgoing_opa_dr_smp dev port_num smp = do {
     (act, smp) \<leftarrow>
       (if (if ib_get_smp_direction smp then opa_dr_dlid smp else opa_dr_slid smp) = OPA_LID_PERMISSIVE
        then opa_smi_handle_dr_smp_send smp (is_switch dev) port_num else Some (IB_SMI_HANDLE, smp));
     if act = IB_SMI_DISCARD then Some (Inl (- EINVAL), smp)
     else if opa_dr_slid smp \<noteq> OPA_LID_PERMISSIVE \<and> opa_dr_slid smp AND 0xffff0000 \<noteq> 0
     then Some (Inl (- EINVAL), smp)
     else Some (Inr (goes_local dev smp), smp)
   }"

section \<open>One hop\<close>

definition smp_ok :: "'a dr_smp_scheme \<Rightarrow> bool" where
  "smp_ok smp \<longleftrightarrow> length (initial_path smp) = IB_SMP_MAX_PATH_HOPS \<and> length (return_path smp) = IB_SMP_MAX_PATH_HOPS"

lemmas smi_defs = smi_handle_dr_smp_send_def opa_smi_handle_dr_smp_send_def smi_handle_dr_smp_recv_def
  opa_smi_handle_dr_smp_recv_def smi_check_forward_dr_smp_def opa_smi_check_forward_dr_smp_def
  smi_get_fwd_port_def opa_smi_get_fwd_port_def smi_check_local_smp_def smi_check_local_returning_smp_def

lemmas dr_defs = dr_smp_send_def dr_smp_recv_def check_forward_dr_smp_def get_fwd_port_def on_path_def
  record_port_def path_at_def handle_if_def IB_SMP_MAX_PATH_HOPS_def

lemma direction_update [simp]:
  "ib_get_smp_direction (smp\<lparr>hop_ptr := x\<rparr>) = ib_get_smp_direction smp"
  "ib_get_smp_direction (smp\<lparr>return_path := r\<rparr>) = ib_get_smp_direction smp"
  "ib_get_smp_direction (smp\<lparr>smp_status := st OR IB_SMP_DIRECTION\<rparr>)"
  by (simp_all add: ib_get_smp_direction_def and.commute [of _ IB_SMP_DIRECTION] or.commute)

lemma hop_up_unat [simp]: "unat (p :: u8) < 255 \<Longrightarrow> unat (p + 1) = unat p + 1"
  by (simp add: unat_word_ariths)

lemma hop_down_unat [simp]: "0 < unat (p :: u8) \<Longrightarrow> unat (p - 1) = unat p - 1"
  by (metis One_nat_def Suc_leI unat_1 unat_minus_one unat_gt_0)

text \<open>
  What a node promises of a packet that is directed-routed all the way: the first send, a switch on
  the way out, the destination, the reply, a switch on the way back, the arrival.
\<close>

locale dr_router =
  fixes handle :: "smi_device \<Rightarrow> int \<Rightarrow> 'a dr_smp_scheme \<Rightarrow> (smi_action \<times> 'a dr_smp_scheme \<times> int option) option"
    and outgoing :: "smi_device \<Rightarrow> int \<Rightarrow> 'a dr_smp_scheme \<Rightarrow> ((int + bool) \<times> 'a dr_smp_scheme) option"
    and directed :: "'a dr_smp_scheme \<Rightarrow> bool"
  assumes directed_update:
      "directed (s\<lparr>hop_ptr := x\<rparr>) = directed s" "directed (s\<lparr>return_path := r\<rparr>) = directed s"
      "directed (s\<lparr>smp_status := st\<rparr>) = directed s"
    and first_send: "\<lbrakk>directed s; smp_ok s; \<not> ib_get_smp_direction s; hop_ptr s = 0; 0 < unat (hop_cnt s);
        unat (hop_cnt s) < 64\<rbrakk>
      \<Longrightarrow> outgoing dev (uint (initial_path s ! 1)) s = Some (Inr False, hop_up s)"
    and switch_out: "\<lbrakk>directed s; smp_ok s; \<not> ib_get_smp_direction s; 0 < unat (hop_ptr s);
        unat (hop_ptr s) < unat (hop_cnt s); unat (hop_cnt s) < 64; is_switch dev;
        p = uint (initial_path s ! (unat (hop_ptr s) + 1)); p \<le> phys_port_cnt dev;
        s' = s\<lparr>return_path := (return_path s)[unat (hop_ptr s) := word_of_int q]\<rparr>\<rbrakk>
      \<Longrightarrow> handle dev q s = Some (IB_SMI_DISCARD, s', Some p) \<and> outgoing dev p s' = Some (Inr False, hop_up s')"
    and deliver: "\<lbrakk>directed s; smp_ok s; \<not> ib_get_smp_direction s; 0 < unat (hop_ptr s);
        hop_ptr s = hop_cnt s; unat (hop_cnt s) < 64; process_mad dev\<rbrakk>
      \<Longrightarrow> handle dev q s = Some (IB_SMI_HANDLE,
        hop_up (s\<lparr>return_path := (return_path s)[unat (hop_ptr s) := word_of_int q]\<rparr>), None)"
    and reply_send: "\<lbrakk>directed s; smp_ok s; ib_get_smp_direction s; 0 < unat (hop_cnt s);
        unat (hop_ptr s) = unat (hop_cnt s) + 1; unat (hop_cnt s) < 64\<rbrakk>
      \<Longrightarrow> outgoing dev (uint (return_path s ! unat (hop_cnt s))) s = Some (Inr False, hop_down s)"
    and switch_back: "\<lbrakk>directed s; smp_ok s; ib_get_smp_direction s; 2 \<le> unat (hop_ptr s);
        unat (hop_ptr s) \<le> unat (hop_cnt s); unat (hop_cnt s) < 64; is_switch dev;
        p = uint (return_path s ! (unat (hop_ptr s) - 1)); p \<le> phys_port_cnt dev\<rbrakk>
      \<Longrightarrow> handle dev q s = Some (IB_SMI_DISCARD, s, Some p) \<and> outgoing dev p s = Some (Inr False, hop_down s)"
    and arrive: "\<lbrakk>directed s; smp_ok s; ib_get_smp_direction s; hop_ptr s = 1; 0 < unat (hop_cnt s);
        unat (hop_cnt s) < 64\<rbrakk>
      \<Longrightarrow> handle dev q s = Some (IB_SMI_HANDLE, hop_down s, None)"

lemmas smi_eval = handle_ib_smi_def handle_opa_smi_def outgoing_dr_smp_def outgoing_opa_dr_smp_def goes_local_def
  smi_defs dr_defs smp_ok_def

interpretation ib: dr_router handle_ib_smi outgoing_dr_smp
  "\<lambda>s. dr_slid s = IB_LID_PERMISSIVE \<and> dr_dlid s = IB_LID_PERMISSIVE"
  by unfold_locales (auto simp: smi_eval Let_def)

interpretation opa: dr_router handle_opa_smi outgoing_opa_dr_smp
  "\<lambda>s. opa_dr_slid s = OPA_LID_PERMISSIVE \<and> opa_dr_dlid s = OPA_LID_PERMISSIVE"
  by unfold_locales (auto simp: smi_eval Let_def)

section \<open>Paths through a fabric\<close>

text \<open>
  A fabric gives the device of every node and the far end of every port.  A packet in flight is a node,
  the port it arrives through, and its contents.  A switch forwards what its handler sends on; the
  forwarded copy goes through \<^verbatim>\<open>agent_send_response\<close> and the outgoing check.
\<close>

type_synonym 's handler = "smi_device \<Rightarrow> int \<Rightarrow> 's \<Rightarrow> (smi_action \<times> 's \<times> int option) option"
type_synonym 's sender = "smi_device \<Rightarrow> int \<Rightarrow> 's \<Rightarrow> ((int + bool) \<times> 's) option"
type_synonym links = "nat \<times> int \<Rightarrow> (nat \<times> int) option"
type_synonym 's flight = "nat \<times> int \<times> 's"

definition smi_transmit :: "'s sender \<Rightarrow> (nat \<Rightarrow> smi_device) \<Rightarrow> links \<Rightarrow> nat \<Rightarrow> int \<Rightarrow> 's \<Rightarrow> 's flight option" where
  "smi_transmit outgoing devs link v p s = (case outgoing (devs v) p s of
     Some (Inr False, s') \<Rightarrow> map_option (\<lambda>(w, q). (w, q, s')) (link (v, p)) | _ \<Rightarrow> None)"

fun smi_forward :: "'s handler \<Rightarrow> 's sender \<Rightarrow> (nat \<Rightarrow> smi_device) \<Rightarrow> links \<Rightarrow> 's flight \<Rightarrow> 's flight option" where
  "smi_forward handle outgoing devs link (v, q, s) = (case handle (devs v) q s of
     Some (_, s', Some p) \<Rightarrow> smi_transmit outgoing devs link v p s' | _ \<Rightarrow> None)"

primrec smi_forwards :: "nat \<Rightarrow> 's handler \<Rightarrow> 's sender \<Rightarrow> (nat \<Rightarrow> smi_device) \<Rightarrow> links \<Rightarrow> 's flight \<Rightarrow> 's flight option" where
  "smi_forwards 0 handle outgoing devs link st = Some st"
| "smi_forwards (Suc k) handle outgoing devs link st =
     Option.bind (smi_forwards k handle outgoing devs link st) (smi_forward handle outgoing devs link)"

text \<open>The response keeps the routing members and sets the direction, as \<^verbatim>\<open>generate_unmatched_resp\<close> does.\<close>

definition dr_response :: "u16 \<Rightarrow> 'a dr_smp_scheme \<Rightarrow> 'a dr_smp_scheme" where
  "dr_response status smp = smp\<lparr>smp_status := status OR IB_SMP_DIRECTION\<rparr>"

text \<open>
  A request from port \<open>p\<close> of node \<open>v\<close> over \<open>n\<close> links, its response, and what the handler of the node
  the response reaches makes of it.
\<close>

definition dr_exchange :: "'a dr_smp_scheme handler \<Rightarrow> 'a dr_smp_scheme sender \<Rightarrow> (nat \<Rightarrow> smi_device) \<Rightarrow> links \<Rightarrow> u16 \<Rightarrow>
    nat \<Rightarrow> nat \<Rightarrow> int \<Rightarrow> 'a dr_smp_scheme \<Rightarrow> (nat \<times> int \<times> nat \<times> smi_action \<times> 'a dr_smp_scheme) option" where
  "dr_exchange handle outgoing devs link status n v p s = do {
     st \<leftarrow> smi_transmit outgoing devs link v p s;
     (w, q, s) \<leftarrow> smi_forwards (n - 1) handle outgoing devs link st;
     (act, s, _) \<leftarrow> handle (devs w) q s;
     if act = IB_SMI_DISCARD then None else do {
       st \<leftarrow> smi_transmit outgoing devs link w q (dr_response status s);
       (v', p', s) \<leftarrow> smi_forwards (n - 1) handle outgoing devs link st;
       (act, s, _) \<leftarrow> handle (devs v') p' s;
       Some (w, p', v', act, s)
     }
   }"

text \<open>
  A route of \<open>n\<close> links: node \<open>vs i\<close> is left through port \<open>ps (i + 1)\<close>, node \<open>vs (i + 1)\<close> is entered through port
  \<open>qs (i + 1)\<close>, links work both ways, the inner nodes are switches with these ports.
\<close>

definition route :: "(nat \<Rightarrow> smi_device) \<Rightarrow> links \<Rightarrow> nat \<Rightarrow> (nat \<Rightarrow> nat) \<Rightarrow> (nat \<Rightarrow> int) \<Rightarrow> (nat \<Rightarrow> int) \<Rightarrow> bool" where
  "route devs link n vs ps qs \<longleftrightarrow> 0 < n \<and> n < IB_SMP_MAX_PATH_HOPS \<and>
     (\<forall>i < n. link (vs i, ps (i + 1)) = Some (vs (i + 1), qs (i + 1)) \<and>
       link (vs (i + 1), qs (i + 1)) = Some (vs i, ps (i + 1)) \<and> 0 \<le> qs (i + 1) \<and> qs (i + 1) < 256) \<and>
     (\<forall>i < n. 0 < i \<longrightarrow> is_switch (devs (vs i)) \<and> ps (i + 1) \<le> phys_port_cnt (devs (vs i)) \<and>
       qs i \<le> phys_port_cnt (devs (vs i))) \<and>
     process_mad (devs (vs n))"

lemma of_nat_hop [simp]: "n \<le> 64 \<Longrightarrow> unat (of_nat n :: u8) = n"
  by (simp add: unat_of_nat)

context dr_router
begin

lemma out_state:
  assumes "route devs link n vs ps qs" and "directed s" "smp_ok s" "\<not> ib_get_smp_direction s" "hop_cnt s = of_nat n"
    and "\<forall>i < n. uint (initial_path s ! (i + 1)) = ps (i + 1)" and "k < n"
  shows "\<exists>r. smi_forwards k handle outgoing devs link (vs 1, qs 1, s\<lparr>hop_ptr := 1\<rparr>) =
      Some (vs (k + 1), qs (k + 1), s\<lparr>hop_ptr := of_nat (k + 1), return_path := r\<rparr>) \<and>
    length r = 64 \<and> (\<forall>i < k. r ! (i + 1) = word_of_int (qs (i + 1)))"
  using assms(7)
proof (induction k)
  case 0
  from assms(3) show ?case by (intro exI [of _ "return_path s"]) (simp add: smp_ok_def IB_SMP_MAX_PATH_HOPS_def)
next
  case (Suc k)
  then obtain r where r: "smi_forwards k handle outgoing devs link (vs 1, qs 1, s\<lparr>hop_ptr := 1\<rparr>) =
      Some (vs (k + 1), qs (k + 1), s\<lparr>hop_ptr := of_nat (k + 1), return_path := r\<rparr>)"
    "length r = 64" "\<forall>i < k. r ! (i + 1) = word_of_int (qs (i + 1))"
    by auto
  let ?x = "s\<lparr>hop_ptr := of_nat (k + 1), return_path := r\<rparr>"
  let ?y = "s\<lparr>hop_ptr := of_nat (k + 1), return_path := r[k + 1 := word_of_int (qs (k + 1))]\<rparr>"
  have n: "n < 64" using assms(1) by (simp add: route_def IB_SMP_MAX_PATH_HOPS_def)
  have u: "unat (of_nat (k + 1) :: u8) = k + 1" "unat (hop_cnt s) = n"
    using Suc.prems n assms(5) by (simp_all del: of_nat_add of_nat_Suc)
  have "is_switch (devs (vs (k + 1)))" "ps (k + 2) \<le> phys_port_cnt (devs (vs (k + 1)))"
    using assms(1) Suc.prems by (auto simp: route_def)
  moreover have "ps (k + 2) = uint (initial_path s ! (k + 2))" using assms(6) Suc.prems by (auto simp: numeral_2_eq_2)
  ultimately have h: "handle (devs (vs (k + 1))) (qs (k + 1)) ?x = Some (IB_SMI_DISCARD, ?y, Some (ps (k + 2))) \<and>
      outgoing (devs (vs (k + 1))) (ps (k + 2)) ?y = Some (Inr False, hop_up ?y)"
    using assms(2-4) r(2) u Suc.prems n
    by (intro switch_out) (simp_all add: directed_update smp_ok_def IB_SMP_MAX_PATH_HOPS_def del: of_nat_add of_nat_Suc)
  have "link (vs (k + 1), ps (k + 2)) = Some (vs (k + 2), qs (k + 2))"
    using assms(1) Suc.prems by (auto simp: route_def numeral_2_eq_2)
  with h r n Suc.prems show ?case
    by (intro exI [of _ "r[k + 1 := word_of_int (qs (k + 1))]"])
      (auto simp: smi_transmit_def nth_list_update numeral_2_eq_2 less_Suc_eq add.commute)
qed

lemma back_state:
  assumes "route devs link n vs ps qs" and "directed t" "smp_ok t" "ib_get_smp_direction t" "hop_cnt t = of_nat n"
    and "\<forall>i < n. return_path t ! (i + 1) = word_of_int (qs (i + 1))" and "k < n"
  shows "smi_forwards k handle outgoing devs link (vs (n - 1), ps n, t\<lparr>hop_ptr := of_nat n\<rparr>) =
      Some (vs (n - 1 - k), ps (n - k), t\<lparr>hop_ptr := of_nat (n - k)\<rparr>)"
  using assms(7)
proof (induction k)
  case 0
  show ?case by simp
next
  case (Suc k)
  define m where "m = n - Suc (Suc k)"
  have m: "n = m + k + 2" using Suc.prems by (simp add: m_def)
  let ?x = "t\<lparr>hop_ptr := of_nat (m + 2)\<rparr>"
  have IH: "smi_forwards k handle outgoing devs link (vs (n - 1), ps n, t\<lparr>hop_ptr := of_nat n\<rparr>) =
      Some (vs (m + 1), ps (m + 2), ?x)"
    using Suc by (simp add: m)
  have n: "n < 64" using assms(1) by (simp add: route_def IB_SMP_MAX_PATH_HOPS_def)
  have u: "unat (of_nat (m + 2) :: u8) = m + 2" using n m by (intro of_nat_hop) simp
  have c: "unat (hop_cnt t) = n" unfolding assms(5) using n by (intro of_nat_hop) simp
  have q: "0 \<le> qs (m + 1)" "qs (m + 1) < 256" using assms(1) m by (auto simp: route_def)
  have "is_switch (devs (vs (m + 1)))" "qs (m + 1) \<le> phys_port_cnt (devs (vs (m + 1)))"
    using assms(1) m by (auto simp: route_def)
  moreover have "qs (m + 1) = uint (return_path t ! (m + 1))"
    using assms(6) m q by (simp add: uint_word_of_int)
  ultimately have h: "handle (devs (vs (m + 1))) (ps (m + 2)) ?x = Some (IB_SMI_DISCARD, ?x, Some (qs (m + 1))) \<and>
      outgoing (devs (vs (m + 1))) (qs (m + 1)) ?x = Some (Inr False, hop_down ?x)"
    using assms(2-4) u c m n
    by (intro switch_back) (simp_all add: directed_update smp_ok_def IB_SMP_MAX_PATH_HOPS_def del: of_nat_add)
  have "link (vs (m + 1), qs (m + 1)) = Some (vs m, ps (m + 1))" using assms(1) m by (auto simp: route_def)
  moreover have "(of_nat (m + 2) :: u8) - 1 = of_nat (m + 1)" by simp
  ultimately show ?case using h IH by (simp add: smi_transmit_def m)
qed

text \<open>The way out: the node at the end of the route handles the request.\<close>

lemma request_out:
  assumes "route devs link n vs ps qs" and "directed s" "smp_ok s" "\<not> ib_get_smp_direction s"
    and "hop_ptr s = 0" "hop_cnt s = of_nat n" and "\<forall>i < n. uint (initial_path s ! (i + 1)) = ps (i + 1)"
  shows "\<exists>r st x. smi_transmit outgoing devs link (vs 0) (ps 1) s = Some st \<and>
    smi_forwards (n - 1) handle outgoing devs link st = Some (vs n, qs n, x) \<and>
    handle (devs (vs n)) (qs n) x = Some (IB_SMI_HANDLE, s\<lparr>hop_ptr := of_nat n + 1, return_path := r\<rparr>, None) \<and>
    length r = 64 \<and> (\<forall>i < n. r ! (i + 1) = word_of_int (qs (i + 1)))"
proof -
  have n: "0 < n" "n < 64" using assms(1) by (simp_all add: route_def IB_SMP_MAX_PATH_HOPS_def)
  have cnt: "unat (hop_cnt s) = n" using n assms(6) by simp
  have "outgoing (devs (vs 0)) (ps 1) s = Some (Inr False, s\<lparr>hop_ptr := 1\<rparr>)"
    using first_send [of s "devs (vs 0)"] assms(2-5) assms(7) n cnt by auto
  moreover have "link (vs 0, ps 1) = Some (vs 1, qs 1)" using assms(1) by (auto simp: route_def)
  ultimately have "smi_transmit outgoing devs link (vs 0) (ps 1) s = Some (vs 1, qs 1, s\<lparr>hop_ptr := 1\<rparr>)"
    by (simp add: smi_transmit_def)
  moreover obtain r where r: "smi_forwards (n - 1) handle outgoing devs link (vs 1, qs 1, s\<lparr>hop_ptr := 1\<rparr>) =
      Some (vs n, qs n, s\<lparr>hop_ptr := of_nat n, return_path := r\<rparr>)"
    "length r = 64" "\<forall>i < n - 1. r ! (i + 1) = word_of_int (qs (i + 1))"
    using out_state [OF assms(1-4) assms(6,7), of "n - 1"] n by auto
  moreover have "handle (devs (vs n)) (qs n) (s\<lparr>hop_ptr := of_nat n, return_path := r\<rparr>) =
      Some (IB_SMI_HANDLE, s\<lparr>hop_ptr := of_nat n + 1, return_path := r[n := word_of_int (qs n)]\<rparr>, None)"
    using deliver [of "s\<lparr>hop_ptr := of_nat n, return_path := r\<rparr>" "devs (vs n)" "qs n"] assms r(2) n
    by (simp add: directed_update smp_ok_def IB_SMP_MAX_PATH_HOPS_def route_def)
  moreover have "\<forall>i < n. r[n := word_of_int (qs n)] ! (i + 1) = word_of_int (qs (i + 1))"
    using r(2,3) n by (auto simp: nth_list_update less_Suc_eq)
  ultimately show ?thesis
    by (intro exI [of _ "r[n := word_of_int (qs n)]"]) auto
qed

text \<open>The way back: the response reaches the sender of the request.\<close>

lemma response_back:
  assumes "route devs link n vs ps qs" and "directed t" "smp_ok t" "ib_get_smp_direction t"
    and "hop_ptr t = of_nat n + 1" "hop_cnt t = of_nat n"
    and "\<forall>i < n. return_path t ! (i + 1) = word_of_int (qs (i + 1))"
  shows "\<exists>st. smi_transmit outgoing devs link (vs n) (qs n) t = Some st \<and>
    smi_forwards (n - 1) handle outgoing devs link st = Some (vs 0, ps 1, t\<lparr>hop_ptr := 1\<rparr>) \<and>
    handle (devs (vs 0)) (ps 1) (t\<lparr>hop_ptr := 1\<rparr>) = Some (IB_SMI_HANDLE, t\<lparr>hop_ptr := 0\<rparr>, None)"
proof -
  have n: "0 < n" "n < 64" using assms(1) by (simp_all add: route_def IB_SMP_MAX_PATH_HOPS_def)
  have l: "link (vs n, qs n) = Some (vs (n - 1), ps n)" "0 \<le> qs n" "qs n < 256"
    using assms(1) n by (auto simp: route_def dest: spec [of _ "n - 1"])
  have u: "unat (hop_ptr t) = n + 1" "unat (hop_cnt t) = n" using n by (simp_all add: assms(5,6))
  have "uint (return_path t ! n) = qs n"
    using l(2,3) spec [OF assms(7), of "n - 1"] n by (simp add: uint_word_of_int)
  then have "outgoing (devs (vs n)) (qs n) t = Some (Inr False, t\<lparr>hop_ptr := of_nat n\<rparr>)"
    using reply_send [OF assms(2-4), of "devs (vs n)"] u n by (simp add: assms(5))
  then have "smi_transmit outgoing devs link (vs n) (qs n) t = Some (vs (n - 1), ps n, t\<lparr>hop_ptr := of_nat n\<rparr>)"
    using l(1) by (simp add: smi_transmit_def)
  moreover have "smi_forwards (n - 1) handle outgoing devs link (vs (n - 1), ps n, t\<lparr>hop_ptr := of_nat n\<rparr>) =
      Some (vs 0, ps 1, t\<lparr>hop_ptr := 1\<rparr>)"
    using back_state [OF assms(1-4) assms(6,7), of "n - 1"] n by simp
  moreover have "handle (devs (vs 0)) (ps 1) (t\<lparr>hop_ptr := 1\<rparr>) = Some (IB_SMI_HANDLE, t\<lparr>hop_ptr := 0\<rparr>, None)"
    using arrive [of "t\<lparr>hop_ptr := 1\<rparr>" "devs (vs 0)" "ps 1"] assms(2-4) u n
    by (simp add: directed_update smp_ok_def)
  ultimately show ?thesis by simp
qed

lemma exchange:
  assumes "route devs link n vs ps qs" and "directed s" "smp_ok s" "\<not> ib_get_smp_direction s"
    and "hop_ptr s = 0" "hop_cnt s = of_nat n" and "\<forall>i < n. uint (initial_path s ! (i + 1)) = ps (i + 1)"
  shows "\<exists>s'. dr_exchange handle outgoing devs link status n (vs 0) (ps 1) s =
      Some (vs n, ps 1, vs 0, IB_SMI_HANDLE, s') \<and>
    hop_ptr s' = 0 \<and> hop_cnt s' = hop_cnt s \<and> initial_path s' = initial_path s \<and> ib_get_smp_direction s' \<and>
    (\<forall>i < n. return_path s' ! (i + 1) = word_of_int (qs (i + 1)))"
proof -
  obtain r st x where out: "smi_transmit outgoing devs link (vs 0) (ps 1) s = Some st"
      "smi_forwards (n - 1) handle outgoing devs link st = Some (vs n, qs n, x)"
      "handle (devs (vs n)) (qs n) x = Some (IB_SMI_HANDLE, s\<lparr>hop_ptr := of_nat n + 1, return_path := r\<rparr>, None)"
    and r: "length r = 64" "\<forall>i < n. r ! (i + 1) = word_of_int (qs (i + 1))"
    using request_out [OF assms] by auto
  let ?t = "dr_response status (s\<lparr>hop_ptr := of_nat n + 1, return_path := r\<rparr>)"
  have t: "directed ?t" "smp_ok ?t" "ib_get_smp_direction ?t" "hop_ptr ?t = of_nat n + 1" "hop_cnt ?t = of_nat n"
      "return_path ?t = r" "hop_cnt ?t = hop_cnt s" "initial_path ?t = initial_path s"
    using assms(2,3,6) r(1) by (simp_all add: dr_response_def directed_update smp_ok_def IB_SMP_MAX_PATH_HOPS_def)
  obtain st' where "smi_transmit outgoing devs link (vs n) (qs n) ?t = Some st'"
      "smi_forwards (n - 1) handle outgoing devs link st' = Some (vs 0, ps 1, ?t\<lparr>hop_ptr := 1\<rparr>)"
      "handle (devs (vs 0)) (ps 1) (?t\<lparr>hop_ptr := 1\<rparr>) = Some (IB_SMI_HANDLE, ?t\<lparr>hop_ptr := 0\<rparr>, None)"
    using response_back [OF assms(1) t(1-5)] r(2) t(6) by auto
  with out r(2) t(3,6-8) show ?thesis by (simp add: dr_exchange_def)
qed

end

text \<open>
  C30. A directed-route request over a route of switches and its response: the request reaches the
  node at the end of the route, the response of that node travels back through the ports the request
  came in by, and arrives at the sender through the port it left by, with the hop pointer back at 0.
  The response carries the out-ports of the request and, as its return path, the in-ports.
\<close>

theorem dr_smp_round_trip:
  assumes "route devs link n vs ps qs" and "smp_ok s" and "\<not> ib_get_smp_direction s"
    and "dr_slid s = IB_LID_PERMISSIVE" and "dr_dlid s = IB_LID_PERMISSIVE"
    and "hop_ptr s = 0" and "hop_cnt s = of_nat n" and "\<forall>i < n. uint (initial_path s ! (i + 1)) = ps (i + 1)"
  shows "\<exists>s'. dr_exchange handle_ib_smi outgoing_dr_smp devs link status n (vs 0) (ps 1) s =
      Some (vs n, ps 1, vs 0, IB_SMI_HANDLE, s') \<and>
    hop_ptr s' = 0 \<and> hop_cnt s' = hop_cnt s \<and> initial_path s' = initial_path s \<and> ib_get_smp_direction s' \<and>
    (\<forall>i < n. return_path s' ! (i + 1) = word_of_int (qs (i + 1)))"
  using ib.exchange [OF assms(1) _ assms(2,3) assms(6-8)] assms(4,5) by simp

definition sample_smp :: ib_smp where
  "sample_smp = \<lparr>smp_status = 0, hop_ptr = 0, hop_cnt = 2, initial_path = replicate 64 1, return_path = replicate 64 0,
     dr_slid = IB_LID_PERMISSIVE, dr_dlid = IB_LID_PERMISSIVE\<rparr>"

definition sample_links :: links where
  "sample_links = (\<lambda>(v, p). if (v, p) = (0, 1) then Some (1, 2) else if (v, p) = (1, 2) then Some (0, 1)
     else if (v, p) = (1, 1) then Some (2, 3) else if (v, p) = (2, 3) then Some (1, 1) else None)"

lemma sample_smp_ok: "smp_ok sample_smp" "\<not> ib_get_smp_direction sample_smp"
  by (simp_all add: sample_smp_def smp_ok_def ib_get_smp_direction_def IB_SMP_DIRECTION_def IB_SMP_MAX_PATH_HOPS_def)

theorem dr_smp_round_trip_witness:
  "\<exists>s'. dr_exchange handle_ib_smi outgoing_dr_smp (\<lambda>v. \<lparr>is_switch = v = 1, phys_port_cnt = 2, process_mad = True\<rparr>)
      sample_links 12 2 0 1 sample_smp = Some (2, 1, 0, IB_SMI_HANDLE, s') \<and>
    return_path s' ! 1 = 2 \<and> return_path s' ! 2 = 3"
proof -
  let ?devs = "\<lambda>v. \<lparr>is_switch = v = 1, phys_port_cnt = 2, process_mad = True\<rparr> :: smi_device"
  have "route ?devs sample_links 2 id (\<lambda>_. 1) (\<lambda>i. int i + 1)"
    by (auto simp: route_def sample_links_def IB_SMP_MAX_PATH_HOPS_def less_2_cases_iff)
  from dr_smp_round_trip [where status = 12, OF this sample_smp_ok]
  obtain s' where "dr_exchange handle_ib_smi outgoing_dr_smp ?devs sample_links 12 2 0 1 sample_smp =
      Some (2, 1, 0, IB_SMI_HANDLE, s')" and r: "\<forall>i < 2. return_path s' ! (i + 1) = word_of_int (int (i + 1) + 1)"
    by (auto simp: sample_smp_def)
  moreover have "return_path s' ! 1 = 2" "return_path s' ! 2 = 3" using spec [OF r, of 0] spec [OF r, of 1] by (simp_all add: numeral_2_eq_2)
  ultimately show ?thesis by blast
qed

text \<open>Handling and sending a packet with two full paths stays inside them, whatever the packet says.\<close>

lemma dr_smp_send_safe: "smp_ok s \<Longrightarrow> \<exists>act s'. dr_smp_send sw p dl sl s = Some (act, s') \<and> smp_ok s'"
  by (auto simp: dr_defs smp_ok_def Let_def not_le)

lemma dr_smp_recv_safe: "smp_ok s \<Longrightarrow> \<exists>act s'. dr_smp_recv sw p cnt dl sl s = Some (act, s') \<and> smp_ok s'"
  by (auto simp: dr_defs smp_ok_def Let_def not_le)

section \<open>Termination\<close>

text \<open>The hops a packet may still be forwarded.\<close>

definition hops_left :: "'a dr_smp_scheme \<Rightarrow> nat" where
  "hops_left smp = (if ib_get_smp_direction smp then unat (hop_ptr smp) - 1 else unat (hop_cnt smp) - unat (hop_ptr smp))"

lemma handle_ib_smi_forwards:
  assumes "handle_ib_smi dev q s = Some (act, s', Some p)"
  shows "dr_slid s' = dr_slid s \<and> dr_dlid s' = dr_dlid s \<and> ib_get_smp_direction s' = ib_get_smp_direction s \<and>
    hop_cnt s' = hop_cnt s \<and> unat (hop_cnt s) < 64 \<and> hops_left s' \<le> hops_left s \<and>
    (if ib_get_smp_direction s then 2 \<le> unat (hop_ptr s') \<and> unat (hop_ptr s') \<le> unat (hop_cnt s)
     else 0 < unat (hop_ptr s') \<and> unat (hop_ptr s') < unat (hop_cnt s))"
proof -
  obtain a s1 where r: "smi_handle_dr_smp_recv s (is_switch dev) q (phys_port_cnt dev) = Some (a, s1)" "a \<noteq> IB_SMI_DISCARD"
    and f: "smi_check_forward_dr_smp s1 = IB_SMI_FORWARD" "s' = s1"
    using assms by (auto simp: handle_ib_smi_def split: bind_splits if_splits smi_forward_action.splits smi_action.splits)
  show ?thesis using r f
    by (auto simp: smi_handle_dr_smp_recv_def dr_smp_recv_def smi_check_forward_dr_smp_def check_forward_dr_smp_def
        Let_def on_path_def record_port_def handle_if_def IB_SMP_MAX_PATH_HOPS_def hops_left_def split: if_splits bind_splits)
qed

lemma smi_forward_hops:
  assumes "smi_forward handle_ib_smi outgoing_dr_smp devs link (v, q, s) = Some (w, q', s')"
    and "dr_slid s = IB_LID_PERMISSIVE" "dr_dlid s = IB_LID_PERMISSIVE"
  shows "dr_slid s' = IB_LID_PERMISSIVE \<and> dr_dlid s' = IB_LID_PERMISSIVE \<and> hops_left s' \<le> 61 \<and> hops_left s' < hops_left s"
proof -
  obtain act s1 p where h: "handle_ib_smi (devs v) q s = Some (act, s1, Some p)"
    and o: "outgoing_dr_smp (devs v) p s1 = Some (Inr False, s')"
    using assms(1) by (auto simp: smi_transmit_def split: option.splits prod.splits sum.splits bool.splits)
  note f = handle_ib_smi_forwards [OF h]
  have "(if ib_get_smp_direction s then s' = hop_down s1 else s' = hop_up s1)"
    using o f assms(2,3)
    by (auto simp: outgoing_dr_smp_def smi_handle_dr_smp_send_def dr_smp_send_def on_path_def Let_def
        split: bind_splits if_splits)
  with f assms(2,3) show ?thesis by (auto simp: hops_left_def split: if_splits)
qed

lemma smi_forwards_hops:
  assumes "dr_slid s = IB_LID_PERMISSIVE" "dr_dlid s = IB_LID_PERMISSIVE"
    and "smi_forwards k handle_ib_smi outgoing_dr_smp devs link (v, q, s) = Some (w, q', s')"
  shows "dr_slid s' = IB_LID_PERMISSIVE \<and> dr_dlid s' = IB_LID_PERMISSIVE \<and> (0 < k \<longrightarrow> hops_left s' + k \<le> 62)"
  using assms(3)
proof (induction k arbitrary: w q' s')
  case 0
  then show ?case using assms(1,2) by simp
next
  case (Suc k)
  then obtain w1 q1 s1 where f: "smi_forwards k handle_ib_smi outgoing_dr_smp devs link (v, q, s) = Some (w1, q1, s1)"
    "smi_forward handle_ib_smi outgoing_dr_smp devs link (w1, q1, s1) = Some (w, q', s')"
    by (auto simp del: smi_forward.simps split: bind_splits)
  note IH = Suc.IH [OF f(1)]
  note step = smi_forward_hops [OF f(2)]
  show ?case
  proof (cases k)
    case 0
    then show ?thesis using step IH by auto
  next
    case (Suc j)
    then show ?thesis using step IH by auto
  qed
qed

text \<open>
  C39. Forwarding ends: whatever the fabric, even with loops, and whatever the packet claims about its
  path, switches forward a packet that is directed-routed all the way at most 62 times.
\<close>

theorem dr_smp_forwarding_ends:
  assumes "dr_slid s = IB_LID_PERMISSIVE" and "dr_dlid s = IB_LID_PERMISSIVE"
  shows "smi_forwards 63 handle_ib_smi outgoing_dr_smp devs link (v, q, s) = None"
proof (rule ccontr)
  assume "smi_forwards 63 handle_ib_smi outgoing_dr_smp devs link (v, q, s) \<noteq> None"
  then obtain w q' s' where "smi_forwards 63 handle_ib_smi outgoing_dr_smp devs link (v, q, s) = Some (w, q', s')"
    by (cases "smi_forwards 63 handle_ib_smi outgoing_dr_smp devs link (v, q, s)") auto
  from smi_forwards_hops [OF assms this] show False by simp
qed

theorem dr_smp_forwarding_ends_witness:
  "smi_forwards 63 handle_ib_smi outgoing_dr_smp (\<lambda>_. \<lparr>is_switch = True, phys_port_cnt = 2, process_mad = True\<rparr>)
     Some (0, 1, sample_smp\<lparr>hop_ptr := 1, hop_cnt := 63\<rparr>) = None"
  by (rule dr_smp_forwarding_ends) (simp_all add: sample_smp_def)

text \<open>
  A request whose route begins with a LID-routed part is not advanced: on a switch in the middle of
  the directed part the outgoing check skips the hop pointer, because \<^verbatim>\<open>dr_slid\<close> is a LID.  Switches
  whose next port on the path leads to another such switch forward the packet for ever.
\<close>

theorem dr_smp_forwarding_endless:
  assumes "smp_ok s" and "\<not> ib_get_smp_direction s" and "dr_slid s \<noteq> IB_LID_PERMISSIVE"
    and "0 < unat (hop_ptr s)" and "unat (hop_ptr s) < unat (hop_cnt s)" and "unat (hop_cnt s) < 64"
    and "p = uint (initial_path s ! (unat (hop_ptr s) + 1))"
    and "\<forall>v. is_switch (devs v) \<and> p \<le> phys_port_cnt (devs v) \<and> link (v, p) \<noteq> None"
  shows "\<exists>w q' s'. smi_forwards k handle_ib_smi outgoing_dr_smp devs link (v, q, s) = Some (w, q', s') \<and>
    hop_ptr s' = hop_ptr s"
proof -
  have step: "\<exists>w q' r'. smi_forward handle_ib_smi outgoing_dr_smp devs link (v, q, s\<lparr>return_path := r\<rparr>) =
      Some (w, q', s\<lparr>return_path := r'\<rparr>) \<and> length r' = 64" if r: "length r = 64" for v q r
  proof -
    let ?x = "s\<lparr>return_path := r[unat (hop_ptr s) := word_of_int q]\<rparr>"
    have "handle_ib_smi (devs v) q (s\<lparr>return_path := r\<rparr>) = Some (IB_SMI_DISCARD, ?x, Some p)"
      using assms r by (simp add: smi_eval Let_def)
    moreover have "outgoing_dr_smp (devs v) p ?x = Some (Inr False, ?x)"
      using assms by (simp add: outgoing_dr_smp_def goes_local_def smi_defs handle_if_def)
    moreover obtain w q' where "link (v, p) = Some (w, q')" using assms(8) by fastforce
    ultimately show ?thesis using r by (auto simp: smi_transmit_def)
  qed
  have "\<exists>w q' r'. smi_forwards k handle_ib_smi outgoing_dr_smp devs link (v, q, s) =
      Some (w, q', s\<lparr>return_path := r'\<rparr>) \<and> length r' = 64"
  proof (induction k)
    case 0
    show ?case using assms(1) by (auto simp: smp_ok_def IB_SMP_MAX_PATH_HOPS_def intro!: exI [of _ "return_path s"])
  next
    case (Suc k)
    then show ?case using step by (auto simp del: smi_forward.simps)
  qed
  then show ?thesis by auto
qed

theorem dr_smp_forwarding_endless_witness:
  "\<exists>w q' s'. smi_forwards 1000 handle_ib_smi outgoing_dr_smp (\<lambda>_. \<lparr>is_switch = True, phys_port_cnt = 2, process_mad = True\<rparr>)
     Some (0, 1, sample_smp\<lparr>hop_ptr := 1, dr_slid := 7\<rparr>) = Some (w, q', s') \<and> hop_ptr s' = 1"
  using dr_smp_forwarding_endless [of "sample_smp\<lparr>hop_ptr := 1, dr_slid := 7\<rparr>" 1
      "\<lambda>_. \<lparr>is_switch = True, phys_port_cnt = 2, process_mad = True\<rparr>" Some 1000 0 1]
  by (simp add: sample_smp_def smp_ok_def ib_get_smp_direction_def IB_SMP_DIRECTION_def IB_SMP_MAX_PATH_HOPS_def
      IB_LID_PERMISSIVE_def del: smi_forwards.simps)

end
