(* ===== verification/Mlx5Wq.thy ===== *)
theory Mlx5Wq
  imports Mlx5Srq
begin

text \<open>
  The work queues of an mlx5 queue pair, \<^verbatim>\<open>struct mlx5_ib_wq\<close>: what posting receive and send requests
  (\<^verbatim>\<open>drivers/infiniband/hw/mlx5/qp.c\<close>) and taking completions (\<^verbatim>\<open>cq.c\<close>) do to the ring indices, the request
  identifiers and the links between send descriptors.  The receive queue refines a queue of request
  identifiers; the send queue a queue of descriptors of different lengths, in which a completion stands
  for all earlier descriptors.  The contents of send descriptors are a parameter: building one yields
  its length or an error.  Accesses outside an array, and a search that does not end, are \<^const>\<open>None\<close>.
\<close>

unbundle bit_operations_syntax

section \<open>State\<close>

record wr_list =
  wl_opcode :: u16
  wl_next :: u16

record mlx5_wq =
  wq_wrid :: "u64 list"
  wr_data :: "u32 list"
  w_list :: "wr_list list"
  wqe_head :: "u32 list"
  wq_cnt :: u32
  wq_max_post :: u32
  wq_max_gs :: nat
  wq_head :: u32
  wq_tail :: u32
  cur_post :: u16
  last_poll :: u16
  rq_bufs :: "mlx5_wqe_data_seg list list"
  wq_db :: u32

definition nth_opt :: "'a list \<Rightarrow> nat \<Rightarrow> 'a option" where
  "nth_opt xs i = (if i < length xs then Some (xs ! i) else None)"

definition upd_opt :: "'a list \<Rightarrow> nat \<Rightarrow> 'a \<Rightarrow> 'a list option" where
  "upd_opt xs i x = (if i < length xs then Some (xs[i := x]) else None)"

definition wq_index :: "mlx5_wq \<Rightarrow> u32 \<Rightarrow> nat" where
  "wq_index wq n = unat (n AND (wq_cnt wq - 1))"

definition mlx5_wq_overflow :: "mlx5_wq \<Rightarrow> u32 \<Rightarrow> bool" where
  "mlx5_wq_overflow wq nreq \<longleftrightarrow> \<not> (wq_head wq - wq_tail wq) + nreq < wq_max_post wq"

section \<open>The receive queue\<close>

text \<open>Queue pairs without work-request signatures; the index is that of the first free entry.\<close>

fun post_recv_loop :: "mlx5_wq \<Rightarrow> u32 \<Rightarrow> u32 \<Rightarrow> ib_recv_wr list \<Rightarrow> (int \<times> ib_recv_wr list \<times> u32 \<times> mlx5_wq) option" where
  "post_recv_loop wq ind nreq [] = Some (0, [], nreq, wq)"
| "post_recv_loop wq ind nreq (wr # wrs) =
     (if mlx5_wq_overflow wq nreq then Some (- ENOMEM, wr # wrs, nreq, wq)
      else if length (sg_list wr) > wq_max_gs wq then Some (- EINVAL, wr # wrs, nreq, wq)
      else do {
        buf \<leftarrow> nth_opt (rq_bufs wq) (unat ind);
        buf \<leftarrow> fill_scat (wq_max_gs wq) (sg_list wr) buf;
        bufs \<leftarrow> upd_opt (rq_bufs wq) (unat ind) buf;
        ids \<leftarrow> upd_opt (wq_wrid wq) (unat ind) (recv_wr_id wr);
        post_recv_loop (wq\<lparr>rq_bufs := bufs, wq_wrid := ids\<rparr>) ((ind + 1) AND (wq_cnt wq - 1)) (nreq + 1) wrs
      })"

definition mlx5_ib_post_recv :: "bool \<Rightarrow> bool \<Rightarrow> mlx5_wq \<Rightarrow> ib_recv_wr list \<Rightarrow> (int \<times> ib_recv_wr list \<times> mlx5_wq) option" where
  "mlx5_ib_post_recv internal_error drain wq wrs =
     (if internal_error \<and> \<not> drain then Some (- EIO, wrs, wq)
      else do {
        (err, bad_wr, nreq, wq) \<leftarrow> post_recv_loop wq (wq_head wq AND (wq_cnt wq - 1)) 0 wrs;
        Some (err, bad_wr, if nreq \<noteq> 0
          then wq\<lparr>wq_head := wq_head wq + nreq, wq_db := (wq_head wq + nreq) AND 0xffff\<rparr> else wq)
      })"

text \<open>A receive completion without a shared receive queue.\<close>

definition recv_complete :: "mlx5_wq \<Rightarrow> (u64 \<times> mlx5_wq) option" where
  "recv_complete wq = do {
     wr_id \<leftarrow> nth_opt (wq_wrid wq) (wq_index wq (wq_tail wq));
     Some (wr_id, wq\<lparr>wq_tail := wq_tail wq + 1\<rparr>)
   }"

section \<open>The send queue\<close>

definition WQE_BB :: nat where "WQE_BB = 64"

definition begin_wqe :: "mlx5_wq \<Rightarrow> u32 \<Rightarrow> int + nat" where
  "begin_wqe wq nreq = (if mlx5_wq_overflow wq nreq then Inl (- ENOMEM) else Inr (wq_index wq (ucast (cur_post wq))))"

definition wqe_blocks :: "u8 \<Rightarrow> nat" where
  "wqe_blocks sz = (unat sz * 16 + WQE_BB - 1) div WQE_BB"

definition finish_wqe :: "mlx5_wq \<Rightarrow> nat \<Rightarrow> u64 \<Rightarrow> u32 \<Rightarrow> u8 \<Rightarrow> u32 \<Rightarrow> mlx5_wq option" where
  "finish_wqe wq idx wr_id nreq sz opcode = do {
     let cur = cur_post wq + of_nat (wqe_blocks sz);
     ids \<leftarrow> upd_opt (wq_wrid wq) idx wr_id;
     heads \<leftarrow> upd_opt (wqe_head wq) idx (wq_head wq + nreq);
     links \<leftarrow> upd_opt (w_list wq) idx \<lparr>wl_opcode = ucast opcode, wl_next = cur\<rparr>;
     Some (wq\<lparr>wq_wrid := ids, wqe_head := heads, w_list := links, cur_post := cur\<rparr>)
   }"

text \<open>
  A send request: its identifier, the result of the checks on operation and scatter count (0 or the
  error), the entry for \<^verbatim>\<open>wr_data\<close>, and for each of its descriptors the error of building it or its length
  in 16-byte units and operation code.
\<close>

record send_req =
  req_wr_id :: u64
  req_check :: int
  req_data :: u32
  req_wqes :: "(int + u8 \<times> u32) list"

fun post_wqes :: "mlx5_wq \<Rightarrow> u32 \<Rightarrow> u64 \<Rightarrow> u32 option \<Rightarrow> (int + u8 \<times> u32) list \<Rightarrow> (int \<times> mlx5_wq) option" where
  "post_wqes wq nreq wr_id data [] = Some (0, wq)"
| "post_wqes wq nreq wr_id data (w # ws) =
     (case begin_wqe wq nreq of
        Inl err \<Rightarrow> Some (err, wq)
      | Inr idx \<Rightarrow> do {
          ds \<leftarrow> (case data of None \<Rightarrow> Some (wr_data wq) | Some d \<Rightarrow> upd_opt (wr_data wq) idx d);
          let wq = wq\<lparr>wr_data := ds\<rparr>;
          (case w of
             Inl err \<Rightarrow> Some (err, wq)
           | Inr (sz, opcode) \<Rightarrow> do {
               wq \<leftarrow> finish_wqe wq idx wr_id nreq sz opcode;
               post_wqes wq nreq wr_id None ws
             })
        })"

fun post_send_loop :: "mlx5_wq \<Rightarrow> u32 \<Rightarrow> send_req list \<Rightarrow> (int \<times> send_req list \<times> u32 \<times> mlx5_wq) option" where
  "post_send_loop wq nreq [] = Some (0, [], nreq, wq)"
| "post_send_loop wq nreq (r # rs) =
     (if req_check r \<noteq> 0 then Some (req_check r, r # rs, nreq, wq)
      else do {
        (err, wq) \<leftarrow> post_wqes wq nreq (req_wr_id r) (Some (req_data r)) (req_wqes r);
        if err \<noteq> 0 then Some (err, r # rs, nreq, wq) else post_send_loop wq (nreq + 1) rs
      })"

definition mlx5_ib_post_send :: "bool \<Rightarrow> bool \<Rightarrow> mlx5_wq \<Rightarrow> send_req list \<Rightarrow> (int \<times> send_req list \<times> mlx5_wq) option" where
  "mlx5_ib_post_send internal_error drain wq rs =
     (if internal_error \<and> \<not> drain then Some (- EIO, rs, wq)
      else do {
        (err, bad_wr, nreq, wq) \<leftarrow> post_send_loop wq 0 rs;
        Some (err, bad_wr, if nreq \<noteq> 0
          then wq\<lparr>wq_head := wq_head wq + nreq, wq_db := ucast (cur_post wq)\<rparr> else wq)
      })"

section \<open>Completions of the send queue\<close>

definition w_next :: "mlx5_wq \<Rightarrow> nat \<Rightarrow> u16 option" where
  "w_next wq idx = map_option wl_next (nth_opt (w_list wq) idx)"

text \<open>The search of \<^verbatim>\<open>handle_atomics\<close> follows the links until it meets the completed descriptor.\<close>

partial_function (option) atomics_find :: "mlx5_wq \<Rightarrow> u16 \<Rightarrow> nat \<Rightarrow> nat option" where
  "atomics_find wq tail at =
     (let idx = wq_index wq (ucast tail) in
      if idx = at then Some idx else Option.bind (w_next wq idx) (\<lambda>t. atomics_find wq t at))"

definition handle_atomics :: "mlx5_wq \<Rightarrow> u16 \<Rightarrow> nat \<Rightarrow> mlx5_wq option" where
  "handle_atomics wq tail at = do {
     idx \<leftarrow> atomics_find wq tail at;
     n \<leftarrow> w_next wq idx;
     Some (wq\<lparr>last_poll := n\<rparr>)
   }"

text \<open>What a successful, and what a failed, request completion does to the send queue.\<close>

definition send_complete :: "mlx5_wq \<Rightarrow> u16 \<Rightarrow> (u64 \<times> mlx5_wq) option" where
  "send_complete wq ctr = do {
     let idx = wq_index wq (ucast ctr);
     wq \<leftarrow> handle_atomics wq (last_poll wq) idx;
     wr_id \<leftarrow> nth_opt (wq_wrid wq) idx;
     h \<leftarrow> nth_opt (wqe_head wq) idx;
     Some (wr_id, wq\<lparr>wq_tail := h + 1\<rparr>)
   }"

definition send_error :: "mlx5_wq \<Rightarrow> u16 \<Rightarrow> (u64 \<times> mlx5_wq) option" where
  "send_error wq ctr = do {
     let idx = wq_index wq (ucast ctr);
     wr_id \<leftarrow> nth_opt (wq_wrid wq) idx;
     h \<leftarrow> nth_opt (wqe_head wq) idx;
     Some (wr_id, wq\<lparr>wq_tail := h + 1\<rparr>)
   }"

text \<open>
  The flushing of a queue after a fatal device error: one step, and the loop of \<^verbatim>\<open>sw_comp\<close>, which reports at
  most \<open>room\<close> of the requests between tail and head.
\<close>

definition flush_one :: "bool \<Rightarrow> mlx5_wq \<Rightarrow> (u64 \<times> mlx5_wq) option" where
  "flush_one is_send wq = do {
     let idx = wq_index wq (if is_send then ucast (last_poll wq) else wq_tail wq);
     wr_id \<leftarrow> nth_opt (wq_wrid wq) idx;
     n \<leftarrow> (if is_send then w_next wq idx else Some (last_poll wq));
     Some (wr_id, wq\<lparr>wq_tail := wq_tail wq + 1, last_poll := n\<rparr>)
   }"

primrec take_steps :: "nat \<Rightarrow> ('s \<Rightarrow> ('a \<times> 's) option) \<Rightarrow> 's \<Rightarrow> ('a list \<times> 's) option" where
  "take_steps 0 f s = Some ([], s)"
| "take_steps (Suc n) f s = do { (x, s) \<leftarrow> f s; (xs, s) \<leftarrow> take_steps n f s; Some (x # xs, s) }"

definition sw_comp :: "bool \<Rightarrow> nat \<Rightarrow> mlx5_wq \<Rightarrow> (u64 list \<times> mlx5_wq) option" where
  "sw_comp is_send room wq = take_steps (min (unat (wq_head wq - wq_tail wq)) room) (flush_one is_send) wq"

section \<open>Queues of completions\<close>

text \<open>
  What the flushing loop relies on: a state that holds a queue of results, and a step that hands out the
  first of them.
\<close>

locale completion_queue =
  fixes holds :: "'s \<Rightarrow> 'a list \<Rightarrow> bool"
    and step :: "'s \<Rightarrow> ('a \<times> 's) option"
  assumes step_first: "holds s (x # q) \<Longrightarrow> \<exists>s'. step s = Some (x, s') \<and> holds s' q"
begin

lemma take_steps_takes:
  assumes "holds s q" "n \<le> length q"
  shows "\<exists>s'. take_steps n step s = Some (take n q, s') \<and> holds s' (drop n q)"
  using assms
proof (induction n arbitrary: s q)
  case 0
  then show ?case by simp
next
  case (Suc n)
  then obtain x q' where q: "q = x # q'" by (cases q) auto
  with step_first Suc.prems(1) obtain s' where "step s = Some (x, s')" "holds s' q'" by blast
  with Suc q show ?case by fastforce
qed

end

section \<open>The receive queue as a queue of identifiers\<close>

definition rq_shape :: "nat \<Rightarrow> mlx5_wq \<Rightarrow> bool" where
  "rq_shape k wq \<longleftrightarrow> k \<le> 30 \<and> wq_cnt wq = 2 ^ k \<and> length (wq_wrid wq) = 2 ^ k \<and> length (rq_bufs wq) = 2 ^ k \<and>
     (\<forall>b \<in> set (rq_bufs wq). length b = wq_max_gs wq) \<and> unat (wq_max_post wq) \<le> 2 ^ k"

text \<open>The queue holds \<open>q\<close>, the last \<open>nreq\<close> of it not yet counted in the head index.\<close>

definition rq_rep :: "nat \<Rightarrow> mlx5_wq \<Rightarrow> u32 \<Rightarrow> u64 list \<Rightarrow> bool" where
  "rq_rep k wq nreq q \<longleftrightarrow> rq_shape k wq \<and> length q \<le> unat (wq_max_post wq) \<and>
     wq_head wq + nreq = wq_tail wq + of_nat (length q) \<and>
     (\<forall>i < length q. wq_wrid wq ! ((unat (wq_tail wq) + i) mod 2 ^ k) = q ! i)"

definition rq_holds :: "mlx5_wq \<Rightarrow> u64 list \<Rightarrow> bool" where
  "rq_holds wq q \<longleftrightarrow> (\<exists>k. rq_rep k wq 0 q)"

lemma wq_index_pow2:
  assumes "wq_cnt wq = 2 ^ k" "k \<le> 30"
  shows "wq_index wq (c + of_nat i) = (unat c + i) mod 2 ^ k"
  using ring_index [OF assms(2)] assms(1) by (simp add: wq_index_def mask_eq_exp_minus_1)

lemma rq_small:
  assumes "rq_rep k wq nreq q"
  shows "length q \<le> 2 ^ k" "length q < 2 ^ 32"
proof -
  show "length q \<le> 2 ^ k" using assms by (auto simp: rq_rep_def rq_shape_def)
  also have "(2 :: nat) ^ k \<le> 2 ^ 30" using assms by (intro power_increasing) (auto simp: rq_rep_def rq_shape_def)
  finally show "length q < 2 ^ 32" by simp
qed

lemma rq_overflow:
  assumes "rq_rep k wq nreq q"
  shows "mlx5_wq_overflow wq nreq \<longleftrightarrow> length q = unat (wq_max_post wq)"
proof -
  have "wq_head wq - wq_tail wq + nreq = of_nat (length q)"
    using assms by (simp add: rq_rep_def algebra_simps)
  moreover have "unat (of_nat (length q) :: u32) = length q" using rq_small(2) [OF assms] by (simp add: unat_of_nat)
  ultimately show ?thesis using assms by (auto simp: mlx5_wq_overflow_def word_less_nat_alt rq_rep_def)
qed

lemma and_mask_Suc:
  assumes "k \<le> 30"
  shows "((x AND mask k) + 1) AND mask k = (x + 1 :: u32) AND mask k"
  using ring_index [OF assms, of "x AND mask k" 1] ring_index [OF assms, of x 1] ring_index [OF assms, of x 0]
  by (simp add: word_unat_eq_iff mod_simps)

lemma fill_scat_full:
  "length sges \<le> length old \<Longrightarrow> \<exists>s. fill_scat (length old) sges old = Some s \<and> length s = length old"
  by (auto simp: fill_scat_def Let_def)

lemma rq_post_one:
  assumes "rq_rep k wq nreq q" "length q < unat (wq_max_post wq)" "length (sg_list wr) \<le> wq_max_gs wq"
    and "ind = (wq_head wq + nreq) AND (wq_cnt wq - 1)"
  shows "\<exists>wq'. post_recv_loop wq ind nreq (wr # wrs) =
      post_recv_loop wq' ((wq_head wq' + (nreq + 1)) AND (wq_cnt wq' - 1)) (nreq + 1) wrs \<and>
    rq_rep k wq' (nreq + 1) (q @ [recv_wr_id wr]) \<and> wq_max_post wq' = wq_max_post wq \<and> wq_max_gs wq' = wq_max_gs wq"
proof -
  have sh: "rq_shape k wq" using assms(1) by (simp add: rq_rep_def)
  have pos: "wq_head wq + nreq = wq_tail wq + of_nat (length q)" using assms(1) by (simp add: rq_rep_def)
  let ?i = "(unat (wq_tail wq) + length q) mod 2 ^ k"
  have i: "unat ind = ?i" using wq_index_pow2 [of wq k "wq_tail wq" "length q"] sh pos assms(4)
    by (simp add: rq_shape_def wq_index_def)
  have lt: "?i < 2 ^ k" by simp
  have "rq_bufs wq ! ?i \<in> set (rq_bufs wq)" using sh lt by (simp add: rq_shape_def)
  then have bl: "length (rq_bufs wq ! ?i) = wq_max_gs wq" using sh by (simp add: rq_shape_def)
  obtain s where s: "fill_scat (wq_max_gs wq) (sg_list wr) (rq_bufs wq ! ?i) = Some s" "length s = wq_max_gs wq"
    using fill_scat_full [of "sg_list wr" "rq_bufs wq ! ?i"] assms(3) bl by auto
  let ?wq = "wq\<lparr>rq_bufs := (rq_bufs wq)[?i := s], wq_wrid := (wq_wrid wq)[?i := recv_wr_id wr]\<rparr>"
  have nov: "\<not> mlx5_wq_overflow wq nreq" using rq_overflow [OF assms(1)] assms(2) by simp
  have mask: "wq_cnt wq - 1 = mask k" using sh by (simp add: rq_shape_def mask_eq_exp_minus_1)
  have next_ind: "(ind + 1) AND (wq_cnt wq - 1) = (wq_head wq + (nreq + 1)) AND (wq_cnt wq - 1)"
    unfolding assms(4) mask using sh by (simp add: and_mask_Suc rq_shape_def add.assoc)
  have "post_recv_loop wq ind nreq (wr # wrs) =
      post_recv_loop ?wq ((wq_head ?wq + (nreq + 1)) AND (wq_cnt ?wq - 1)) (nreq + 1) wrs"
    using nov assms(3) i s lt sh next_ind by (simp add: nth_opt_def upd_opt_def rq_shape_def)
  moreover have "rq_rep k ?wq (nreq + 1) (q @ [recv_wr_id wr])"
  proof -
    have "rq_shape k ?wq" using sh s(2) by (auto simp: rq_shape_def dest: set_update_subset_insert [THEN subsetD])
    moreover have "wq_wrid ?wq ! ((unat (wq_tail wq) + j) mod 2 ^ k) = (q @ [recv_wr_id wr]) ! j" if "j \<le> length q" for j
    proof (cases "j = length q")
      case True
      then show ?thesis using sh lt by (simp add: rq_shape_def)
    next
      case False
      then have "(unat (wq_tail wq) + j) mod 2 ^ k \<noteq> ?i"
        using that mod_add_inj [of _ j _ "length q"] assms(2) rq_small(1) [OF assms(1)] sh by (fastforce simp: rq_shape_def)
      then show ?thesis using False that assms(1) by (simp add: rq_rep_def nth_append)
    qed
    ultimately show ?thesis using assms(1,2) by (simp add: rq_rep_def algebra_simps less_Suc_eq_le)
  qed
  ultimately show ?thesis by (intro exI [of _ ?wq]) simp
qed

lemma rq_post_loop:
  assumes "rq_rep k wq nreq q" and "\<forall>wr \<in> set wrs. length (sg_list wr) \<le> wq_max_gs wq"
  defines "m \<equiv> min (length wrs) (unat (wq_max_post wq) - length q)"
  shows "\<exists>wq'. post_recv_loop wq ((wq_head wq + nreq) AND (wq_cnt wq - 1)) nreq wrs =
      Some (if length q + length wrs \<le> unat (wq_max_post wq) then 0 else - ENOMEM, drop m wrs, nreq + of_nat m, wq') \<and>
    rq_rep k wq' (nreq + of_nat m) (q @ map recv_wr_id (take m wrs))"
  unfolding m_def using assms(1,2)
proof (induction wrs arbitrary: wq nreq q)
  case Nil
  then show ?case by (simp add: rq_rep_def)
next
  case (Cons wr wrs)
  show ?case
  proof (cases "length q = unat (wq_max_post wq)")
    case True
    then show ?thesis using Cons.prems(1) rq_overflow [OF Cons.prems(1)] by simp
  next
    case False
    then have lt: "length q < unat (wq_max_post wq)" using Cons.prems(1) by (simp add: rq_rep_def)
    obtain wq' where w: "post_recv_loop wq ((wq_head wq + nreq) AND (wq_cnt wq - 1)) nreq (wr # wrs) =
        post_recv_loop wq' ((wq_head wq' + (nreq + 1)) AND (wq_cnt wq' - 1)) (nreq + 1) wrs"
      "rq_rep k wq' (nreq + 1) (q @ [recv_wr_id wr])" "wq_max_post wq' = wq_max_post wq" "wq_max_gs wq' = wq_max_gs wq"
      using rq_post_one [OF Cons.prems(1) lt, of wr _ wrs] Cons.prems(2) by (auto simp del: post_recv_loop.simps)
    let ?m = "min (length wrs) (unat (wq_max_post wq) - length (q @ [recv_wr_id wr]))"
    have m: "min (length (wr # wrs)) (unat (wq_max_post wq) - length q) = Suc ?m" using lt by auto
    from Cons.IH [OF w(2)] Cons.prems(2) w(3,4) show ?thesis
      unfolding m w(1) by (simp add: algebra_simps)
  qed
qed

lemma post_recv_rep:
  assumes "rq_rep k wq 0 q" and "\<forall>wr \<in> set wrs. length (sg_list wr) \<le> wq_max_gs wq"
    and "m = min (length wrs) (unat (wq_max_post wq) - length q)"
  shows "\<exists>wq'. mlx5_ib_post_recv False drain wq wrs =
      Some (if length q + length wrs \<le> unat (wq_max_post wq) then 0 else - ENOMEM, drop m wrs, wq') \<and>
    rq_rep k wq' 0 (q @ map recv_wr_id (take m wrs)) \<and> (m \<noteq> 0 \<longrightarrow> wq_db wq' = wq_head wq' AND 0xffff)"
proof -
  have "unat (wq_max_post wq) < 2 ^ 32" using unsigned_less [of "wq_max_post wq"] by simp
  then have "m < 2 ^ 32" using assms(3) by simp
  then have m: "(of_nat m :: u32) = 0 \<longleftrightarrow> m = 0" by (simp add: word_unat_eq_iff unat_of_nat)
  obtain wq' where "post_recv_loop wq (wq_head wq AND (wq_cnt wq - 1)) 0 wrs =
      Some (if length q + length wrs \<le> unat (wq_max_post wq) then 0 else - ENOMEM, drop m wrs, of_nat m, wq')"
    and r: "rq_rep k wq' (of_nat m) (q @ map recv_wr_id (take m wrs))"
    using rq_post_loop [OF assms(1,2)] unfolding assms(3) by auto
  then show ?thesis using m by (auto simp: mlx5_ib_post_recv_def rq_rep_def rq_shape_def)
qed

lemma rq_rep_pop:
  assumes "rq_rep k wq 0 (x # q)"
  shows "nth_opt (wq_wrid wq) (wq_index wq (wq_tail wq)) = Some x \<and> rq_rep k (wq\<lparr>wq_tail := wq_tail wq + 1\<rparr>) 0 q"
proof -
  have sh: "rq_shape k wq" using assms by (simp add: rq_rep_def)
  have "wq_index wq (wq_tail wq) = unat (wq_tail wq) mod 2 ^ k"
    using wq_index_pow2 [of wq k "wq_tail wq" 0] sh by (simp add: rq_shape_def)
  then have "nth_opt (wq_wrid wq) (wq_index wq (wq_tail wq)) = Some x"
    using assms sh by (auto simp: nth_opt_def rq_rep_def rq_shape_def dest: spec [of _ 0])
  moreover have "(unat (wq_tail wq + 1) + i) mod 2 ^ k = (unat (wq_tail wq) + Suc i) mod 2 ^ k" for i
    using sh ring_index [of k "wq_tail wq + 1" i] ring_index [of k "wq_tail wq" "Suc i"]
    by (simp add: rq_shape_def add.assoc)
  ultimately show ?thesis using assms by (auto simp: rq_rep_def rq_shape_def algebra_simps)
qed

interpretation rq: completion_queue rq_holds recv_complete
  by unfold_locales (auto simp: rq_holds_def recv_complete_def dest!: rq_rep_pop)

interpretation rq_flush: completion_queue rq_holds "flush_one False"
proof unfold_locales
  fix s x q
  assume "rq_holds s (x # q)"
  then obtain k where k: "rq_rep k s 0 (x # q)" by (auto simp: rq_holds_def)
  have "rq_rep k (s\<lparr>wq_tail := wq_tail s + 1, last_poll := last_poll s\<rparr>) 0 q"
    using rq_rep_pop [OF k] by (simp add: rq_rep_def rq_shape_def)
  with rq_rep_pop [OF k] show "\<exists>s'. flush_one False s = Some (x, s') \<and> rq_holds s' q"
    by (auto simp: flush_one_def rq_holds_def)
qed

lemma rq_count: "rq_rep k wq 0 q \<Longrightarrow> unat (wq_head wq - wq_tail wq) = length q"
  using rq_small(2) [of k wq 0 q] by (simp add: rq_rep_def unat_of_nat)

text \<open>
  C32. The receive queue is a queue.  Posting requests appends their identifiers to those waiting, as many
  as there is room for, and hands the others back with \<^verbatim>\<open>-ENOMEM\<close>; completions then report the identifiers in
  the order they were posted, each exactly once, and so does the flush after a fatal device error.  This
  holds at every position of the free-running 32-bit indices, wrapped or not.
\<close>

theorem recv_fifo:
  assumes "rq_rep k wq 0 q" and "\<forall>wr \<in> set wrs. length (sg_list wr) \<le> wq_max_gs wq"
    and "m = min (length wrs) (unat (wq_max_post wq) - length q)"
  shows "\<exists>wq'. mlx5_ib_post_recv False drain wq wrs =
      Some (if length q + length wrs \<le> unat (wq_max_post wq) then 0 else - ENOMEM, drop m wrs, wq') \<and>
    rq_rep k wq' 0 (q @ map recv_wr_id (take m wrs)) \<and>
    (\<forall>n \<le> length q + m. \<exists>s. take_steps n recv_complete wq' = Some (take n (q @ map recv_wr_id (take m wrs)), s)) \<and>
    (\<exists>s. sw_comp False (length q + m) wq' = Some (q @ map recv_wr_id (take m wrs), s))"
proof -
  obtain wq' where p: "mlx5_ib_post_recv False drain wq wrs =
      Some (if length q + length wrs \<le> unat (wq_max_post wq) then 0 else - ENOMEM, drop m wrs, wq')"
    and r: "rq_rep k wq' 0 (q @ map recv_wr_id (take m wrs))"
    using post_recv_rep [OF assms] by blast
  let ?q = "q @ map recv_wr_id (take m wrs)"
  have h: "rq_holds wq' ?q" using r by (auto simp: rq_holds_def)
  have l: "length ?q = length q + m" using assms(3) by simp
  have "\<exists>s. take_steps n recv_complete wq' = Some (take n ?q, s)" if "n \<le> length q + m" for n
    using rq.take_steps_takes [OF h, of n] that l by auto
  moreover have "\<exists>s. sw_comp False (length q + m) wq' = Some (?q, s)"
    using rq_flush.take_steps_takes [OF h, of "length q + m"] l rq_count [OF r] assms(3)
    by (auto simp: sw_comp_def)
  ultimately show ?thesis using p r by blast
qed

definition sample_rq :: mlx5_wq where
  "sample_rq = \<lparr>wq_wrid = [0, 0, 0, 0], wr_data = [], w_list = [], wqe_head = [], wq_cnt = 4, wq_max_post = 4, wq_max_gs = 1,
     wq_head = 0xFFFFFFFE, wq_tail = 0xFFFFFFFE, cur_post = 0, last_poll = 0,
     rq_bufs = replicate 4 [\<lparr>byte_count = 0, lkey = 0, addr = 0\<rparr>], wq_db = 0\<rparr>"

theorem recv_fifo_witness:
  "\<exists>wq' s. mlx5_ib_post_recv False False sample_rq [sample_recv 7, sample_recv 8, sample_recv 9] = Some (0, [], wq') \<and>
     take_steps 3 recv_complete wq' = Some ([7, 8, 9], s)"
proof -
  have r: "rq_rep 2 sample_rq 0 []" by (simp add: rq_rep_def rq_shape_def sample_rq_def)
  have w: "\<forall>wr \<in> set [sample_recv 7, sample_recv 8, sample_recv 9]. length (sg_list wr) \<le> wq_max_gs sample_rq"
    by (simp add: sample_recv_def sample_rq_def)
  have x: "unat (wq_max_post sample_rq) = 4" "map recv_wr_id [sample_recv 7, sample_recv 8, sample_recv 9] = [7, 8, 9]"
    by (simp_all add: sample_rq_def sample_recv_def)
  show ?thesis using recv_fifo [OF r w, of 3 False] x by (auto dest: spec [of _ 3])
qed

section \<open>The send queue as a queue of descriptors\<close>

text \<open>
  A descriptor in the queue: its length in 64-byte blocks and its request.  \<open>start es j\<close> is the distance
  of descriptor \<open>j\<close> from the first.
\<close>

type_synonym sq_entry = "nat \<times> u64"

definition start :: "sq_entry list \<Rightarrow> nat \<Rightarrow> nat" where
  "start es j = sum_list (map fst (take j es))"

definition sq_shape :: "nat \<Rightarrow> nat \<Rightarrow> mlx5_wq \<Rightarrow> bool" where
  "sq_shape k bb wq \<longleftrightarrow> k \<le> 15 \<and> wq_cnt wq = 2 ^ k \<and> length (wq_wrid wq) = 2 ^ k \<and> length (wr_data wq) = 2 ^ k \<and>
     length (wqe_head wq) = 2 ^ k \<and> length (w_list wq) = 2 ^ k \<and> unat (wq_max_post wq) * bb \<le> 2 ^ k"

definition sq_slot :: "nat \<Rightarrow> mlx5_wq \<Rightarrow> sq_entry list \<Rightarrow> nat \<Rightarrow> bool" where
  "sq_slot k wq es j \<longleftrightarrow> (let i = (unat (last_poll wq) + start es j) mod 2 ^ k in
     wq_wrid wq ! i = snd (es ! j) \<and> wqe_head wq ! i = wq_tail wq + of_nat j \<and>
     wl_next (w_list wq ! i) = last_poll wq + of_nat (start es (Suc j)))"

text \<open>
  The queue holds the descriptors \<open>es\<close>, each of at most \<open>bb\<close> blocks, the last \<open>nreq\<close> of them not yet counted
  in the head index.
\<close>

definition sq_rep :: "nat \<Rightarrow> nat \<Rightarrow> mlx5_wq \<Rightarrow> u32 \<Rightarrow> sq_entry list \<Rightarrow> bool" where
  "sq_rep k bb wq nreq es \<longleftrightarrow> sq_shape k bb wq \<and> length es \<le> unat (wq_max_post wq) \<and>
     (\<forall>e \<in> set es. 0 < fst e \<and> fst e \<le> bb) \<and> wq_head wq + nreq = wq_tail wq + of_nat (length es) \<and>
     cur_post wq = last_poll wq + of_nat (start es (length es)) \<and> (\<forall>j < length es. sq_slot k wq es j)"

definition sq_holds :: "mlx5_wq \<Rightarrow> u64 list \<Rightarrow> bool" where
  "sq_holds wq ids \<longleftrightarrow> (\<exists>k bb es. sq_rep k bb wq 0 es \<and> ids = map snd es)"

lemma start_simps [simp]:
  "start es 0 = 0" "j < length es \<Longrightarrow> start es (Suc j) = start es j + fst (es ! j)"
  "j \<le> length es \<Longrightarrow> start (es @ es') j = start es j"
  by (simp_all add: start_def take_Suc_conv_app_nth)

lemma start_drop: "start (drop n es) j = start es (n + j) - start es n"
  by (simp add: start_def take_add)

lemma start_mono: "i \<le> j \<Longrightarrow> start es i \<le> start es j"
  by (auto simp: start_def take_add le_iff_add)

lemma start_less:
  assumes "\<forall>e \<in> set es. 0 < fst e" "i < j" "i < length es"
  shows "start es i < start es j"
proof -
  have "start es i < start es (Suc i)" using assms by simp
  also have "\<dots> \<le> start es j" using assms(2) by (intro start_mono) simp
  finally show ?thesis .
qed

lemma start_bound: "\<forall>e \<in> set es. fst e \<le> bb \<Longrightarrow> start es j \<le> length es * bb"
proof (induction es arbitrary: j)
  case Nil
  then show ?case by (simp add: start_def)
next
  case (Cons e es)
  then show ?case by (cases j) (fastforce simp: start_def intro: add_mono)+
qed

lemma sq_index:
  assumes "wq_cnt wq = 2 ^ k" "k \<le> 15"
  shows "wq_index wq (ucast (c + of_nat n :: u16)) = (unat c + n) mod 2 ^ k"
proof -
  have "wq_index wq (ucast (c + of_nat n :: u16)) = unat (c + of_nat n :: u16) mod 2 ^ k"
    using wq_index_pow2 [of wq k "ucast (c + of_nat n :: u16)" 0] assms by simp
  also have "unat (c + of_nat n :: u16) = (unat c + n) mod 2 ^ 16"
    by (simp add: unat_word_ariths unat_of_nat mod_add_right_eq)
  also have "\<dots> mod 2 ^ k = (unat c + n) mod 2 ^ k"
    using assms(2) by (intro mod_mod_cancel le_imp_power_dvd) simp
  finally show ?thesis .
qed

lemma sq_start_bounds:
  assumes "sq_rep k bb wq nreq es"
  shows "start es j \<le> 2 ^ k" "length es < unat (wq_max_post wq) \<Longrightarrow> start es j + bb \<le> 2 ^ k"
    and "j < length es \<Longrightarrow> start es j < 2 ^ k"
proof -
  have sh: "unat (wq_max_post wq) * bb \<le> 2 ^ k" "length es \<le> unat (wq_max_post wq)" and b: "\<forall>e \<in> set es. fst e \<le> bb"
    "\<forall>e \<in> set es. 0 < fst e"
    using assms by (auto simp: sq_rep_def sq_shape_def)
  have s: "start es j \<le> length es * bb" for j using start_bound [OF b(1)] .
  have "length es * bb \<le> unat (wq_max_post wq) * bb" using sh(2) by simp
  with s sh(1) show *: "start es j \<le> 2 ^ k" for j by (meson le_trans)
  show "start es j + bb \<le> 2 ^ k" if "length es < unat (wq_max_post wq)"
  proof -
    have "(length es + 1) * bb \<le> unat (wq_max_post wq) * bb" using that by (intro mult_right_mono) simp_all
    with s [of j] sh(1) show ?thesis by simp
  qed
  show "start es j < 2 ^ k" if "j < length es"
    using start_less [OF b(2), of j "length es"] that * [of "length es"] by simp
qed

lemma sq_overflow:
  assumes "sq_rep k bb wq nreq es"
  shows "mlx5_wq_overflow wq nreq \<longleftrightarrow> length es = unat (wq_max_post wq)"
proof -
  have le: "length es \<le> unat (wq_max_post wq)" using assms by (simp add: sq_rep_def)
  have "unat (wq_max_post wq) < 2 ^ 32" using unsigned_less [of "wq_max_post wq"] by simp
  with le have "unat (of_nat (length es) :: u32) = length es" by (simp add: unat_of_nat)
  moreover have "wq_head wq - wq_tail wq + nreq = of_nat (length es)"
    using assms by (simp add: sq_rep_def algebra_simps)
  ultimately show ?thesis using le by (auto simp: mlx5_wq_overflow_def word_less_nat_alt)
qed

lemma sq_finish:
  assumes "sq_rep k bb wq nreq es" "length es < unat (wq_max_post wq)" "0 < wqe_blocks sz" "wqe_blocks sz \<le> bb"
  shows "\<exists>wq'. finish_wqe wq (wq_index wq (ucast (cur_post wq))) wr_id nreq sz opcode = Some wq' \<and>
    sq_rep k bb wq' (nreq + 1) (es @ [(wqe_blocks sz, wr_id)]) \<and> wq_max_post wq' = wq_max_post wq"
proof -
  have sh: "sq_shape k bb wq" and cp: "cur_post wq = last_poll wq + of_nat (start es (length es))"
    and hd: "wq_head wq + nreq = wq_tail wq + of_nat (length es)" and slots: "\<forall>j < length es. sq_slot k wq es j"
    using assms(1) by (auto simp: sq_rep_def)
  let ?n = "start es (length es)"
  let ?i = "(unat (last_poll wq) + ?n) mod 2 ^ k"
  let ?cur = "last_poll wq + of_nat (?n + wqe_blocks sz)"
  let ?wq = "wq\<lparr>wq_wrid := (wq_wrid wq)[?i := wr_id], wqe_head := (wqe_head wq)[?i := wq_head wq + nreq],
    w_list := (w_list wq)[?i := \<lparr>wl_opcode = ucast opcode, wl_next = ?cur\<rparr>], cur_post := ?cur\<rparr>"
  let ?es = "es @ [(wqe_blocks sz, wr_id)]"
  have i: "wq_index wq (ucast (cur_post wq)) = ?i"
    unfolding cp using sh by (intro sq_index) (auto simp: sq_shape_def)
  have lt: "?i < 2 ^ k" by simp
  have fin: "finish_wqe wq ?i wr_id nreq sz opcode = Some ?wq"
    using sh lt by (simp add: finish_wqe_def upd_opt_def sq_shape_def cp add.assoc Let_def)
  have "sq_slot k ?wq ?es j" if "j \<le> length es" for j
  proof (cases "j = length es")
    case True
    then show ?thesis using sh lt hd by (simp add: sq_slot_def sq_shape_def Let_def)
  next
    case False
    then have j: "j < length es" using that by simp
    have "?n < 2 ^ k" using sq_start_bounds(2) [OF assms(1,2), of "length es"] assms(3,4) by simp
    moreover have "start es j < ?n" using start_less [of es j "length es"] j assms(1) by (auto simp: sq_rep_def)
    ultimately have "(unat (last_poll wq) + start es j) mod 2 ^ k \<noteq> ?i"
      using mod_add_inj [of _ "start es j" "2 ^ k" ?n] by fastforce
    then show ?thesis using slots j by (simp add: sq_slot_def Let_def nth_append)
  qed
  moreover have "sq_shape k bb ?wq" using sh by (simp add: sq_shape_def)
  ultimately have "sq_rep k bb ?wq (nreq + 1) ?es"
    using assms hd by (auto simp: sq_rep_def less_Suc_eq_le algebra_simps)
  with fin i show ?thesis by auto
qed

text \<open>A request that passes the checks and is one descriptor of at most \<open>bb\<close> blocks.\<close>

definition one_wqe :: "nat \<Rightarrow> send_req \<Rightarrow> bool" where
  "one_wqe bb r \<longleftrightarrow> req_check r = 0 \<and> (\<exists>sz opcode. req_wqes r = [Inr (sz, opcode)] \<and> 0 < wqe_blocks sz \<and> wqe_blocks sz \<le> bb)"

definition req_entry :: "send_req \<Rightarrow> sq_entry" where
  "req_entry r = (wqe_blocks (fst (projr (hd (req_wqes r)))), req_wr_id r)"

lemma sq_rep_wr_data:
  "length d = length (wr_data wq) \<Longrightarrow> sq_rep k bb (wq\<lparr>wr_data := d\<rparr>) nreq es = sq_rep k bb wq nreq es"
  by (simp add: sq_rep_def sq_shape_def sq_slot_def Let_def)

lemma sq_post_one:
  assumes "sq_rep k bb wq nreq es" "length es < unat (wq_max_post wq)" "one_wqe bb r"
  shows "\<exists>wq'. post_wqes wq nreq (req_wr_id r) (Some (req_data r)) (req_wqes r) = Some (0, wq') \<and>
    sq_rep k bb wq' (nreq + 1) (es @ [req_entry r]) \<and> wq_max_post wq' = wq_max_post wq"
proof -
  obtain sz opcode where r: "req_wqes r = [Inr (sz, opcode)]" "0 < wqe_blocks sz" "wqe_blocks sz \<le> bb"
    using assms(3) by (auto simp: one_wqe_def)
  let ?i = "wq_index wq (ucast (cur_post wq))"
  let ?wq = "wq\<lparr>wr_data := (wr_data wq)[?i := req_data r]\<rparr>"
  have sh: "sq_shape k bb wq" using assms(1) by (simp add: sq_rep_def)
  have b: "begin_wqe wq nreq = Inr ?i" using sq_overflow [OF assms(1)] assms(2) by (simp add: begin_wqe_def)
  have "?i < length (wr_data wq)" using sh sq_index [of wq k "cur_post wq" 0] by (simp add: sq_shape_def)
  then have d: "upd_opt (wr_data wq) ?i (req_data r) = Some ((wr_data wq)[?i := req_data r])" by (simp add: upd_opt_def)
  have "sq_rep k bb ?wq nreq es" using assms(1) by (simp add: sq_rep_wr_data)
  from sq_finish [OF this _ r(2,3), of "req_wr_id r" opcode] assms(2) obtain wq' where
    "finish_wqe ?wq ?i (req_wr_id r) nreq sz opcode = Some wq'"
    "sq_rep k bb wq' (nreq + 1) (es @ [(wqe_blocks sz, req_wr_id r)])" "wq_max_post wq' = wq_max_post wq"
    by (auto simp: wq_index_def)
  with r(1) b d show ?thesis by (simp add: req_entry_def Let_def)
qed

lemma sq_post_loop:
  assumes "sq_rep k bb wq nreq es" and "\<forall>r \<in> set rs. one_wqe bb r"
  defines "m \<equiv> min (length rs) (unat (wq_max_post wq) - length es)"
  shows "\<exists>wq'. post_send_loop wq nreq rs =
      Some (if length es + length rs \<le> unat (wq_max_post wq) then 0 else - ENOMEM, drop m rs, nreq + of_nat m, wq') \<and>
    sq_rep k bb wq' (nreq + of_nat m) (es @ map req_entry (take m rs))"
  unfolding m_def using assms(1,2)
proof (induction rs arbitrary: wq nreq es)
  case Nil
  then show ?case by (simp add: sq_rep_def)
next
  case (Cons r rs)
  then obtain sz opcode where r: "req_check r = 0" "req_wqes r = [Inr (sz, opcode)]" by (auto simp: one_wqe_def)
  show ?case
  proof (cases "length es = unat (wq_max_post wq)")
    case True
    then show ?thesis using Cons.prems(1) sq_overflow [OF Cons.prems(1)] r by (simp add: begin_wqe_def ENOMEM_def)
  next
    case False
    then have lt: "length es < unat (wq_max_post wq)" using Cons.prems(1) by (simp add: sq_rep_def)
    obtain wq' where w: "post_wqes wq nreq (req_wr_id r) (Some (req_data r)) (req_wqes r) = Some (0, wq')"
      "sq_rep k bb wq' (nreq + 1) (es @ [req_entry r])" "wq_max_post wq' = wq_max_post wq"
      using sq_post_one [OF Cons.prems(1) lt] Cons.prems(2) by auto
    let ?m = "min (length rs) (unat (wq_max_post wq) - length (es @ [req_entry r]))"
    have m: "min (length (r # rs)) (unat (wq_max_post wq) - length es) = Suc ?m" using lt by auto
    from Cons.IH [OF w(2)] Cons.prems(2) w(1,3) r(1) show ?thesis
      unfolding m by (simp add: algebra_simps)
  qed
qed

lemma post_send_rep:
  assumes "sq_rep k bb wq 0 es" and "\<forall>r \<in> set rs. one_wqe bb r"
    and "m = min (length rs) (unat (wq_max_post wq) - length es)"
  shows "\<exists>wq'. mlx5_ib_post_send False drain wq rs =
      Some (if length es + length rs \<le> unat (wq_max_post wq) then 0 else - ENOMEM, drop m rs, wq') \<and>
    sq_rep k bb wq' 0 (es @ map req_entry (take m rs))"
proof -
  have "unat (wq_max_post wq) < 2 ^ 32" using unsigned_less [of "wq_max_post wq"] by simp
  then have "m < 2 ^ 32" using assms(3) by simp
  then have m: "(of_nat m :: u32) = 0 \<longleftrightarrow> m = 0" by (simp add: word_unat_eq_iff unat_of_nat)
  obtain wq' where "post_send_loop wq 0 rs =
      Some (if length es + length rs \<le> unat (wq_max_post wq) then 0 else - ENOMEM, drop m rs, of_nat m, wq')"
    and r: "sq_rep k bb wq' (of_nat m) (es @ map req_entry (take m rs))"
    using sq_post_loop [OF assms(1,2)] unfolding assms(3) by auto
  then show ?thesis using m by (auto simp: mlx5_ib_post_send_def sq_rep_def sq_shape_def sq_slot_def Let_def)
qed

text \<open>The ring slot of a descriptor, and the position a completion names it by.\<close>

definition sq_pos :: "mlx5_wq \<Rightarrow> sq_entry list \<Rightarrow> nat \<Rightarrow> u16" where
  "sq_pos wq es j = last_poll wq + of_nat (start es j)"

lemma sq_pos_index:
  assumes "sq_rep k bb wq nreq es"
  shows "wq_index wq (ucast (sq_pos wq es j)) = (unat (last_poll wq) + start es j) mod 2 ^ k"
  using assms sq_index [of wq k] by (simp add: sq_pos_def sq_rep_def sq_shape_def)

lemma sq_slot_reads:
  assumes "sq_rep k bb wq nreq es" "j < length es"
  defines "i \<equiv> wq_index wq (ucast (sq_pos wq es j))"
  shows "nth_opt (wq_wrid wq) i = Some (snd (es ! j))" "nth_opt (wqe_head wq) i = Some (wq_tail wq + of_nat j)"
    and "w_next wq i = Some (sq_pos wq es (Suc j))"
  unfolding i_def sq_pos_index [OF assms(1)]
  using assms(1,2) by (auto simp: sq_rep_def sq_shape_def sq_slot_def sq_pos_def Let_def nth_opt_def w_next_def)

lemma sq_pos_inj:
  assumes "sq_rep k bb wq nreq es" "i < length es" "j < length es"
    and "wq_index wq (ucast (sq_pos wq es i)) = wq_index wq (ucast (sq_pos wq es j))"
  shows "i = j"
proof -
  have "start es i = start es j"
    using assms sq_pos_index [OF assms(1)] sq_start_bounds(3) [OF assms(1)] by (auto intro: mod_add_inj)
  moreover have "\<forall>e \<in> set es. 0 < fst e" using assms(1) by (auto simp: sq_rep_def)
  ultimately show ?thesis
    using start_less [of es i j] start_less [of es j i] assms(2,3) by (metis less_irrefl linorder_neqE_nat)
qed

text \<open>The search ends: from any descriptor not behind the completed one it follows the links to it.\<close>

lemma atomics_find_ends:
  assumes "sq_rep k bb wq nreq es" "j < length es" "i \<le> j"
  shows "atomics_find wq (sq_pos wq es i) (wq_index wq (ucast (sq_pos wq es j))) = Some (wq_index wq (ucast (sq_pos wq es j)))"
  using assms(3)
proof (induction "j - i" arbitrary: i)
  case 0
  then show ?case by (subst atomics_find.simps) simp
next
  case (Suc d)
  then have i: "i < j" "i < length es" using assms(2) by simp_all
  have "wq_index wq (ucast (sq_pos wq es i)) \<noteq> wq_index wq (ucast (sq_pos wq es j))"
    using sq_pos_inj [OF assms(1) i(2) assms(2)] i(1) by blast
  moreover have "atomics_find wq (sq_pos wq es (Suc i)) (wq_index wq (ucast (sq_pos wq es j))) =
      Some (wq_index wq (ucast (sq_pos wq es j)))"
    using Suc.hyps(2) i(1) by (intro Suc.hyps(1)) simp_all
  ultimately show ?case
    using sq_slot_reads(3) [OF assms(1) i(2)] by (subst atomics_find.simps) simp
qed

text \<open>Taking the first descriptors off the queue.\<close>

lemma sq_rep_drop:
  assumes "sq_rep k bb wq 0 es" "n \<le> length es"
  shows "sq_rep k bb (wq\<lparr>last_poll := sq_pos wq es n, wq_tail := wq_tail wq + of_nat n\<rparr>) 0 (drop n es)" (is "sq_rep k bb ?wq _ _")
proof -
  have mono: "start es n \<le> start es (n + j)" for j by (intro start_mono) simp
  have sum: "start es n + start (drop n es) j = start es (n + j)" for j using mono by (simp add: start_drop)
  have idx: "(unat (sq_pos wq es n) + start (drop n es) j) mod 2 ^ k = (unat (last_poll wq) + start es (n + j)) mod 2 ^ k" for j
  proof -
    have "(unat (sq_pos wq es n) + start (drop n es) j) mod 2 ^ k =
        wq_index wq (ucast (sq_pos wq es n + of_nat (start (drop n es) j) :: u16))"
      using sq_index [of wq k] assms(1) by (simp add: sq_rep_def sq_shape_def)
    also have "sq_pos wq es n + of_nat (start (drop n es) j) = sq_pos wq es (n + j)"
      using sum [of j] by (simp add: sq_pos_def add.assoc flip: of_nat_add)
    finally show ?thesis by (simp add: sq_pos_index [OF assms(1)])
  qed
  have "sq_slot k ?wq (drop n es) j" if "j < length es - n" for j
  proof -
    have "sq_slot k wq es (n + j)" using that assms(1) by (auto simp: sq_rep_def)
    moreover have "sq_pos wq es n + of_nat (start (drop n es) (Suc j)) = last_poll wq + of_nat (start es (Suc (n + j)))"
      using sum [of "Suc j"] by (simp add: sq_pos_def add.assoc flip: of_nat_add)
    ultimately show ?thesis using idx [of j] that by (simp add: sq_slot_def Let_def add.assoc)
  qed
  moreover have "cur_post wq = sq_pos wq es n + of_nat (start (drop n es) (length es - n))"
    using assms sum [of "length es - n"] by (simp add: sq_rep_def sq_pos_def add.assoc flip: of_nat_add)
  ultimately show ?thesis
    using assms by (auto simp: sq_rep_def sq_shape_def add.assoc of_nat_diff dest: in_set_dropD)
qed

lemma send_complete_rep:
  assumes "sq_rep k bb wq 0 es" "j < length es"
  shows "\<exists>wq'. send_complete wq (sq_pos wq es j) = Some (snd (es ! j), wq') \<and> sq_rep k bb wq' 0 (drop (Suc j) es)"
proof -
  have f: "atomics_find wq (last_poll wq) (wq_index wq (ucast (sq_pos wq es j))) = Some (wq_index wq (ucast (sq_pos wq es j)))"
    using atomics_find_ends [OF assms, of 0] by (simp add: sq_pos_def)
  have "send_complete wq (sq_pos wq es j) =
      Some (snd (es ! j), wq\<lparr>last_poll := sq_pos wq es (Suc j), wq_tail := wq_tail wq + of_nat (Suc j)\<rparr>)"
    using f sq_slot_reads [OF assms] by (simp add: send_complete_def handle_atomics_def Let_def add.assoc add.commute)
  with sq_rep_drop [OF assms(1), of "Suc j"] assms(2) show ?thesis by simp
qed

interpretation sq_flush: completion_queue sq_holds "flush_one True"
proof unfold_locales
  fix s x q
  assume "sq_holds s (x # q)"
  then obtain k bb e es where r: "sq_rep k bb s 0 (e # es)" and x: "x = snd e" "q = map snd es"
    by (auto simp: sq_holds_def)
  note read = sq_slot_reads [OF r, of 0, simplified]
  have "flush_one True s = Some (x, s\<lparr>last_poll := sq_pos s (e # es) (Suc 0), wq_tail := wq_tail s + of_nat (Suc 0)\<rparr>)"
    using read x(1) by (simp add: flush_one_def sq_pos_def Let_def)
  with sq_rep_drop [OF r, of "Suc 0"] x(2) show "\<exists>s'. flush_one True s = Some (x, s') \<and> sq_holds s' q"
    by (auto simp: sq_holds_def)
qed

lemma sq_count: 
  assumes "sq_rep k bb wq 0 es"
  shows "unat (wq_head wq - wq_tail wq) = length es"
proof -
  have "unat (wq_max_post wq) < 2 ^ 32" using unsigned_less [of "wq_max_post wq"] by simp
  then show ?thesis using assms by (simp add: sq_rep_def unat_of_nat)
qed

text \<open>
  C29. The send queue.  Requests of one descriptor each are posted as far as there is room.  A completion
  names a descriptor by its position in the ring; for every descriptor in the queue the search of
  \<^verbatim>\<open>handle_atomics\<close> ends, the completion reports the request of that descriptor, and it takes that descriptor
  and all before it off the queue.  The flush after a fatal device error then reports the requests that
  remain, in order and each exactly once.
\<close>

theorem send_completes:
  assumes "sq_rep k bb wq 0 es" and "\<forall>r \<in> set rs. one_wqe bb r" and "length es + length rs \<le> unat (wq_max_post wq)"
    and "all = es @ map req_entry rs"
  shows "\<exists>wq1. mlx5_ib_post_send False drain wq rs = Some (0, [], wq1) \<and> sq_rep k bb wq1 0 all \<and>
    (\<forall>j < length all. \<exists>wq2 wq3. send_complete wq1 (sq_pos wq1 all j) = Some (snd (all ! j), wq2) \<and>
       sq_rep k bb wq2 0 (drop (Suc j) all) \<and>
       sw_comp True (length all) wq2 = Some (map snd (drop (Suc j) all), wq3))"
proof -
  obtain wq1 where p: "mlx5_ib_post_send False drain wq rs = Some (0, [], wq1)" and r: "sq_rep k bb wq1 0 all"
    using post_send_rep [OF assms(1,2) refl, of drain] assms(3,4) by auto
  have "\<exists>wq2 wq3. send_complete wq1 (sq_pos wq1 all j) = Some (snd (all ! j), wq2) \<and>
      sq_rep k bb wq2 0 (drop (Suc j) all) \<and> sw_comp True (length all) wq2 = Some (map snd (drop (Suc j) all), wq3)"
    if j: "j < length all" for j
  proof -
    obtain wq2 where c: "send_complete wq1 (sq_pos wq1 all j) = Some (snd (all ! j), wq2)"
      and r2: "sq_rep k bb wq2 0 (drop (Suc j) all)"
      using send_complete_rep [OF r j] by blast
    have h: "sq_holds wq2 (map snd (drop (Suc j) all))" using r2 by (auto simp: sq_holds_def)
    from sq_flush.take_steps_takes [OF h, of "length all - Suc j"] sq_count [OF r2]
    have "\<exists>wq3. sw_comp True (length all) wq2 = Some (map snd (drop (Suc j) all), wq3)" by (auto simp: sw_comp_def)
    with c r2 show ?thesis by blast
  qed
  with p r show ?thesis by blast
qed

definition sample_sq :: mlx5_wq where
  "sample_sq = \<lparr>wq_wrid = [0, 0, 0, 0], wr_data = [0, 0, 0, 0], w_list = replicate 4 \<lparr>wl_opcode = 0, wl_next = 0\<rparr>,
     wqe_head = [0, 0, 0, 0], wq_cnt = 4, wq_max_post = 2, wq_max_gs = 1, wq_head = 0, wq_tail = 0,
     cur_post = 0xFFFF, last_poll = 0xFFFF, rq_bufs = [], wq_db = 0\<rparr>"

definition sample_req :: "u64 \<Rightarrow> u8 \<Rightarrow> send_req" where
  "sample_req i sz = \<lparr>req_wr_id = i, req_check = 0, req_data = 0, req_wqes = [Inr (sz, 10)]\<rparr>"

lemma sample_sq_rep: "sq_rep 2 2 sample_sq 0 []"
  by (simp add: sq_rep_def sq_shape_def sample_sq_def start_def)

lemma sample_reqs: "\<forall>r \<in> set [sample_req 7 8, sample_req 8 3]. one_wqe 2 r"
  "map req_entry [sample_req 7 8, sample_req 8 3] = [(2, 7), (1, 8)]"
  by (simp_all add: sample_req_def one_wqe_def req_entry_def wqe_blocks_def WQE_BB_def)

theorem send_completes_witness:
  "\<exists>wq1 wq2 wq3. mlx5_ib_post_send False False sample_sq [sample_req 7 8, sample_req 8 3] = Some (0, [], wq1) \<and>
     send_complete wq1 (sq_pos wq1 [(2, 7), (1, 8)] 0) = Some (7, wq2) \<and> sw_comp True 2 wq2 = Some ([8], wq3)"
proof -
  let ?all = "[(2, 7), (1, 8)] :: sq_entry list"
  have le: "length [] + length [sample_req 7 8, sample_req 8 3] \<le> unat (wq_max_post sample_sq)" by (simp add: sample_sq_def)
  have all: "?all = [] @ map req_entry [sample_req 7 8, sample_req 8 3]" by (simp only: sample_reqs(2) append_Nil)
  obtain wq1 where p: "mlx5_ib_post_send False False sample_sq [sample_req 7 8, sample_req 8 3] = Some (0, [], wq1)"
    and c: "\<forall>j < length ?all. \<exists>wq2 wq3. send_complete wq1 (sq_pos wq1 ?all j) = Some (snd (?all ! j), wq2) \<and>
       sq_rep 2 2 wq2 0 (drop (Suc j) ?all) \<and> sw_comp True (length ?all) wq2 = Some (map snd (drop (Suc j) ?all), wq3)"
    using send_completes [OF sample_sq_rep sample_reqs(1) le all, of False] by blast
  have "\<exists>wq2 wq3. send_complete wq1 (sq_pos wq1 ?all 0) = Some (7, wq2) \<and> sw_comp True 2 wq2 = Some ([8], wq3)"
    using c [rule_format, of 0] by (auto simp: numeral_2_eq_2)
  with p show ?thesis by blast
qed

text \<open>The tail does not matter to what a flush of the send queue reports.\<close>

lemma flush_one_tail:
  "flush_one True (x\<lparr>wq_tail := t\<rparr>) = map_option (\<lambda>(i, y). (i, y\<lparr>wq_tail := t + 1\<rparr>)) (flush_one True x)"
  by (cases x) (simp add: flush_one_def wq_index_def w_next_def Let_def map_option_bind o_def)

lemma flush_ignores_tail:
  "map_option fst (take_steps m (flush_one True) (x\<lparr>wq_tail := t\<rparr>)) = map_option fst (take_steps m (flush_one True) x)"
proof (induction m arbitrary: x t)
  case 0
  show ?case by simp
next
  case (Suc m)
  show ?case
  proof (cases "flush_one True x")
    case None
    then show ?thesis by (simp add: flush_one_tail)
  next
    case (Some iy)
    obtain i y where iy: "iy = (i, y)" by (cases iy)
    have "map_option fst (take_steps m (flush_one True) (y\<lparr>wq_tail := t + 1\<rparr>)) = map_option fst (take_steps m (flush_one True) y)"
      by (rule Suc.IH)
    then have "map_option ((#) i \<circ> fst) (take_steps m (flush_one True) (y\<lparr>wq_tail := t + 1\<rparr>)) =
        map_option ((#) i \<circ> fst) (take_steps m (flush_one True) y)"
      by (simp flip: option.map_comp)
    moreover have "map_option fst (do { (xs, s) \<leftarrow> r; Some (i # xs, s) }) = map_option ((#) i \<circ> fst) r" for r :: "(u64 list \<times> mlx5_wq) option"
      by (cases r) auto
    ultimately show ?thesis using Some iy by (simp add: flush_one_tail)
  qed
qed

text \<open>
  A failed request is reported twice.  A completion with error advances the tail of the send queue
  but not \<^verbatim>\<open>last_poll\<close>, from which the flush reads: when the device then fails fatally, the flush reports the
  failed request again, and with as many reports as requests are outstanding the last of them is never
  reported.
\<close>

theorem send_error_reported_twice:
  assumes "sq_rep k bb wq 0 es" and "1 < length es"
  shows "\<exists>wq1 wq2. send_error wq (sq_pos wq es 0) = Some (snd (es ! 0), wq1) \<and>
    unat (wq_head wq1 - wq_tail wq1) = length es - 1 \<and>
    sw_comp True (length es) wq1 = Some (map snd (butlast es), wq2)"
proof -
  let ?wq = "wq\<lparr>wq_tail := wq_tail wq + 1\<rparr>"
  have pos: "0 < length es" using assms(2) by linarith
  have e: "send_error wq (sq_pos wq es 0) = Some (snd (es ! 0), ?wq)"
    using sq_slot_reads [OF assms(1) pos] by (simp add: send_error_def Let_def)
  have "wq_head wq - wq_tail wq = of_nat (length es)" using assms(1) by (simp add: sq_rep_def)
  then have "wq_head ?wq - wq_tail ?wq = of_nat (length es - 1)" using pos by (cases es) (simp_all add: algebra_simps)
  moreover have "unat (wq_max_post wq) < 2 ^ 32" using unsigned_less [of "wq_max_post wq"] by simp
  then have "length es - 1 < 2 ^ 32" using assms(1) by (simp add: sq_rep_def less_imp_diff_less)
  then have "unat (of_nat (length es - 1) :: u32) = length es - 1" by (simp add: unat_of_nat)
  ultimately have n: "unat (wq_head ?wq - wq_tail ?wq) = length es - 1" by simp
  have h: "sq_holds wq (map snd es)" using assms(1) by (auto simp: sq_holds_def)
  from sq_flush.take_steps_takes [OF h, of "length es - 1"]
  have "map_option fst (take_steps (length es - 1) (flush_one True) wq) = Some (map snd (butlast es))"
    by (auto simp: butlast_conv_take take_map)
  then have "map_option fst (take_steps (length es - 1) (flush_one True) ?wq) = Some (map snd (butlast es))"
    by (simp add: flush_ignores_tail)
  then show ?thesis using e n by (auto simp: sw_comp_def)
qed

theorem send_error_reported_twice_witness:
  "\<exists>wq wq1 wq2. send_error wq (sq_pos wq [(2, 7), (1, 8)] 0) = Some (7, wq1) \<and> sw_comp True 2 wq1 = Some ([7], wq2)"
proof -
  obtain wq where "sq_rep 2 2 wq 0 [(2, 7), (1, 8)]"
    using post_send_rep [OF sample_sq_rep sample_reqs(1) refl, of False] sample_reqs(2) by (fastforce simp: sample_sq_def)
  from send_error_reported_twice [OF this] obtain wq1 wq2 where
    "send_error wq (sq_pos wq [(2, 7), (1, 8)] 0) = Some (7, wq1)" "sw_comp True 2 wq1 = Some ([7], wq2)"
    by (auto simp: numeral_2_eq_2)
  then show ?thesis by blast
qed

end
