(* ===== verification/Mlx5Poll.thy ===== *)
theory Mlx5Poll
  imports Mlx5Cq Mlx5Wq Mlx5Sizing
begin

text \<open>
  Polling a completion queue, \<^verbatim>\<open>mlx5_ib_poll_cq\<close> and everything it calls in
  \<^verbatim>\<open>drivers/infiniband/hw/mlx5/cq.c\<close>: hardware completions (\<^verbatim>\<open>mlx5_poll_one\<close>) with their translation into work
  completions, software completions, and the flush after a fatal device error.  Polling ties the
  components together: an entry of the completion queue selects a queue pair, whose send, receive or
  shared receive queue yields the request.  A lookup that fails and is then dereferenced is \<^const>\<open>None\<close>, as is
  an access outside an array.
\<close>

unbundle bit_operations_syntax

section \<open>Work completions\<close>

datatype ib_wc_status =
    IB_WC_SUCCESS | IB_WC_LOC_LEN_ERR | IB_WC_LOC_QP_OP_ERR | IB_WC_LOC_EEC_OP_ERR | IB_WC_LOC_PROT_ERR
  | IB_WC_WR_FLUSH_ERR | IB_WC_MW_BIND_ERR | IB_WC_BAD_RESP_ERR | IB_WC_LOC_ACCESS_ERR | IB_WC_REM_INV_REQ_ERR
  | IB_WC_REM_ACCESS_ERR | IB_WC_REM_OP_ERR | IB_WC_RETRY_EXC_ERR | IB_WC_RNR_RETRY_EXC_ERR | IB_WC_LOC_RDD_VIOL_ERR
  | IB_WC_REM_INV_RD_REQ_ERR | IB_WC_REM_ABORT_ERR | IB_WC_INV_EECN_ERR | IB_WC_INV_EEC_STATE_ERR | IB_WC_FATAL_ERR
  | IB_WC_RESP_TIMEOUT_ERR | IB_WC_GENERAL_ERR | IB_WC_SIG_PIPELINE_CANCELED

datatype ib_wc_opcode =
    IB_WC_SEND | IB_WC_RDMA_WRITE | IB_WC_RDMA_READ | IB_WC_COMP_SWAP | IB_WC_FETCH_ADD | IB_WC_LSO | IB_WC_LOCAL_INV
  | IB_WC_REG_MR | IB_WC_MASKED_COMP_SWAP | IB_WC_MASKED_FETCH_ADD | IB_WC_RECV | IB_WC_RECV_RDMA_WITH_IMM

definition IB_WC_GRH :: u32 where "IB_WC_GRH = 1"
definition IB_WC_WITH_IMM :: u32 where "IB_WC_WITH_IMM = 2"
definition IB_WC_WITH_INVALIDATE :: u32 where "IB_WC_WITH_INVALIDATE = 4"
definition IB_WC_IP_CSUM_OK :: u32 where "IB_WC_IP_CSUM_OK = 8"
definition IB_WC_WITH_VLAN :: u32 where "IB_WC_WITH_VLAN = 32"
definition IB_WC_WITH_NETWORK_HDR_TYPE :: u32 where "IB_WC_WITH_NETWORK_HDR_TYPE = 64"
definition RDMA_NETWORK_IB :: u8 where "RDMA_NETWORK_IB = 0"
definition RDMA_NETWORK_IPV4 :: u8 where "RDMA_NETWORK_IPV4 = 1"
definition RDMA_NETWORK_IPV6 :: u8 where "RDMA_NETWORK_IPV6 = 2"

text \<open>The queue pair is its number; immediate data and invalidated key share \<open>wc_ex\<close>.\<close>

record ib_wc =
  wc_wr_id :: u64
  wc_status :: ib_wc_status
  wc_opcode :: ib_wc_opcode
  vendor_err :: u32
  wc_byte_len :: u32
  wc_qp :: u32
  wc_ex :: u32
  src_qp :: u32
  wc_slid :: u32
  wc_flags :: u32
  pkey_index :: u16
  wc_sl :: u8
  dlid_path_bits :: u8
  vlan_id :: u16
  network_hdr_type :: u8

section \<open>Members of completion entries\<close>

definition MLX5_CQE_REQ :: u8 where "MLX5_CQE_REQ = 0"
definition MLX5_CQE_RESP_WR_IMM :: u8 where "MLX5_CQE_RESP_WR_IMM = 1"
definition MLX5_CQE_RESP_SEND :: u8 where "MLX5_CQE_RESP_SEND = 2"
definition MLX5_CQE_RESP_SEND_IMM :: u8 where "MLX5_CQE_RESP_SEND_IMM = 3"
definition MLX5_CQE_RESP_SEND_INV :: u8 where "MLX5_CQE_RESP_SEND_INV = 4"
definition MLX5_CQE_SIG_ERR :: u8 where "MLX5_CQE_SIG_ERR = 12"
definition MLX5_CQE_REQ_ERR :: u8 where "MLX5_CQE_REQ_ERR = 13"
definition MLX5_CQE_RESP_ERR :: u8 where "MLX5_CQE_RESP_ERR = 14"

definition cqe_ml_path :: "block \<Rightarrow> u8" where "cqe_ml_path c = rd8 17 c"
definition cqe_slid :: "block \<Rightarrow> u16" where "cqe_slid c = rd16 22 c"
definition cqe_flags_rqpn :: "block \<Rightarrow> u32" where "cqe_flags_rqpn c = rd32 24 c"
definition cqe_hds_ip_ext :: "block \<Rightarrow> u8" where "cqe_hds_ip_ext c = rd8 28 c"
definition cqe_l4_l3_hdr_type :: "block \<Rightarrow> u8" where "cqe_l4_l3_hdr_type c = rd8 29 c"
definition cqe_vlan_info :: "block \<Rightarrow> u16" where "cqe_vlan_info c = rd16 30 c"
definition cqe_immediate :: "block \<Rightarrow> u32" where "cqe_immediate c = rd32 36 c"
definition cqe_byte_cnt :: "block \<Rightarrow> u32" where "cqe_byte_cnt c = rd32 44 c"
definition err_vendor_synd :: "block \<Rightarrow> u8" where "err_vendor_synd c = rd8 54 c"
definition err_syndrome :: "block \<Rightarrow> u8" where "err_syndrome c = rd8 55 c"

section \<open>Requests\<close>

definition MLX5_IB_WR_UMR :: u32 where "MLX5_IB_WR_UMR = 0xf0"
definition MLX5_IB_WR_SIG_CANCELED :: u32 where "MLX5_IB_WR_SIG_CANCELED = 0xf2"
definition IB_WR_LOCAL_INV :: u32 where "IB_WR_LOCAL_INV = 7"
definition IB_WR_REG_MR :: u32 where "IB_WR_REG_MR = 0x20"

definition MLX5_OPCODE_NOP :: u32 where "MLX5_OPCODE_NOP = 0x00"
definition MLX5_OPCODE_SEND_INVAL :: u32 where "MLX5_OPCODE_SEND_INVAL = 0x01"
definition MLX5_OPCODE_RDMA_WRITE :: u32 where "MLX5_OPCODE_RDMA_WRITE = 0x08"
definition MLX5_OPCODE_RDMA_WRITE_IMM :: u32 where "MLX5_OPCODE_RDMA_WRITE_IMM = 0x09"
definition MLX5_OPCODE_SEND :: u32 where "MLX5_OPCODE_SEND = 0x0a"
definition MLX5_OPCODE_SEND_IMM :: u32 where "MLX5_OPCODE_SEND_IMM = 0x0b"
definition MLX5_OPCODE_RDMA_READ :: u32 where "MLX5_OPCODE_RDMA_READ = 0x10"
definition MLX5_OPCODE_ATOMIC_CS :: u32 where "MLX5_OPCODE_ATOMIC_CS = 0x11"
definition MLX5_OPCODE_ATOMIC_FA :: u32 where "MLX5_OPCODE_ATOMIC_FA = 0x12"
definition MLX5_OPCODE_ATOMIC_MASKED_CS :: u32 where "MLX5_OPCODE_ATOMIC_MASKED_CS = 0x14"
definition MLX5_OPCODE_ATOMIC_MASKED_FA :: u32 where "MLX5_OPCODE_ATOMIC_MASKED_FA = 0x15"
definition MLX5_OPCODE_UMR :: u32 where "MLX5_OPCODE_UMR = 0x25"

definition get_umr_comp :: "u32 \<Rightarrow> ib_wc_opcode" where
  "get_umr_comp data =
     (if data = MLX5_IB_WR_UMR then IB_WC_SEND
      else if data = IB_WR_LOCAL_INV then IB_WC_LOCAL_INV
      else if data = IB_WR_REG_MR then IB_WC_REG_MR
      else IB_WC_SEND)"

definition handle_good_req :: "ib_wc \<Rightarrow> block \<Rightarrow> u32 \<Rightarrow> ib_wc" where
  "handle_good_req wc c data =
     (let wc = wc\<lparr>wc_flags := 0\<rparr>; op = drop_bit 24 (sop_drop_qpn c) in
      if op = MLX5_OPCODE_RDMA_WRITE_IMM then wc\<lparr>wc_flags := IB_WC_WITH_IMM, wc_opcode := IB_WC_RDMA_WRITE\<rparr>
      else if op = MLX5_OPCODE_RDMA_WRITE then wc\<lparr>wc_opcode := IB_WC_RDMA_WRITE\<rparr>
      else if op = MLX5_OPCODE_SEND_IMM then wc\<lparr>wc_flags := IB_WC_WITH_IMM, wc_opcode := IB_WC_SEND\<rparr>
      else if op = MLX5_OPCODE_NOP \<or> op = MLX5_OPCODE_SEND \<or> op = MLX5_OPCODE_SEND_INVAL then wc\<lparr>wc_opcode := IB_WC_SEND\<rparr>
      else if op = MLX5_OPCODE_RDMA_READ then wc\<lparr>wc_opcode := IB_WC_RDMA_READ, wc_byte_len := cqe_byte_cnt c\<rparr>
      else if op = MLX5_OPCODE_ATOMIC_CS then wc\<lparr>wc_opcode := IB_WC_COMP_SWAP, wc_byte_len := 8\<rparr>
      else if op = MLX5_OPCODE_ATOMIC_FA then wc\<lparr>wc_opcode := IB_WC_FETCH_ADD, wc_byte_len := 8\<rparr>
      else if op = MLX5_OPCODE_ATOMIC_MASKED_CS then wc\<lparr>wc_opcode := IB_WC_MASKED_COMP_SWAP, wc_byte_len := 8\<rparr>
      else if op = MLX5_OPCODE_ATOMIC_MASKED_FA then wc\<lparr>wc_opcode := IB_WC_MASKED_FETCH_ADD, wc_byte_len := 8\<rparr>
      else if op = MLX5_OPCODE_UMR then wc\<lparr>wc_opcode := get_umr_comp data\<rparr>
      else wc)"

section \<open>Errors\<close>

definition MLX5_CQE_SYNDROME_LOCAL_LENGTH_ERR :: u8 where "MLX5_CQE_SYNDROME_LOCAL_LENGTH_ERR = 0x01"
definition MLX5_CQE_SYNDROME_LOCAL_QP_OP_ERR :: u8 where "MLX5_CQE_SYNDROME_LOCAL_QP_OP_ERR = 0x02"
definition MLX5_CQE_SYNDROME_LOCAL_PROT_ERR :: u8 where "MLX5_CQE_SYNDROME_LOCAL_PROT_ERR = 0x04"
definition MLX5_CQE_SYNDROME_WR_FLUSH_ERR :: u8 where "MLX5_CQE_SYNDROME_WR_FLUSH_ERR = 0x05"
definition MLX5_CQE_SYNDROME_MW_BIND_ERR :: u8 where "MLX5_CQE_SYNDROME_MW_BIND_ERR = 0x06"
definition MLX5_CQE_SYNDROME_BAD_RESP_ERR :: u8 where "MLX5_CQE_SYNDROME_BAD_RESP_ERR = 0x10"
definition MLX5_CQE_SYNDROME_LOCAL_ACCESS_ERR :: u8 where "MLX5_CQE_SYNDROME_LOCAL_ACCESS_ERR = 0x11"
definition MLX5_CQE_SYNDROME_REMOTE_INVAL_REQ_ERR :: u8 where "MLX5_CQE_SYNDROME_REMOTE_INVAL_REQ_ERR = 0x12"
definition MLX5_CQE_SYNDROME_REMOTE_ACCESS_ERR :: u8 where "MLX5_CQE_SYNDROME_REMOTE_ACCESS_ERR = 0x13"
definition MLX5_CQE_SYNDROME_REMOTE_OP_ERR :: u8 where "MLX5_CQE_SYNDROME_REMOTE_OP_ERR = 0x14"
definition MLX5_CQE_SYNDROME_TRANSPORT_RETRY_EXC_ERR :: u8 where "MLX5_CQE_SYNDROME_TRANSPORT_RETRY_EXC_ERR = 0x15"
definition MLX5_CQE_SYNDROME_RNR_RETRY_EXC_ERR :: u8 where "MLX5_CQE_SYNDROME_RNR_RETRY_EXC_ERR = 0x16"
definition MLX5_CQE_SYNDROME_REMOTE_ABORTED_ERR :: u8 where "MLX5_CQE_SYNDROME_REMOTE_ABORTED_ERR = 0x22"

definition syndrome_status :: "u8 \<Rightarrow> ib_wc_status" where
  "syndrome_status s =
     (if s = MLX5_CQE_SYNDROME_LOCAL_LENGTH_ERR then IB_WC_LOC_LEN_ERR
      else if s = MLX5_CQE_SYNDROME_LOCAL_QP_OP_ERR then IB_WC_LOC_QP_OP_ERR
      else if s = MLX5_CQE_SYNDROME_LOCAL_PROT_ERR then IB_WC_LOC_PROT_ERR
      else if s = MLX5_CQE_SYNDROME_WR_FLUSH_ERR then IB_WC_WR_FLUSH_ERR
      else if s = MLX5_CQE_SYNDROME_MW_BIND_ERR then IB_WC_MW_BIND_ERR
      else if s = MLX5_CQE_SYNDROME_BAD_RESP_ERR then IB_WC_BAD_RESP_ERR
      else if s = MLX5_CQE_SYNDROME_LOCAL_ACCESS_ERR then IB_WC_LOC_ACCESS_ERR
      else if s = MLX5_CQE_SYNDROME_REMOTE_INVAL_REQ_ERR then IB_WC_REM_INV_REQ_ERR
      else if s = MLX5_CQE_SYNDROME_REMOTE_ACCESS_ERR then IB_WC_REM_ACCESS_ERR
      else if s = MLX5_CQE_SYNDROME_REMOTE_OP_ERR then IB_WC_REM_OP_ERR
      else if s = MLX5_CQE_SYNDROME_TRANSPORT_RETRY_EXC_ERR then IB_WC_RETRY_EXC_ERR
      else if s = MLX5_CQE_SYNDROME_RNR_RETRY_EXC_ERR then IB_WC_RNR_RETRY_EXC_ERR
      else if s = MLX5_CQE_SYNDROME_REMOTE_ABORTED_ERR then IB_WC_REM_ABORT_ERR
      else IB_WC_GENERAL_ERR)"

definition mlx5_handle_error_cqe :: "block \<Rightarrow> ib_wc \<Rightarrow> ib_wc" where
  "mlx5_handle_error_cqe c wc = wc\<lparr>wc_status := syndrome_status (err_syndrome c), vendor_err := ucast (err_vendor_synd c)\<rparr>"

datatype ib_sig_err_type = IB_SIG_BAD_GUARD | IB_SIG_BAD_REFTAG | IB_SIG_BAD_APPTAG

record ib_sig_err =
  err_type :: ib_sig_err_type
  expected :: u32
  actual :: u32
  sig_err_offset :: u64
  sig_key :: u32

record mlx5_core_sig_ctx =
  err_item :: ib_sig_err
  sig_err_exists :: bool
  sigerr_count :: u32

definition sig_mkey :: "block \<Rightarrow> u32" where "sig_mkey c = rd32 36 c"

definition get_sig_err_item :: "block \<Rightarrow> ib_sig_err \<Rightarrow> ib_sig_err" where
  "get_sig_err_item c item =
     (let syndrome = rd16 32 c;
          item = (if syndrome AND 0x2000 \<noteq> 0 then
              item\<lparr>err_type := IB_SIG_BAD_GUARD, expected := drop_bit 16 (rd32 16 c), actual := drop_bit 16 (rd32 20 c)\<rparr>
            else if syndrome AND 0x800 \<noteq> 0 then
              item\<lparr>err_type := IB_SIG_BAD_REFTAG, expected := rd32 24 c, actual := rd32 28 c\<rparr>
            else if syndrome AND 0x1000 \<noteq> 0 then
              item\<lparr>err_type := IB_SIG_BAD_APPTAG, expected := rd32 16 c AND 0xffff, actual := rd32 20 c AND 0xffff\<rparr>
            else item) in
      item\<lparr>sig_err_offset := ucast (be_val (take 8 (drop 40 c))), sig_key := sig_mkey c\<rparr>)"

section \<open>Partition keys\<close>

definition ENOENT :: int where "ENOENT = 2"

text \<open>The first full member of the partition; if there is none, the last limited one.\<close>

fun pkey_loop :: "u16 \<Rightarrow> nat \<Rightarrow> u16 list \<Rightarrow> nat option \<Rightarrow> nat option" where
  "pkey_loop key i [] partial_ix = partial_ix"
| "pkey_loop key i (p # ks) partial_ix =
     (if p AND 0x7fff = key AND 0x7fff then
        if p AND 0x8000 \<noteq> 0 then Some i else pkey_loop key (i + 1) ks (Some i)
      else pkey_loop key (i + 1) ks partial_ix)"

definition ib_find_cached_pkey :: "bool \<Rightarrow> u16 list option \<Rightarrow> u16 \<Rightarrow> u16 \<Rightarrow> int \<times> u16" where
  "ib_find_cached_pkey port_valid cache key index =
     (if \<not> port_valid then (- EINVAL, index)
      else case cache of None \<Rightarrow> (- ENOENT, 0xffff)
      | Some table \<Rightarrow> (case pkey_loop key 0 table None of None \<Rightarrow> (- ENOENT, 0xffff) | Some i \<Rightarrow> (0, of_nat i)))"

section \<open>The state polling works on\<close>

text \<open>
  Queue pairs by number, shared receive queues by handle and by number, signature contexts by memory
  key index, the software completions, and the lists of queue pairs of the completion queue.
\<close>

record poll_qp =
  qp_sq :: mlx5_wq
  qp_rq :: mlx5_wq
  qp_srq :: "nat option"
  qp_xrcd :: bool
  pqp_type :: ib_qp_type
  qp_port_valid :: bool

record poll_state =
  st_cq :: mlx5_ib_cq
  st_qps :: "u32 \<Rightarrow> poll_qp option"
  st_srqs :: "nat \<Rightarrow> mlx5_ib_srq option"
  st_srq_of :: "u32 \<Rightarrow> nat option"
  st_sigs :: "u32 \<Rightarrow> mlx5_core_sig_ctx option"
  st_ethernet :: bool
  st_pkeys :: "u16 list option"
  st_soft :: "ib_wc list"
  st_send_qps :: "u32 list"
  st_recv_qps :: "u32 list"

abbreviation set_qp :: "u32 \<Rightarrow> poll_qp \<Rightarrow> poll_state \<Rightarrow> poll_state" where
  "set_qp qpn qp st \<equiv> st\<lparr>st_qps := (st_qps st)(qpn \<mapsto> qp)\<rparr>"

section \<open>Receive completions\<close>

text \<open>A receive entry of a shared receive queue: its request, and the entry returned to the free list.\<close>

definition srq_complete :: "poll_state \<Rightarrow> nat \<Rightarrow> u16 \<Rightarrow> (u64 \<times> poll_state) option" where
  "srq_complete st h ctr = do {
     srq \<leftarrow> st_srqs st h;
     wr_id \<leftarrow> nth_opt (srq_wrid srq) (unat ctr);
     srq \<leftarrow> mlx5_ib_free_srq_wqe srq (unat ctr);
     Some (wr_id, st\<lparr>st_srqs := (st_srqs st)(h \<mapsto> srq)\<rparr>)
   }"

definition rq_complete :: "poll_state \<Rightarrow> u32 \<Rightarrow> poll_qp \<Rightarrow> (u64 \<times> poll_state) option" where
  "rq_complete st qpn qp = do {
     (wr_id, rq) \<leftarrow> recv_complete (qp_rq qp);
     Some (wr_id, set_qp qpn (qp\<lparr>qp_rq := rq\<rparr>) st)
   }"

definition resp_request :: "poll_state \<Rightarrow> u32 \<Rightarrow> poll_qp \<Rightarrow> block \<Rightarrow> (u64 \<times> poll_state) option" where
  "resp_request st qpn qp c =
     (if qp_xrcd qp then do { h \<leftarrow> st_srq_of st (srqn c); srq_complete st h (wqe_counter c) }
      else case qp_srq qp of
        Some h \<Rightarrow> srq_complete st h (wqe_counter c)
      | None \<Rightarrow> rq_complete st qpn qp)"

definition resp_opcode :: "block \<Rightarrow> ib_wc \<Rightarrow> ib_wc" where
  "resp_opcode c wc =
     (let op = get_cqe_opcode c in
      if op = MLX5_CQE_RESP_WR_IMM then
        wc\<lparr>wc_opcode := IB_WC_RECV_RDMA_WITH_IMM, wc_flags := IB_WC_WITH_IMM, wc_ex := cqe_immediate c\<rparr>
      else if op = MLX5_CQE_RESP_SEND then
        wc\<lparr>wc_opcode := IB_WC_RECV, wc_flags :=
          (if cqe_hds_ip_ext c AND 2 \<noteq> 0 \<and> cqe_hds_ip_ext c AND 4 \<noteq> 0 then IB_WC_IP_CSUM_OK else 0)\<rparr>
      else if op = MLX5_CQE_RESP_SEND_IMM then
        wc\<lparr>wc_opcode := IB_WC_RECV, wc_flags := IB_WC_WITH_IMM, wc_ex := cqe_immediate c\<rparr>
      else if op = MLX5_CQE_RESP_SEND_INV then
        wc\<lparr>wc_opcode := IB_WC_RECV, wc_flags := IB_WC_WITH_INVALIDATE, wc_ex := cqe_immediate c\<rparr>
      else wc)"

definition resp_address :: "poll_state \<Rightarrow> poll_qp \<Rightarrow> block \<Rightarrow> ib_wc \<Rightarrow> ib_wc" where
  "resp_address st qp c wc =
     (let f = cqe_flags_rqpn c;
          wc = wc\<lparr>src_qp := f AND 0xffffff, dlid_path_bits := cqe_ml_path c,
            wc_flags := wc_flags wc OR (if drop_bit 28 f AND 3 \<noteq> 0 then IB_WC_GRH else 0),
            pkey_index := (if pqp_type qp = MLX5_IB_QPT_HW_GSI
              then snd (ib_find_cached_pkey (qp_port_valid qp) (st_pkeys st) (ucast (cqe_immediate c)) (pkey_index wc))
              else 0)\<rparr> in
      if \<not> st_ethernet st then wc\<lparr>wc_slid := ucast (cqe_slid c), wc_sl := ucast (drop_bit 24 f AND 0xf)\<rparr>
      else
        let v = cqe_vlan_info c; t = drop_bit 24 f AND 3;
            wc = (if cqe_l4_l3_hdr_type c AND 1 \<noteq> 0
              then wc\<lparr>wc_slid := 0, vlan_id := v AND 0xfff, wc_sl := ucast (drop_bit 13 v AND 7),
                wc_flags := wc_flags wc OR IB_WC_WITH_VLAN\<rparr>
              else wc\<lparr>wc_slid := 0, wc_sl := 0\<rparr>);
            wc = (if t = 0 then wc\<lparr>network_hdr_type := RDMA_NETWORK_IB\<rparr>
              else if t = 1 then wc\<lparr>network_hdr_type := RDMA_NETWORK_IPV6\<rparr>
              else if t = 2 then wc\<lparr>network_hdr_type := RDMA_NETWORK_IPV4\<rparr> else wc) in
        wc\<lparr>wc_flags := wc_flags wc OR IB_WC_WITH_NETWORK_HDR_TYPE\<rparr>)"

definition handle_responder :: "poll_state \<Rightarrow> u32 \<Rightarrow> poll_qp \<Rightarrow> block \<Rightarrow> ib_wc \<Rightarrow> (ib_wc \<times> poll_state) option" where
  "handle_responder st qpn qp c wc = do {
     (wr_id, st) \<leftarrow> resp_request st qpn qp c;
     Some (resp_address st qp c (resp_opcode c (wc\<lparr>wc_wr_id := wr_id, wc_byte_len := cqe_byte_cnt c\<rparr>)), st)
   }"

section \<open>One completion\<close>

definition poll_req :: "poll_state \<Rightarrow> u32 \<Rightarrow> poll_qp \<Rightarrow> block \<Rightarrow> ib_wc \<Rightarrow> (ib_wc \<times> poll_state) option" where
  "poll_req st qpn qp c wc = do {
     data \<leftarrow> nth_opt (wr_data (qp_sq qp)) (wq_index (qp_sq qp) (ucast (wqe_counter c)));
     (wr_id, sq) \<leftarrow> send_complete (qp_sq qp) (wqe_counter c);
     Some ((handle_good_req wc c data)\<lparr>wc_wr_id := wr_id,
         wc_status := (if data = MLX5_IB_WR_SIG_CANCELED then IB_WC_SIG_PIPELINE_CANCELED else IB_WC_SUCCESS)\<rparr>,
       set_qp qpn (qp\<lparr>qp_sq := sq\<rparr>) st)
   }"

definition poll_err :: "poll_state \<Rightarrow> u32 \<Rightarrow> poll_qp \<Rightarrow> block \<Rightarrow> ib_wc \<Rightarrow> (ib_wc \<times> poll_state) option" where
  "poll_err st qpn qp c wc = do {
     (wr_id, st) \<leftarrow>
       (if get_cqe_opcode c = MLX5_CQE_REQ_ERR then do {
          (wr_id, sq) \<leftarrow> send_error (qp_sq qp) (wqe_counter c);
          Some (wr_id, set_qp qpn (qp\<lparr>qp_sq := sq\<rparr>) st)
        } else case qp_srq qp of
          Some h \<Rightarrow> srq_complete st h (wqe_counter c)
        | None \<Rightarrow> rq_complete st qpn qp);
     Some ((mlx5_handle_error_cqe c wc)\<lparr>wc_wr_id := wr_id\<rparr>, st)
   }"

definition poll_sig_err :: "poll_state \<Rightarrow> block \<Rightarrow> poll_state option" where
  "poll_sig_err st c = do {
     let idx = drop_bit 8 (sig_mkey c);
     sig \<leftarrow> st_sigs st idx;
     Some (st\<lparr>st_sigs := (st_sigs st)(idx \<mapsto> sig\<lparr>err_item := get_sig_err_item c (err_item sig), sig_err_exists := True,
       sigerr_count := sigerr_count sig + 1\<rparr>)\<rparr>)
   }"

text \<open>
  The body of \<^verbatim>\<open>mlx5_poll_one\<close> for an entry taken from the queue; the first component tells whether the
  next entry is to be polled as well (\<^verbatim>\<open>goto repoll\<close>).
\<close>

definition poll_cqe :: "poll_state \<Rightarrow> block \<Rightarrow> ib_wc \<Rightarrow> (bool \<times> ib_wc \<times> poll_state) option" where
  "poll_cqe st c wc =
     (let op = get_cqe_opcode c; qpn = sop_drop_qpn c AND 0xffffff; cq = st_cq st in
      if op = MLX5_CQE_RESIZE_CQ \<and> resize_buf cq \<noteq> None
      then Some (True, wc, st\<lparr>st_cq := cq\<lparr>buf := the (resize_buf cq), resize_buf := None\<rparr>\<rparr>)
      else do {
        qp \<leftarrow> st_qps st qpn;
        let wc = wc\<lparr>wc_qp := qpn\<rparr>;
        if op = MLX5_CQE_REQ then map_option (Pair False) (poll_req st qpn qp c wc)
        else if op \<in> {MLX5_CQE_RESP_WR_IMM, MLX5_CQE_RESP_SEND, MLX5_CQE_RESP_SEND_IMM, MLX5_CQE_RESP_SEND_INV} then
          map_option (\<lambda>(wc, st). (False, wc\<lparr>wc_status := IB_WC_SUCCESS\<rparr>, st)) (handle_responder st qpn qp c wc)
        else if op = MLX5_CQE_REQ_ERR \<or> op = MLX5_CQE_RESP_ERR then map_option (Pair False) (poll_err st qpn qp c wc)
        else if op = MLX5_CQE_SIG_ERR then map_option (\<lambda>st. (True, wc, st)) (poll_sig_err st c)
        else Some (False, wc, st)
      })"

partial_function (option) mlx5_poll_one :: "poll_state \<Rightarrow> ib_wc \<Rightarrow> (int \<times> ib_wc \<times> poll_state) option" where
  "mlx5_poll_one st wc =
     Option.bind (next_cqe_sw (st_cq st)) (\<lambda>e.
       if e = None then Some (- EAGAIN, wc, st)
       else Option.bind (poll_cqe (st\<lparr>st_cq := (st_cq st)\<lparr>cons_index := cons_index (st_cq st) + 1\<rparr>\<rparr>)
           (cqe64_of (cqe_sz (st_cq st)) (the e)) wc)
         (\<lambda>(again, wc, st). if again then mlx5_poll_one st wc else Some (0, wc, st)))"

section \<open>Polling\<close>

text \<open>The array of work completions is a list; the result counts the entries written.\<close>

fun poll_loop :: "poll_state \<Rightarrow> ib_wc list \<Rightarrow> (nat \<times> ib_wc list \<times> poll_state) option" where
  "poll_loop st [] = Some (0, [], st)"
| "poll_loop st (wc # wcs) = do {
     (err, wc, st) \<leftarrow> mlx5_poll_one st wc;
     if err \<noteq> 0 then Some (0, wc # wcs, st)
     else do { (n, wcs, st) \<leftarrow> poll_loop st wcs; Some (n + 1, wc # wcs, st) }
   }"

definition flush_wc :: "u32 \<Rightarrow> u64 \<Rightarrow> ib_wc \<Rightarrow> ib_wc" where
  "flush_wc qpn wr_id wc = wc\<lparr>wc_wr_id := wr_id, wc_status := IB_WC_WR_FLUSH_ERR,
     vendor_err := ucast MLX5_CQE_SYNDROME_WR_FLUSH_ERR, wc_qp := qpn\<rparr>"

fun flush_qps :: "bool \<Rightarrow> u32 list \<Rightarrow> poll_state \<Rightarrow> ib_wc list \<Rightarrow> (ib_wc list \<times> ib_wc list \<times> poll_state) option" where
  "flush_qps is_send [] st wcs = Some ([], wcs, st)"
| "flush_qps is_send (qpn # qpns) st wcs = do {
     qp \<leftarrow> st_qps st qpn;
     (ids, wq) \<leftarrow> sw_comp is_send (length wcs) (if is_send then qp_sq qp else qp_rq qp);
     let st = set_qp qpn (if is_send then qp\<lparr>qp_sq := wq\<rparr> else qp\<lparr>qp_rq := wq\<rparr>) st;
     let flushed = map2 (flush_wc qpn) ids wcs;
     let rest = drop (length ids) wcs;
     if rest = [] then Some (flushed, rest, st)
     else do { (more, rest, st) \<leftarrow> flush_qps is_send qpns st rest; Some (flushed @ more, rest, st) }
   }"

definition mlx5_ib_poll_sw_comp :: "poll_state \<Rightarrow> ib_wc list \<Rightarrow> (ib_wc list \<times> ib_wc list \<times> poll_state) option" where
  "mlx5_ib_poll_sw_comp st wcs = do {
     (sent, rest, st) \<leftarrow> flush_qps True (st_send_qps st) st wcs;
     if rest = [] then Some (sent, rest, st)
     else do { (recvd, rest, st) \<leftarrow> flush_qps False (st_recv_qps st) st rest; Some (sent @ recvd, rest, st) }
   }"

definition poll_soft_wc :: "bool \<Rightarrow> nat \<Rightarrow> poll_state \<Rightarrow> ib_wc list \<times> poll_state" where
  "poll_soft_wc fatal n st =
     (map (\<lambda>wc. if fatal then wc\<lparr>wc_status := IB_WC_WR_FLUSH_ERR, vendor_err := ucast MLX5_CQE_SYNDROME_WR_FLUSH_ERR\<rparr> else wc)
        (take n (st_soft st)), st\<lparr>st_soft := drop n (st_soft st)\<rparr>)"

definition mlx5_ib_poll_cq :: "bool \<Rightarrow> poll_state \<Rightarrow> ib_wc list \<Rightarrow> (nat \<times> ib_wc list \<times> poll_state) option" where
  "mlx5_ib_poll_cq internal_error st wcs =
     (let (soft, st) = poll_soft_wc internal_error (length wcs) st; wcs = drop (length soft) wcs in
      if internal_error then do {
        (flushed, rest, st) \<leftarrow> mlx5_ib_poll_sw_comp st wcs;
        Some (length soft + length flushed, soft @ flushed @ rest, st)
      } else do {
        (n, wcs, st) \<leftarrow> poll_loop st wcs;
        Some (length soft + n, soft @ wcs, if n \<noteq> 0 then st\<lparr>st_cq := mlx5_cq_set_ci (st_cq st)\<rparr> else st)
      })"

section \<open>Taking an entry from the ring\<close>

abbreviation consume :: "mlx5_ib_cq \<Rightarrow> mlx5_ib_cq" where
  "consume cq \<equiv> cq\<lparr>cons_index := cons_index cq + 1\<rparr>"

lemma consume_facts:
  "cq_wf k (consume cq) = cq_wf k cq" "is_sw (consume cq) n = is_sw cq n" "slot_at (consume cq) n = slot_at cq n"
  by (simp_all add: cq_wf_def is_sw_def slot_at_def get_sw_cqe_def get_cqe_def)

lemma next_cqe_sw_pending:
  assumes "cq_wf k cq"
  shows "next_cqe_sw cq = Some (if pending cq = [] then None else Some (slot_at cq (cons_index cq)))"
proof -
  have "is_sw cq (cons_index cq) \<longleftrightarrow> pending cq \<noteq> []"
    using sw_countD(1) [OF assms, of 0] sw_countD(2) [OF assms] pending_length [of cq] by fastforce
  then show ?thesis using ring_slot_in(2) [OF assms, of "cons_index cq"]
    by (auto simp: next_cqe_sw_def is_sw_def get_sw_cqe_def Let_def split: if_splits)
qed

lemma pending_consume:
  assumes "cq_wf k cq" "pending cq = c # cs" "length (pending cq) < 2 ^ k"
  shows "pending (consume cq) = cs" "c = strip_own (cqe_sz cq) (slot_at cq (cons_index cq))"
proof -
  have n: "sw_count cq = Suc (length cs)" "sw_count cq < 2 ^ k" using assms(2,3) pending_length [of cq] by simp_all
  have "sw_count (consume cq) = length cs"
  proof (rule sw_count_eqI [of k])
    show "cq_wf k (consume cq)" "length cs < 2 ^ k" using assms(1) n by (simp_all add: consume_facts)
    show "is_sw (consume cq) (cons_index (consume cq) + of_nat i)" if "i < length cs" for i
      using sw_countD(1) [OF assms(1), of "Suc i"] that n by (simp add: consume_facts add.assoc)
    show "\<not> is_sw (consume cq) (cons_index (consume cq) + of_nat (length cs))"
      using sw_countD(2) [OF assms(1) n(2)] n by (simp add: consume_facts add.assoc)
  qed
  moreover have "c # cs = map (\<lambda>i. strip_own (cqe_sz cq) (slot_at cq (cons_index cq + of_nat i))) [0..<Suc (length cs)]"
    using assms(2) n(1) by (simp add: pending_def)
  then have "c = strip_own (cqe_sz cq) (slot_at cq (cons_index cq))"
    "cs = map (\<lambda>i. strip_own (cqe_sz cq) (slot_at cq (cons_index cq + of_nat (Suc i)))) [0..<length cs]"
    by (simp_all add: upt_conv_Cons map_Suc_upt [symmetric] comp_def del: upt_Suc)
  ultimately show "pending (consume cq) = cs" "c = strip_own (cqe_sz cq) (slot_at cq (cons_index cq))"
    by (simp_all add: pending_def consume_facts add.assoc)
qed


section \<open>Receive completions, told apart by queue pair\<close>

definition recv_entry :: "block \<Rightarrow> bool" where
  "recv_entry c \<longleftrightarrow> get_cqe_opcode c \<in> {MLX5_CQE_RESP_WR_IMM, MLX5_CQE_RESP_SEND, MLX5_CQE_RESP_SEND_IMM, MLX5_CQE_RESP_SEND_INV}"

definition entry_qpn :: "block \<Rightarrow> u32" where
  "entry_qpn c = sop_drop_qpn c AND 0xffffff"

definition plain_rqs :: "poll_state \<Rightarrow> (u32 \<Rightarrow> u64 list) \<Rightarrow> u32 set \<Rightarrow> bool" where
  "plain_rqs st Q ns \<longleftrightarrow> (\<forall>n \<in> ns. \<exists>qp. st_qps st n = Some qp \<and> \<not> qp_xrcd qp \<and> qp_srq qp = None \<and> rq_holds (qp_rq qp) (Q n))"

definition entries :: "mlx5_ib_cq \<Rightarrow> block list" where
  "entries cq = map (cqe64_of (cqe_sz cq)) (pending cq)"

text \<open>The reference: each number takes the first identifier of its queue.\<close>

primrec demux :: "(u32 \<Rightarrow> u64 list) \<Rightarrow> u32 list \<Rightarrow> u64 list \<times> (u32 \<Rightarrow> u64 list)" where
  "demux Q [] = ([], Q)"
| "demux Q (n # ns) = (let (ids, Q') = demux (Q(n := tl (Q n))) ns in (hd (Q n) # ids, Q'))"

definition recv_stream :: "poll_state \<Rightarrow> (u32 \<Rightarrow> u64 list) \<Rightarrow> u32 set \<Rightarrow> bool" where
  "recv_stream st Q N \<longleftrightarrow> (\<exists>k. cq_wf k (st_cq st) \<and> length (pending (st_cq st)) < 2 ^ k) \<and>
     (\<forall>e \<in> set (entries (st_cq st)). recv_entry e \<and> entry_qpn e \<in> N) \<and> plain_rqs st Q N \<and>
     (\<forall>n. count_list (map entry_qpn (entries (st_cq st))) n \<le> length (Q n))"

lemma strip_members:
  assumes "cqe_ok sz c"
  shows "get_cqe_opcode (cqe64_of sz (strip_own sz c)) = get_cqe_opcode (cqe64_of sz c)"
    "entry_qpn (cqe64_of sz (strip_own sz c)) = entry_qpn (cqe64_of sz c)"
    "cqe_byte_cnt (cqe64_of sz (strip_own sz c)) = cqe_byte_cnt (cqe64_of sz c)"
  using assms move_onto(5) [OF assms]
  by (simp_all add: ent_op_def entry_qpn_def sop_drop_qpn_def cqe_byte_cnt_def rd32_def strip_own_def)

lemma responder_report:
  "wc_wr_id (resp_address st qp c (resp_opcode c wc)) = wc_wr_id wc"
  "wc_qp (resp_address st qp c (resp_opcode c wc)) = wc_qp wc"
  "wc_byte_len (resp_address st qp c (resp_opcode c wc)) = wc_byte_len wc"
  by (simp_all add: resp_address_def resp_opcode_def Let_def)

lemma handle_responder_rq:
  assumes "st_qps st n = Some qp" "\<not> qp_xrcd qp" "qp_srq qp = None" "rq_holds (qp_rq qp) (x # q)"
  shows "\<exists>wc' rq. handle_responder st n qp c wc = Some (wc', set_qp n (qp\<lparr>qp_rq := rq\<rparr>) st) \<and> wc_wr_id wc' = x \<and>
    wc_qp wc' = wc_qp wc \<and> wc_byte_len wc' = cqe_byte_cnt c \<and> rq_holds rq q"
  using rq.step_first [OF assms(4)] assms
  by (auto simp: handle_responder_def resp_request_def rq_complete_def responder_report)

lemma poll_one_recv:
  assumes s: "recv_stream st Q N" and e: "entries (st_cq st) = c # cs"
  shows "\<exists>wc' st'. mlx5_poll_one st wc = Some (0, wc', st') \<and> wc_wr_id wc' = hd (Q (entry_qpn c)) \<and> wc_qp wc' = entry_qpn c \<and>
    wc_byte_len wc' = cqe_byte_cnt c \<and> wc_status wc' = IB_WC_SUCCESS \<and> entries (st_cq st') = cs \<and>
    st_cq st' = consume (st_cq st) \<and> st_soft st' = st_soft st \<and>
    recv_stream st' (Q(entry_qpn c := tl (Q (entry_qpn c)))) N"
proof -
  define cq sz raw n where "cq = st_cq st" and "sz = cqe_sz cq" and "raw = slot_at cq (cons_index cq)" and "n = entry_qpn c"
  obtain k where k: "cq_wf k cq" "length (pending cq) < 2 ^ k" using s by (auto simp: recv_stream_def cq_def)
  obtain b bs where p: "pending cq = b # bs" "c = cqe64_of sz b" "cs = map (cqe64_of sz) bs"
    using e by (auto simp: entries_def cq_def sz_def)
  have t: "pending (consume cq) = bs" "b = strip_own sz raw"
    using pending_consume [OF k(1) p(1) k(2)] by (simp_all add: sz_def raw_def)
  have ok: "cqe_ok sz raw" using ring_slot_in(3) [OF k(1)] by (simp add: sz_def raw_def)
  have nx: "next_cqe_sw cq = Some (Some raw)" using next_cqe_sw_pending [OF k(1)] p(1) by (simp add: raw_def)
  have c: "recv_entry c" "n \<in> N" "\<forall>e \<in> set cs. recv_entry e \<and> entry_qpn e \<in> N"
    using s e by (auto simp: recv_stream_def n_def)
  have cnt: "count_list (n # map entry_qpn cs) m \<le> length (Q m)" for m using s e by (simp add: recv_stream_def n_def)
  obtain x q where q: "Q n = x # q" using cnt [of n] by (cases "Q n") auto
  obtain qp where qp: "st_qps st n = Some qp" "\<not> qp_xrcd qp" "qp_srq qp = None" "rq_holds (qp_rq qp) (x # q)"
    using s c(2) q by (auto simp: recv_stream_def plain_rqs_def)
  let ?st = "st\<lparr>st_cq := consume cq\<rparr>"
  have "recv_entry (cqe64_of sz raw)" "entry_qpn (cqe64_of sz raw) = n" "cqe_byte_cnt (cqe64_of sz raw) = cqe_byte_cnt c"
    using c(1) strip_members [OF ok] by (simp_all add: recv_entry_def p(2) t(2) n_def)
  note raw = this
  obtain wc' rq where h: "handle_responder ?st n qp (cqe64_of sz raw) (wc\<lparr>wc_qp := n\<rparr>) = Some (wc', set_qp n (qp\<lparr>qp_rq := rq\<rparr>) ?st)"
    "wc_wr_id wc' = x" "wc_qp wc' = n" "wc_byte_len wc' = cqe_byte_cnt c" "rq_holds rq q"
    using handle_responder_rq [of ?st n qp x q "cqe64_of sz raw" "wc\<lparr>wc_qp := n\<rparr>"] qp raw(3) by auto
  let ?st' = "set_qp n (qp\<lparr>qp_rq := rq\<rparr>) ?st"
  have "poll_cqe ?st (cqe64_of sz raw) wc = Some (False, wc'\<lparr>wc_status := IB_WC_SUCCESS\<rparr>, ?st')"
    using raw(1) h(1) qp(1) raw(2)
    by (auto simp: poll_cqe_def recv_entry_def entry_qpn_def Let_def MLX5_CQE_RESIZE_CQ_def MLX5_CQE_REQ_def
        MLX5_CQE_RESP_WR_IMM_def MLX5_CQE_RESP_SEND_def MLX5_CQE_RESP_SEND_IMM_def MLX5_CQE_RESP_SEND_INV_def)
  then have "mlx5_poll_one st wc = Some (0, wc'\<lparr>wc_status := IB_WC_SUCCESS\<rparr>, ?st')"
    using nx by (subst mlx5_poll_one.simps) (simp flip: cq_def sz_def)
  moreover have "entries (st_cq ?st') = cs" using t(1) p(3) by (simp add: entries_def sz_def)
  moreover have "count_list (map entry_qpn cs) m \<le> length ((Q(n := q)) m)" for m using cnt [of m] q by (auto split: if_splits)
  then have "recv_stream ?st' (Q(n := q)) N"
    using k t(1) p(1) c calculation(2) s h(5) qp
    by (auto simp: recv_stream_def plain_rqs_def consume_facts intro!: exI [of _ k])
  ultimately show ?thesis using h q by (auto simp: n_def cq_def)
qed


lemma poll_one_empty:
  "recv_stream st Q N \<Longrightarrow> entries (st_cq st) = [] \<Longrightarrow> mlx5_poll_one st wc = Some (- EAGAIN, wc, st)"
  by (subst mlx5_poll_one.simps) (auto simp: recv_stream_def entries_def dest: next_cqe_sw_pending)

text \<open>What the work completions of receive entries are to say.\<close>

definition reports :: "(u32 \<Rightarrow> u64 list) \<Rightarrow> block list \<Rightarrow> ib_wc list \<Rightarrow> bool" where
  "reports Q es wcs \<longleftrightarrow> map wc_wr_id wcs = fst (demux Q (map entry_qpn es)) \<and> map wc_qp wcs = map entry_qpn es \<and>
     map wc_byte_len wcs = map cqe_byte_cnt es \<and> (\<forall>wc \<in> set wcs. wc_status wc = IB_WC_SUCCESS)"

abbreviation still_queued :: "(u32 \<Rightarrow> u64 list) \<Rightarrow> block list \<Rightarrow> u32 \<Rightarrow> u64 list" where
  "still_queued Q es \<equiv> snd (demux Q (map entry_qpn es))"

lemma poll_loop_recv:
  assumes "recv_stream st Q N" "es = take (length wcs) (entries (st_cq st))"
  shows "\<exists>wcs' st'. poll_loop st wcs = Some (length es, wcs' @ drop (length es) wcs, st') \<and> reports Q es wcs' \<and>
    entries (st_cq st') = drop (length es) (entries (st_cq st)) \<and> st_soft st' = st_soft st \<and>
    cons_index (st_cq st') = cons_index (st_cq st) + of_nat (length es) \<and> recv_stream st' (still_queued Q es) N"
  using assms
proof (induction wcs arbitrary: st Q es)
  case Nil
  then show ?case by (simp add: reports_def)
next
  case (Cons wc wcs)
  show ?case
  proof (cases "entries (st_cq st)")
    case Nil
    then show ?thesis using Cons.prems poll_one_empty [OF Cons.prems(1) Nil, of wc]
      by (auto simp: EAGAIN_def reports_def)
  next
    case E: (Cons c cs)
    let ?n = "entry_qpn c" and ?es = "take (length wcs) cs"
    from poll_one_recv [OF Cons.prems(1) E, of wc] obtain wc' st1 where one: "mlx5_poll_one st wc = Some (0, wc', st1)"
      "wc_wr_id wc' = hd (Q ?n)" "wc_qp wc' = ?n" "wc_byte_len wc' = cqe_byte_cnt c"
      "wc_status wc' = IB_WC_SUCCESS" "entries (st_cq st1) = cs" "st_cq st1 = consume (st_cq st)" "st_soft st1 = st_soft st"
      "recv_stream st1 (Q(?n := tl (Q ?n))) N" by blast
    from Cons.IH [OF one(9) refl, unfolded one(6)] obtain wcs' st' where
      IH: "poll_loop st1 wcs = Some (length ?es, wcs' @ drop (length ?es) wcs, st')" "reports (Q(?n := tl (Q ?n))) ?es wcs'"
      "entries (st_cq st') = drop (length ?es) cs" "st_soft st' = st_soft st1"
      "cons_index (st_cq st') = cons_index (st_cq st1) + of_nat (length ?es)" "recv_stream st' (still_queued (Q(?n := tl (Q ?n))) ?es) N"
      by blast
    have es: "es = c # ?es" using Cons.prems(2) E by simp
    have "poll_loop st (wc # wcs) = Some (length es, (wc' # wcs') @ drop (length es) (wc # wcs), st')"
      using one(1) IH(1) es by simp
    moreover have "reports Q es (wc' # wcs')" using IH(2) one(2-5) unfolding es by (simp add: reports_def split_beta Let_def)
    moreover have "recv_stream st' (still_queued Q es) N" using IH(6) unfolding es by (simp add: split_beta Let_def)
    moreover have "cons_index (st_cq st') = cons_index (st_cq st) + of_nat (length es)"
      using IH(5) one(7) unfolding es by simp
    moreover have "entries (st_cq st') = drop (length es) (entries (st_cq st))" using IH(3) E unfolding es by simp
    ultimately show ?thesis using IH(4) one(8) by auto
  qed
qed

lemma pending_set_ci [simp]: "pending (mlx5_cq_set_ci cq) = pending cq"
  by (simp add: pending_def sw_count_def is_sw_def get_sw_cqe_def get_cqe_def slot_at_def mlx5_cq_set_ci_def)

lemma entries_set_ci [simp]: "entries (mlx5_cq_set_ci cq) = entries cq"
  by (simp add: entries_def) (simp add: mlx5_cq_set_ci_def)

lemma recv_stream_set_ci: "recv_stream st Q N \<Longrightarrow> recv_stream (st\<lparr>st_cq := mlx5_cq_set_ci (st_cq st)\<rparr>) Q N"
  by (simp add: recv_stream_def plain_rqs_def cq_wf_def) (simp add: mlx5_cq_set_ci_def)

lemma poll_cq_stream:
  assumes s: "recv_stream st Q N" and soft: "st_soft st = []" and es: "es = take (length wcs) (entries (st_cq st))"
  shows "\<exists>wcs' st'. mlx5_ib_poll_cq False st wcs = Some (length es, wcs' @ drop (length es) wcs, st') \<and> reports Q es wcs' \<and>
    entries (st_cq st') = drop (length es) (entries (st_cq st)) \<and> recv_stream st' (still_queued Q es) N \<and> st_soft st' = [] \<and>
    (es \<noteq> [] \<longrightarrow> set_ci_db (st_cq st') = (cons_index (st_cq st) + of_nat (length es)) AND 0xffffff)"
proof -
  obtain wcs' st' where p: "poll_loop st wcs = Some (length es, wcs' @ drop (length es) wcs, st')" "reports Q es wcs'"
    "entries (st_cq st') = drop (length es) (entries (st_cq st))" "st_soft st' = st_soft st"
    "cons_index (st_cq st') = cons_index (st_cq st) + of_nat (length es)" "recv_stream st' (still_queued Q es) N"
    using poll_loop_recv [OF s es] by blast
  have eq: "st\<lparr>st_soft := []\<rparr> = st" using soft by (cases st) simp
  have "poll_loop (st\<lparr>st_soft := []\<rparr>) wcs = Some (length es, wcs' @ drop (length es) wcs, st')" by (subst eq) (rule p(1))
  then have "mlx5_ib_poll_cq False st wcs = Some (length es, wcs' @ drop (length es) wcs,
      if es \<noteq> [] then st'\<lparr>st_cq := mlx5_cq_set_ci (st_cq st')\<rparr> else st')"
    using soft by (simp add: mlx5_ib_poll_cq_def poll_soft_wc_def)
  moreover have "set_ci_db (mlx5_cq_set_ci (st_cq st')) = (cons_index (st_cq st) + of_nat (length es)) AND 0xffffff"
    using p(5) by (simp add: mlx5_cq_set_ci_def)
  ultimately show ?thesis using p(2-4,6) recv_stream_set_ci [OF p(6)] soft by (cases "es = []") auto
qed

text \<open>
  C12. Polling hands every receive completion to the request it belongs to.  When the entries waiting in the
  completion queue are receive completions of queue pairs with receive queues of their own, in any
  interleaving, a poll with room for \<open>n\<close> reports the first \<open>n\<close> of them in order: each with the oldest
  outstanding request of its own queue pair, with the byte count of the entry and with success.  The other
  completions and requests stay queued, the unused part of the array is untouched, and the doorbell
  record shows the new consumer index.
\<close>

theorem poll_cq_receives:
  assumes "cq_wf k (st_cq st)" and "length (pending (st_cq st)) < 2 ^ k" and "st_soft st = []"
    and "\<forall>e \<in> set (entries (st_cq st)). recv_entry e" and "N = entry_qpn ` set (entries (st_cq st))"
    and "plain_rqs st Q N" and "\<forall>n. count_list (map entry_qpn (entries (st_cq st))) n \<le> length (Q n)"
    and "es = take (length wcs) (entries (st_cq st))"
  shows "\<exists>wcs' st'. mlx5_ib_poll_cq False st wcs = Some (length es, wcs' @ drop (length es) wcs, st') \<and> reports Q es wcs' \<and>
    entries (st_cq st') = drop (length es) (entries (st_cq st)) \<and> plain_rqs st' (still_queued Q es) N \<and>
    (es \<noteq> [] \<longrightarrow> set_ci_db (st_cq st') = (cons_index (st_cq st) + of_nat (length es)) AND 0xffffff)"
proof -
  have "recv_stream st Q N" using assms by (auto simp: recv_stream_def)
  from poll_cq_stream [OF this assms(3,8)] show ?thesis by (auto simp: recv_stream_def)
qed

definition sample_poll_qp :: "u64 list \<Rightarrow> poll_qp" where
  "sample_poll_qp ids = \<lparr>qp_sq = sample_sq, qp_rq = sample_rq\<lparr>wq_wrid := [0, 0] @ ids, wq_head := 0\<rparr>, qp_srq = None, qp_xrcd = False,
     pqp_type = IB_QPT_RC, qp_port_valid = True\<rparr>"

definition sample_poll :: poll_state where
  "sample_poll = \<lparr>st_cq = sample_cq, st_qps = [7 \<mapsto> sample_poll_qp [70, 71], 9 \<mapsto> sample_poll_qp [90, 91]], st_srqs = Map.empty,
     st_srq_of = Map.empty, st_sigs = Map.empty, st_ethernet = False, st_pkeys = None, st_soft = [],
     st_send_qps = [7, 9], st_recv_qps = [9, 7]\<rparr>"

definition sample_wc :: ib_wc where
  "sample_wc = \<lparr>wc_wr_id = 0, wc_status = IB_WC_FATAL_ERR, wc_opcode = IB_WC_SEND, vendor_err = 0, wc_byte_len = 0, wc_qp = 0,
     wc_ex = 0, src_qp = 0, wc_slid = 0, wc_flags = 0, pkey_index = 0, wc_sl = 0, dlid_path_bits = 0, vlan_id = 0,
     network_hdr_type = 0\<rparr>"

lemma sample_rq_rep: "rq_rep 2 (qp_rq (sample_poll_qp [a, b])) 0 [a, b]"
  by (simp add: sample_poll_qp_def rq_rep_def rq_shape_def sample_rq_def All_less_Suc)

lemma sample_rq_holds: "rq_holds (qp_rq (sample_poll_qp [a, b])) [a, b]"
  using sample_rq_rep by (auto simp: rq_holds_def)

lemma sample_entries: "entries (st_cq sample_poll) = [sample_cqe 7 1 0x20, sample_cqe 9 2 0x20, sample_cqe 7 0 0x20]"
  by (simp add: entries_def sample_poll_def sample_cq_pending cqe64_of_def) (simp add: sample_cq_def)

lemma sample_entry: "entry_qpn (sample_cqe 7 n w) = 7" "entry_qpn (sample_cqe 9 n w) = 9"
  by (simp_all add: entry_qpn_def sample_cqe_fields)

definition sample_queues :: "u32 \<Rightarrow> u64 list" where
  "sample_queues = (\<lambda>n. if n = 7 then [70, 71] else if n = 9 then [90, 91] else [])"

lemma sample_stream:
  "map entry_qpn (entries (st_cq sample_poll)) = [7, 9, 7]" "{7, 9} = entry_qpn ` set (entries (st_cq sample_poll))"
  "cq_wf 2 (st_cq sample_poll)" "length (pending (st_cq sample_poll)) < 2 ^ 2" "st_soft sample_poll = []"
  "\<forall>e \<in> set (entries (st_cq sample_poll)). recv_entry e" "plain_rqs sample_poll sample_queues {7, 9}"
  "\<forall>n. count_list (map entry_qpn (entries (st_cq sample_poll))) n \<le> length (sample_queues n)"
proof -
  show q: "map entry_qpn (entries (st_cq sample_poll)) = [7, 9, 7]" by (simp add: sample_entries sample_entry)
  show "{7, 9} = entry_qpn ` set (entries (st_cq sample_poll))" using arg_cong [OF q, of set] by auto
  show "cq_wf 2 (st_cq sample_poll)" "length (pending (st_cq sample_poll)) < 2 ^ 2" "st_soft sample_poll = []"
    by (simp_all add: sample_poll_def sample_cq_wf sample_cq_pending)
  show "\<forall>e \<in> set (entries (st_cq sample_poll)). recv_entry e"
    by (simp add: sample_entries recv_entry_def get_cqe_opcode_def sample_cqe_fields MLX5_CQE_RESP_SEND_def)
  show "plain_rqs sample_poll sample_queues {7, 9}"
    using sample_rq_holds by (auto simp: plain_rqs_def sample_poll_def sample_queues_def) (simp_all add: sample_poll_qp_def)
  show "\<forall>n. count_list (map entry_qpn (entries (st_cq sample_poll))) n \<le> length (sample_queues n)"
    unfolding q by (simp add: sample_queues_def)
qed

theorem poll_cq_receives_witness:
  "\<exists>wcs st'. mlx5_ib_poll_cq False sample_poll [sample_wc, sample_wc, sample_wc, sample_wc] = Some (3, wcs @ [sample_wc], st') \<and>
     map wc_wr_id wcs = [70, 90, 71] \<and> entries (st_cq st') = []"
proof -
  have "\<exists>wcs st'. mlx5_ib_poll_cq False sample_poll (replicate 4 sample_wc) = Some (3, wcs @ [sample_wc], st') \<and>
      reports sample_queues (entries (st_cq sample_poll)) wcs \<and> entries (st_cq st') = []"
    using poll_cq_receives [OF sample_stream(3-6,2,7,8), of "entries (st_cq sample_poll)" "replicate 4 sample_wc"]
    by (fastforce simp: sample_entries)
  moreover have "replicate 4 sample_wc = [sample_wc, sample_wc, sample_wc, sample_wc]" by (simp add: numeral_eq_Suc)
  moreover have "fst (demux sample_queues [7, 9, 7]) = [70, 90, 71]" by (simp add: sample_queues_def)
  ultimately show ?thesis by (auto simp: reports_def sample_stream(1))
qed

section \<open>Flushing\<close>

text \<open>Either queue of a queue pair, as the flush sees it.\<close>

definition qp_holds :: "bool \<Rightarrow> poll_qp \<Rightarrow> u64 list \<Rightarrow> bool" where
  "qp_holds is_send qp q \<longleftrightarrow> (if is_send then sq_holds (qp_sq qp) q else rq_holds (qp_rq qp) q)"

definition qps_hold :: "bool \<Rightarrow> poll_state \<Rightarrow> u32 list \<Rightarrow> (u32 \<Rightarrow> u64 list) \<Rightarrow> bool" where
  "qps_hold is_send st ns F \<longleftrightarrow> (\<forall>n \<in> set ns. \<exists>qp. st_qps st n = Some qp \<and> qp_holds is_send qp (F n))"

definition outstanding :: "(u32 \<Rightarrow> u64 list) \<Rightarrow> u32 list \<Rightarrow> (u32 \<times> u64) list" where
  "outstanding F ns = concat (map (\<lambda>n. map (Pair n) (F n)) ns)"

abbreviation wc_request :: "ib_wc \<Rightarrow> u32 \<times> u64" where
  "wc_request wc \<equiv> (wc_qp wc, wc_wr_id wc)"

definition flushed :: "ib_wc \<Rightarrow> bool" where
  "flushed wc \<longleftrightarrow> wc_status wc = IB_WC_WR_FLUSH_ERR \<and> vendor_err wc = ucast MLX5_CQE_SYNDROME_WR_FLUSH_ERR"

abbreviation with_wq :: "bool \<Rightarrow> poll_qp \<Rightarrow> mlx5_wq \<Rightarrow> poll_qp" where
  "with_wq is_send qp wq \<equiv> (if is_send then qp\<lparr>qp_sq := wq\<rparr> else qp\<lparr>qp_rq := wq\<rparr>)"

lemma sw_comp_takes:
  assumes "qp_holds is_send qp q"
  shows "\<exists>wq. sw_comp is_send room (if is_send then qp_sq qp else qp_rq qp) = Some (take room q, wq) \<and>
    qp_holds is_send (with_wq is_send qp wq) (drop room q)"
proof (cases is_send)
  case True
  then have h: "sq_holds (qp_sq qp) q" using assms by (simp add: qp_holds_def)
  then obtain k bb es where r: "sq_rep k bb (qp_sq qp) 0 es" "q = map snd es" by (auto simp: sq_holds_def)
  from sq_flush.take_steps_takes [OF h, of "min (length q) room"] sq_count [OF r(1)] r(2) True show ?thesis
    by (auto simp: sw_comp_def qp_holds_def min_def split: if_splits)
next
  case False
  then have h: "rq_holds (qp_rq qp) q" using assms by (simp add: qp_holds_def)
  then obtain k where r: "rq_rep k (qp_rq qp) 0 q" by (auto simp: rq_holds_def)
  from rq_flush.take_steps_takes [OF h, of "min (length q) room"] rq_count [OF r] False show ?thesis
    by (auto simp: sw_comp_def qp_holds_def min_def split: if_splits)
qed

lemma flush_wcs:
  assumes "length ids \<le> length wcs"
  shows "map wc_request (map2 (flush_wc n) ids wcs) = map (Pair n) ids" "\<forall>wc \<in> set (map2 (flush_wc n) ids wcs). flushed wc"
  using assms by (auto simp: flush_wc_def flushed_def list_eq_iff_nth_eq)

text \<open>The queues of the other kind, and the lists of queue pairs, are left alone.\<close>

definition same_but :: "bool \<Rightarrow> poll_state \<Rightarrow> poll_state \<Rightarrow> bool" where
  "same_but is_send st st' \<longleftrightarrow> st_send_qps st' = st_send_qps st \<and> st_recv_qps st' = st_recv_qps st \<and>
     (\<forall>ns F. qps_hold (\<not> is_send) st ns F \<longrightarrow> qps_hold (\<not> is_send) st' ns F)"

lemma same_but_refl [simp]: "same_but s st st"
  by (simp add: same_but_def)

lemma same_but_trans: "same_but s st st1 \<Longrightarrow> same_but s st1 st2 \<Longrightarrow> same_but s st st2"
  by (simp add: same_but_def)

lemma same_but_set_qp: "st_qps st n = Some qp \<Longrightarrow> same_but s st (set_qp n (with_wq s qp wq) st)"
  by (auto simp: same_but_def qps_hold_def qp_holds_def)

lemma flush_qps_takes:
  assumes "distinct ns" "qps_hold s st ns F"
  shows "\<exists>wcs' st'. flush_qps s ns st wcs = Some (wcs', drop (length wcs') wcs, st') \<and>
    map wc_request wcs' = take (length wcs) (outstanding F ns) \<and> (\<forall>wc \<in> set wcs'. flushed wc) \<and> same_but s st st'"
  using assms
proof (induction ns arbitrary: st wcs)
  case Nil
  then show ?case by (simp add: outstanding_def)
next
  case (Cons n ns)
  obtain qp where qp: "st_qps st n = Some qp" "qp_holds s qp (F n)" using Cons.prems(2) by (auto simp: qps_hold_def)
  obtain wq where wq: "sw_comp s (length wcs) (if s then qp_sq qp else qp_rq qp) = Some (take (length wcs) (F n), wq)"
    using sw_comp_takes [OF qp(2), of "length wcs"] by blast
  define ids st1 wcs1 where d: "ids = take (length wcs) (F n)" "st1 = set_qp n (with_wq s qp wq) st" "wcs1 = map2 (flush_wc n) ids wcs"
  have l: "length ids \<le> length wcs" "length wcs1 = length ids" by (simp_all add: d)
  have w: "map wc_request wcs1 = map (Pair n) ids" "\<forall>wc \<in> set wcs1. flushed wc" using flush_wcs [OF l(1)] by (simp_all only: d)
  have sb: "same_but s st st1" using same_but_set_qp [OF qp(1)] by (simp only: d)
  have o: "outstanding F (n # ns) = map (Pair n) (F n) @ outstanding F ns" by (simp add: outstanding_def)
  have "flush_qps s (n # ns) st wcs = (if drop (length ids) wcs = [] then Some (wcs1, drop (length ids) wcs, st1)
      else do { (more, r, st) \<leftarrow> flush_qps s ns st1 (drop (length ids) wcs); Some (wcs1 @ more, r, st) })"
    using qp(1) wq by (simp add: d Let_def)
  note step = this
  show ?case
  proof (cases "drop (length ids) wcs = []")
    case True
    then have "length wcs \<le> length (F n)" by (simp add: d(1))
    then have "take (length wcs) (outstanding F (n # ns)) = map (Pair n) ids" unfolding o by (simp add: d(1) take_map)
    then show ?thesis using step True w sb l by auto
  next
    case False
    then have ids: "ids = F n" by (simp add: d(1))
    have "qps_hold s st1 ns F" using Cons.prems by (auto simp: qps_hold_def d(2))
    from Cons.IH [OF _ this, of "drop (length ids) wcs"] Cons.prems(1) obtain more st' where
      IH: "flush_qps s ns st1 (drop (length ids) wcs) = Some (more, drop (length more) (drop (length ids) wcs), st')"
      "map wc_request more = take (length (drop (length ids) wcs)) (outstanding F ns)" "\<forall>wc \<in> set more. flushed wc" "same_but s st1 st'"
      by auto
    have "take (length wcs) (outstanding F (n # ns)) = map wc_request (wcs1 @ more)"
      unfolding o using False w(1) IH(2) ids by simp
    then show ?thesis using step False IH(1,3) w(2) l same_but_trans [OF sb IH(4)]
      by (intro exI [of _ "wcs1 @ more"] exI [of _ st']) (auto simp: add.commute)
  qed
qed

text \<open>
  C36. After a fatal device error, polling accounts for every outstanding request.  It reports the software
  completions, then the requests of the send queues, then those of the receive queues, in the order of
  the queue pairs on the lists and within each queue oldest first, every one with the flush
  error, as far as the array reaches.  The send queues are such that the device has not completed a request of them with an error
  before: after such a completion, the flush starts from an older request than it should.
\<close>

theorem poll_cq_flushes:
  assumes "distinct (st_send_qps st)" and "distinct (st_recv_qps st)"
    and "qps_hold True st (st_send_qps st) S" and "qps_hold False st (st_recv_qps st) R"
  shows "\<exists>wcs' st'. mlx5_ib_poll_cq True st wcs = Some (length wcs', wcs' @ drop (length wcs') wcs, st') \<and>
    map wc_request wcs' = take (length wcs)
      (map wc_request (st_soft st) @ outstanding S (st_send_qps st) @ outstanding R (st_recv_qps st)) \<and>
    (\<forall>wc \<in> set wcs'. flushed wc)"
proof -
  define soft st0 where d: "soft = fst (poll_soft_wc True (length wcs) st)" "st0 = snd (poll_soft_wc True (length wcs) st)"
  let ?n = "length soft" and ?wcs = "drop (length soft) wcs"
  have soft: "map wc_request soft = take (length wcs) (map wc_request (st_soft st))" "\<forall>wc \<in> set soft. flushed wc"
    by (auto simp: d poll_soft_wc_def flushed_def comp_def take_map)
  have eq: "st_send_qps st0 = st_send_qps st" "st_recv_qps st0 = st_recv_qps st" "qps_hold s st0 ns F = qps_hold s st ns F" for s ns F
    by (simp_all add: d poll_soft_wc_def qps_hold_def)
  obtain w1 st1 where f1: "flush_qps True (st_send_qps st0) st0 ?wcs = Some (w1, drop (length w1) ?wcs, st1)"
    "map wc_request w1 = take (length ?wcs) (outstanding S (st_send_qps st))" "\<forall>wc \<in> set w1. flushed wc" "same_but True st0 st1"
    using flush_qps_takes [of "st_send_qps st0" True st0 S ?wcs] assms(1,3) eq by auto
  have "qps_hold False st1 (st_recv_qps st1) R" "st_recv_qps st1 = st_recv_qps st"
    using f1(4) assms(4) eq by (auto simp: same_but_def)
  then obtain w2 st2 where f2: "flush_qps False (st_recv_qps st1) st1 (drop (length w1) ?wcs) =
      Some (w2, drop (length w2) (drop (length w1) ?wcs), st2)"
    "map wc_request w2 = take (length (drop (length w1) ?wcs)) (outstanding R (st_recv_qps st))" "\<forall>wc \<in> set w2. flushed wc"
    using flush_qps_takes [of "st_recv_qps st1" False st1 R "drop (length w1) ?wcs"] assms(2) by auto
  have "\<exists>st2. mlx5_ib_poll_sw_comp st0 ?wcs = Some (w1 @ w2, drop (length (w1 @ w2)) ?wcs, st2)"
  proof (cases "drop (length w1) ?wcs = []")
    case True
    then have "w2 = []" using f2(2) by auto
    with True f1(1) show ?thesis by (simp add: mlx5_ib_poll_sw_comp_def)
  next
    case False
    with f1(1) f2(1) show ?thesis by (auto simp: mlx5_ib_poll_sw_comp_def ac_simps)
  qed
  then have "\<exists>st'. mlx5_ib_poll_cq True st wcs = Some (length (soft @ w1 @ w2), (soft @ w1 @ w2) @ drop (length (soft @ w1 @ w2)) wcs, st')"
    by (auto simp: mlx5_ib_poll_cq_def split_beta Let_def add.assoc add.commute add.left_commute simp flip: d)
  moreover have "length soft = min (length wcs) (length (st_soft st))" "length w1 = min (length ?wcs) (length (outstanding S (st_send_qps st)))"
    using arg_cong [OF soft(1), of length] arg_cong [OF f1(2), of length] by (simp_all add: min.commute)
  then have "map wc_request (soft @ w1 @ w2) = take (length wcs)
      (map wc_request (st_soft st) @ outstanding S (st_send_qps st) @ outstanding R (st_recv_qps st))"
    using soft(1) f1(2) f2(2) by (auto simp: min_def add.commute)
  moreover have "\<forall>wc \<in> set (soft @ w1 @ w2). flushed wc" using soft(2) f1(3) f2(3) by auto
  ultimately show ?thesis by blast
qed


lemma sample_qps_hold:
  assumes "sq_holds wq [7, 8]"
  defines "st \<equiv> set_qp 7 ((sample_poll_qp [70, 71])\<lparr>qp_sq := wq\<rparr>) sample_poll"
  shows "qps_hold True st [7, 9] (\<lambda>n. if n = 7 then [7, 8] else [])"
    and "qps_hold False st [9, 7] (\<lambda>n. if n = 7 then [70, 71] else [90, 91])"
proof -
  have "sq_holds sample_sq []" using sample_sq_rep by (auto simp: sq_holds_def)
  then show "qps_hold True st [7, 9] (\<lambda>n. if n = 7 then [7, 8] else [])"
    using assms(1) by (simp add: st_def qps_hold_def qp_holds_def sample_poll_def) (simp add: sample_poll_qp_def)
  show "qps_hold False st [9, 7] (\<lambda>n. if n = 7 then [70, 71] else [90, 91])"
    using sample_rq_holds by (simp add: st_def qps_hold_def qp_holds_def sample_poll_def)
qed

theorem poll_cq_flushes_witness:
  "\<exists>wq wcs st'. mlx5_ib_post_send False False sample_sq [sample_req 7 8, sample_req 8 3] = Some (0, [], wq) \<and>
     mlx5_ib_poll_cq True (set_qp 7 ((sample_poll_qp [70, 71])\<lparr>qp_sq := wq\<rparr>) sample_poll) (replicate 5 sample_wc) = Some (5, wcs, st') \<and>
     map wc_request wcs = [(7, 7), (7, 8), (9, 90), (9, 91), (7, 70)]"
proof -
  obtain wq where wq: "mlx5_ib_post_send False False sample_sq [sample_req 7 8, sample_req 8 3] = Some (0, [], wq)" "sq_rep 2 2 wq 0 [(2, 7), (1, 8)]"
    using post_send_rep [OF sample_sq_rep sample_reqs(1) refl, of False] sample_reqs(2) by (fastforce simp: sample_sq_def)
  then have h: "sq_holds wq [7, 8]" by (fastforce simp: sq_holds_def)
  let ?st = "set_qp 7 ((sample_poll_qp [70, 71])\<lparr>qp_sq := wq\<rparr>) sample_poll"
  have f: "st_send_qps ?st = [7, 9]" "st_recv_qps ?st = [9, 7]" "st_soft ?st = []" by (simp_all add: sample_poll_def)
  have "\<exists>wcs st'. mlx5_ib_poll_cq True ?st (replicate 5 sample_wc) = Some (length wcs, wcs @ drop (length wcs) (replicate 5 sample_wc), st') \<and>
      map wc_request wcs = [(7, 7), (7, 8), (9, 90), (9, 91), (7, 70)]"
    using poll_cq_flushes [of ?st "\<lambda>n. if n = 7 then [7, 8] else []" "\<lambda>n. if n = 7 then [70, 71] else [90, 91]" "replicate 5 sample_wc"]
      sample_qps_hold [OF h] unfolding f by (auto simp: outstanding_def eval_nat_numeral)
  then obtain wcs st' where w: "mlx5_ib_poll_cq True ?st (replicate 5 sample_wc) = Some (length wcs, wcs @ drop (length wcs) (replicate 5 sample_wc), st')"
    "map wc_request wcs = [(7, 7), (7, 8), (9, 90), (9, 91), (7, 70)]" by (elim exE conjE)
  have "length wcs = 5" using arg_cong [OF w(2), of length] by simp
  then show ?thesis using wq(1) w by auto
qed

end
