(* ===== verification/KrRecv.thy ===== *)
theory KrRecv
  imports Mlx5Poll
begin

text \<open>
  Receive buffers of the kernel library KRdmaKit, \<^verbatim>\<open>rust-kernel-rdma/KRdmaKit/src/qp/recv_helper.rs\<close>: a ring of
  preformatted receive requests linked by \<^verbatim>\<open>next\<close> pointers (indices here), which is cut behind the last
  request to be posted, handed to the driver, and closed again.  Posting and polling take the driver's
  operations as arguments; the properties instantiate them with the mlx5 receive queue and completion
  queue.  A panic, an access outside an array and an endless chain are \<^const>\<open>None\<close>.
\<close>

unbundle bit_operations_syntax

section \<open>Rust arithmetic\<close>

text \<open>The module is built with overflow checks: an overflow panics, as does an index out of range.\<close>

definition add_u64 :: "u64 \<Rightarrow> u64 \<Rightarrow> u64 option" where
  "add_u64 a b = (if unat a + unat b < 2 ^ 64 then Some (a + b) else None)"

definition add_usize :: "nat \<Rightarrow> nat \<Rightarrow> nat option" where
  "add_usize a b = (if a + b < 2 ^ 64 then Some (a + b) else None)"

definition sub_usize :: "nat \<Rightarrow> nat \<Rightarrow> nat option" where
  "sub_usize a b = (if b \<le> a then Some (a - b) else None)"

definition rem_usize :: "nat \<Rightarrow> nat \<Rightarrow> nat option" where
  "rem_usize a b = (if b = 0 then None else Some (a mod b))"

section \<open>State\<close>

record recv_slot =
  slot_id :: u64
  slot_next :: "nat option"
  slot_sg :: nat
  slot_num_sge :: nat

record recv_helper =
  rh_wrs :: "recv_slot list"
  rh_sges :: "ib_sge list"
  rh_wcs :: "ib_wc list"
  rh_cur_idx :: nat
  rh_capacity :: nat
  rh_en_sz :: nat

definition zero_wc :: ib_wc where
  "zero_wc = \<lparr>wc_wr_id = 0, wc_status = IB_WC_SUCCESS, wc_opcode = IB_WC_SEND, vendor_err = 0, wc_byte_len = 0, wc_qp = 0,
     wc_ex = 0, src_qp = 0, wc_slid = 0, wc_flags = 0, pkey_index = 0, wc_sl = 0, dlid_path_bits = 0, vlan_id = 0,
     network_hdr_type = 0\<rparr>"

section \<open>Creation\<close>

definition recv_wr_index :: "recv_helper \<Rightarrow> nat \<Rightarrow> nat option" where
  "recv_wr_index h idx = do { i \<leftarrow> rem_usize idx (rh_capacity h); if i < length (rh_wrs h) then Some i else None }"

text \<open>The loop over the slots; \<open>n\<close> slots are left, the next one is \<open>i\<close> with its buffer at \<open>base\<close>.\<close>

fun create_loop :: "(u64 \<Rightarrow> u64) \<Rightarrow> nat \<Rightarrow> u32 \<Rightarrow> nat \<Rightarrow> nat \<Rightarrow> u64 \<Rightarrow> recv_helper \<Rightarrow> recv_helper option" where
  "create_loop pa_to_va entry_size key i 0 base h = Some h"
| "create_loop pa_to_va entry_size key i (Suc n) base h = do {
     nxt \<leftarrow> recv_wr_index h (i + 1);
     sges \<leftarrow> upd_opt (rh_sges h) i \<lparr>sge_addr = base, sge_length = of_nat entry_size, sge_lkey = key\<rparr>;
     wrs \<leftarrow> upd_opt (rh_wrs h) i \<lparr>slot_id = pa_to_va base, slot_next = Some nxt, slot_sg = i, slot_num_sge = 1\<rparr>;
     base \<leftarrow> add_u64 base (of_nat entry_size);
     create_loop pa_to_va entry_size key (i + 1) n base (h\<lparr>rh_sges := sges, rh_wrs := wrs\<rparr>)
   }"

definition recv_helper_create :: "(u64 \<Rightarrow> u64) \<Rightarrow> nat \<Rightarrow> nat \<Rightarrow> u32 \<Rightarrow> u64 \<Rightarrow> recv_helper option" where
  "recv_helper_create pa_to_va N entry_size key base_addr =
     create_loop pa_to_va entry_size key 0 N base_addr
       \<lparr>rh_wrs = replicate N \<lparr>slot_id = 0, slot_next = None, slot_sg = 0, slot_num_sge = 0\<rparr>,
        rh_sges = replicate N \<lparr>sge_addr = 0, sge_length = 0, sge_lkey = 0\<rparr>, rh_wcs = replicate N zero_wc,
        rh_cur_idx = 0, rh_capacity = N, rh_en_sz = entry_size\<rparr>"

section \<open>Posting\<close>

definition set_next :: "recv_helper \<Rightarrow> nat \<Rightarrow> nat option \<Rightarrow> recv_helper option" where
  "set_next h i nxt = do {
     i \<leftarrow> recv_wr_index h i;
     Some (h\<lparr>rh_wrs := (rh_wrs h)[i := (rh_wrs h ! i)\<lparr>slot_next := nxt\<rparr>]\<rparr>)
   }"

definition freeze_at :: "recv_helper \<Rightarrow> nat \<Rightarrow> recv_helper option" where
  "freeze_at h i = set_next h i None"

definition freeze_done_at :: "recv_helper \<Rightarrow> nat \<Rightarrow> recv_helper option" where
  "freeze_done_at h i = do { nxt \<leftarrow> recv_wr_index h (i + 1); set_next h i (Some nxt) }"

text \<open>The requests a driver sees when it follows the \<^verbatim>\<open>next\<close> pointers: \<^const>\<open>None\<close> when they never end.\<close>

partial_function (option) wr_chain :: "recv_slot list \<Rightarrow> nat \<Rightarrow> nat list option" where
  "wr_chain wrs i = (if i < length wrs then
     (case slot_next (wrs ! i) of
        None \<Rightarrow> Some [i]
      | Some j \<Rightarrow> Option.bind (wr_chain wrs j) (\<lambda>is. Some (i # is)))
     else None)"

definition wr_at :: "recv_helper \<Rightarrow> nat \<Rightarrow> ib_recv_wr" where
  "wr_at h i = \<lparr>recv_wr_id = slot_id (rh_wrs h ! i),
     sg_list = take (slot_num_sge (rh_wrs h ! i)) (drop (slot_sg (rh_wrs h ! i)) (rh_sges h))\<rparr>"

text \<open>
  The driver call \<open>post\<close> takes the queue and the chain; its result is the error number and the queue after
  the call.
\<close>

definition post_recvs :: "('q \<Rightarrow> ib_recv_wr list \<Rightarrow> (int \<times> 'q) option) \<Rightarrow> recv_helper \<Rightarrow> 'q \<Rightarrow> nat \<Rightarrow>
    (int \<times> recv_helper \<times> 'q) option" where
  "post_recvs post h q buffer_sz = do {
     s \<leftarrow> add_usize (rh_cur_idx h) buffer_sz;
     s \<leftarrow> sub_usize s 1;
     tail \<leftarrow> rem_usize s (rh_capacity h);
     h \<leftarrow> freeze_at h tail;
     header \<leftarrow> recv_wr_index h (rh_cur_idx h);
     chain \<leftarrow> wr_chain (rh_wrs h) header;
     (err, q) \<leftarrow> post q (map (wr_at h) chain);
     h \<leftarrow> freeze_done_at h tail;
     if err \<noteq> 0 then Some (err, h, q)
     else do {
       cur \<leftarrow> rem_usize (tail + 1) (rh_capacity h);
       Some (0, h\<lparr>rh_cur_idx := cur\<rparr>, q)
     }
   }"

section \<open>Popping\<close>

text \<open>
  \<open>poll\<close> takes the device and an array and returns the number of completions, the array and the device.
  Only the part of the array that lies inside \<^const>\<open>rh_wcs\<close> may be written.
\<close>

definition pop_recvs :: "('d \<Rightarrow> ib_wc list \<Rightarrow> (nat \<times> ib_wc list \<times> 'd) option) \<Rightarrow> recv_helper \<Rightarrow> 'd \<Rightarrow> nat \<Rightarrow> nat \<Rightarrow>
    (nat \<times> recv_helper \<times> 'd) option" where
  "pop_recvs poll h d recv_cnt offset = do {
     off \<leftarrow> rem_usize offset (length (rh_wcs h));
     let room = length (rh_wcs h) - off;
     (n, out, d) \<leftarrow> poll d (take recv_cnt (drop off (rh_wcs h) @ replicate recv_cnt zero_wc));
     if n > room then None
     else Some (n, h\<lparr>rh_wcs := take off (rh_wcs h) @ take room (out @ drop (off + recv_cnt) (rh_wcs h))\<rparr>, d)
   }"

section \<open>The ring of buffers\<close>

definition rh_ring :: "recv_helper \<Rightarrow> bool" where
  "rh_ring h \<longleftrightarrow> 0 < rh_capacity h \<and> length (rh_wrs h) = rh_capacity h \<and> length (rh_sges h) = rh_capacity h \<and>
     rh_cur_idx h < rh_capacity h \<and>
     (\<forall>i < rh_capacity h. slot_next (rh_wrs h ! i) = Some ((i + 1) mod rh_capacity h) \<and> slot_sg (rh_wrs h ! i) = i \<and>
        slot_num_sge (rh_wrs h ! i) = 1)"

text \<open>The next \<open>m\<close> buffers in ring order.\<close>

definition window :: "recv_helper \<Rightarrow> nat \<Rightarrow> ib_recv_wr list" where
  "window h m = map (\<lambda>i. wr_at h ((rh_cur_idx h + i) mod rh_capacity h)) [0..<m]"

lemma wr_chain_window:
  assumes "length wrs = K" "0 < K" "0 < m"
    and "\<forall>i < m - 1. slot_next (wrs ! ((c + i) mod K)) = Some ((c + i + 1) mod K)"
    and "slot_next (wrs ! ((c + (m - 1)) mod K)) = None"
  shows "wr_chain wrs (c mod K) = Some (map (\<lambda>i. (c + i) mod K) [0..<m])"
  using assms(3-5)
proof (induction m arbitrary: c)
  case (Suc m)
  show ?case
  proof (cases m)
    case 0
    then show ?thesis using Suc.prems assms(1,2) by (subst wr_chain.simps) simp
  next
    case (Suc m')
    have nxt: "slot_next (wrs ! (c mod K)) = Some ((c + 1) mod K)" using Suc.prems(2) Suc by (auto dest: spec [of _ 0])
    have "wr_chain wrs ((c + 1) mod K) = Some (map (\<lambda>i. (c + 1 + i) mod K) [0..<m])"
    proof (rule Suc.IH)
      show "\<forall>i < m - 1. slot_next (wrs ! ((c + 1 + i) mod K)) = Some ((c + 1 + i + 1) mod K)"
        using Suc.prems(2) Suc by (auto dest: spec [of _ "Suc _"])
      show "slot_next (wrs ! ((c + 1 + (m - 1)) mod K)) = None" using Suc.prems(3) Suc by simp
    qed (simp add: Suc)
    then show ?thesis using nxt assms(1,2)
      by (subst wr_chain.simps) (simp add: upt_conv_Cons map_Suc_upt [symmetric] comp_def del: upt_Suc)
  qed
qed simp

lemma frozen_window:
  assumes h: "rh_ring h" and m: "0 < m" "m \<le> rh_capacity h" and t: "t = (rh_cur_idx h + (m - 1)) mod rh_capacity h"
  shows "\<exists>h1. freeze_at h t = Some h1 \<and> recv_wr_index h1 (rh_cur_idx h1) = Some (rh_cur_idx h) \<and>
    wr_chain (rh_wrs h1) (rh_cur_idx h) = Some (map (\<lambda>i. (rh_cur_idx h + i) mod rh_capacity h) [0..<m]) \<and>
    map (wr_at h1) (map (\<lambda>i. (rh_cur_idx h + i) mod rh_capacity h) [0..<m]) = window h m \<and>
    freeze_done_at h1 t = Some h \<and> rh_capacity h1 = rh_capacity h"
proof -
  define K cur where "K = rh_capacity h" and "cur = rh_cur_idx h"
  have c: "0 < K" "length (rh_wrs h) = K" "length (rh_sges h) = K" "cur < K" "t < K"
    using h t by (auto simp: rh_ring_def K_def cur_def)
  define wrs where "wrs = (rh_wrs h)[t := (rh_wrs h ! t)\<lparr>slot_next := None\<rparr>]"
  let ?h1 = "h\<lparr>rh_wrs := wrs\<rparr>"
  have fr: "freeze_at h t = Some ?h1" "recv_wr_index ?h1 cur = Some cur"
    using c by (simp_all add: freeze_at_def set_next_def recv_wr_index_def rem_usize_def wrs_def flip: K_def)
  have nx: "slot_next (rh_wrs h ! i) = Some ((i + 1) mod K)" if "i < K" for i
    using h that by (simp add: rh_ring_def K_def)
  have "wr_chain wrs (cur mod K) = Some (map (\<lambda>i. (cur + i) mod K) [0..<m])"
  proof (rule wr_chain_window)
    show "length wrs = K" "0 < K" "0 < m" using c m by (simp_all add: wrs_def)
    show "slot_next (wrs ! ((cur + (m - 1)) mod K)) = None" using c t by (simp add: wrs_def K_def cur_def)
    have "m - 1 < K" using m by (simp add: K_def)
    then have "t \<noteq> (cur + i) mod K" if "i < m - 1" for i
      using mod_add_inj [of cur i K "m - 1"] that t by (auto simp: K_def cur_def)
    then show "\<forall>i < m - 1. slot_next (wrs ! ((cur + i) mod K)) = Some ((cur + i + 1) mod K)"
      using nx [OF mod_less_divisor [OF c(1)]] by (simp add: wrs_def mod_Suc_eq)
  qed
  moreover have "wr_at ?h1 i = wr_at h i" for i using c(2,5) by (cases "i = t") (simp_all add: wr_at_def wrs_def)
  moreover have "(rh_wrs h ! t)\<lparr>slot_next := Some ((t + 1) mod K)\<rparr> = rh_wrs h ! t"
    using nx [OF c(5)] by (cases "rh_wrs h ! t") simp
  then have "freeze_done_at ?h1 t = Some h"
    using c by (cases h) (simp add: freeze_done_at_def set_next_def recv_wr_index_def rem_usize_def wrs_def K_def)
  ultimately show ?thesis using fr c(4) by (auto simp: window_def K_def cur_def)
qed

text \<open>How many buffers a call for \<open>n\<close> of them hands to the driver.\<close>

definition posted :: "recv_helper \<Rightarrow> nat \<Rightarrow> nat" where
  "posted h n = (n - 1) mod rh_capacity h + 1"

lemma post_recvs_window:
  assumes h: "rh_ring h" and n: "0 < n" "rh_cur_idx h + n < 2 ^ 64"
  shows "post_recvs post h q n = do {
      (err, q) \<leftarrow> post q (window h (posted h n));
      Some (err, if err = 0 then h\<lparr>rh_cur_idx := (rh_cur_idx h + n) mod rh_capacity h\<rparr> else h, q) }"
proof -
  let ?K = "rh_capacity h" and ?cur = "rh_cur_idx h" and ?m = "posted h n"
  have c: "0 < ?K" "?m \<le> ?K" using h by (auto simp: rh_ring_def posted_def Suc_leI)
  have t: "(?cur + n - 1) mod ?K = (?cur + (?m - 1)) mod ?K"
    using n by (simp add: posted_def mod_simps)
  obtain h1 where h1: "freeze_at h ((?cur + n - 1) mod ?K) = Some h1" "recv_wr_index h1 (rh_cur_idx h1) = Some ?cur"
    "wr_chain (rh_wrs h1) ?cur = Some (map (\<lambda>i. (?cur + i) mod ?K) [0..<?m])"
    "map (wr_at h1) (map (\<lambda>i. (?cur + i) mod ?K) [0..<?m]) = window h ?m"
    "freeze_done_at h1 ((?cur + n - 1) mod ?K) = Some h" "rh_capacity h1 = ?K"
    using frozen_window [OF h _ c(2) t] by (auto simp: posted_def)
  have "(Suc ((?cur + n - 1) mod ?K)) mod ?K = (?cur + n) mod ?K" using n by (simp add: mod_Suc_eq)
  then show ?thesis using n c(1) h1
    by (cases "post q (window h ?m)") (simp_all add: post_recvs_def add_usize_def sub_usize_def rem_usize_def split_beta del: map_map)
qed


section \<open>Creation yields the ring\<close>

lemma create_loop_ring:
  assumes "length (rh_wrs h) = rh_capacity h" "length (rh_sges h) = rh_capacity h" "i + n = rh_capacity h"
    and "unat base + n * sz < 2 ^ 64"
    and "\<forall>j < i. rh_sges h ! j = \<lparr>sge_addr = b0 + of_nat (j * sz), sge_length = of_nat sz, sge_lkey = key\<rparr> \<and>
      rh_wrs h ! j = \<lparr>slot_id = f (b0 + of_nat (j * sz)), slot_next = Some ((j + 1) mod rh_capacity h), slot_sg = j, slot_num_sge = 1\<rparr>"
    and "base = b0 + of_nat (i * sz)"
  shows "\<exists>h'. create_loop f sz key i n base h = Some h' \<and> rh_capacity h' = rh_capacity h \<and> rh_cur_idx h' = rh_cur_idx h \<and>
    rh_wcs h' = rh_wcs h \<and> length (rh_wrs h') = rh_capacity h \<and> length (rh_sges h') = rh_capacity h \<and>
    (\<forall>j < rh_capacity h. rh_sges h' ! j = \<lparr>sge_addr = b0 + of_nat (j * sz), sge_length = of_nat sz, sge_lkey = key\<rparr> \<and>
      rh_wrs h' ! j = \<lparr>slot_id = f (b0 + of_nat (j * sz)), slot_next = Some ((j + 1) mod rh_capacity h), slot_sg = j, slot_num_sge = 1\<rparr>)"
  using assms
proof (induction n arbitrary: i base h)
  case (Suc n)
  define h1 where "h1 = h\<lparr>rh_sges := (rh_sges h)[i := \<lparr>sge_addr = base, sge_length = of_nat sz, sge_lkey = key\<rparr>],
    rh_wrs := (rh_wrs h)[i := \<lparr>slot_id = f base, slot_next = Some ((i + 1) mod rh_capacity h), slot_sg = i, slot_num_sge = 1\<rparr>]\<rparr>"
  have sz: "unat (of_nat sz :: u64) = sz" using Suc.prems(4) by (simp add: unat_of_nat)
  have b: "unat (base + of_nat sz) = unat base + sz" "add_u64 base (of_nat sz) = Some (base + of_nat sz)"
    using Suc.prems(4) sz by (simp_all add: add_u64_def unat_add_lem [THEN iffD1])
  have "create_loop f sz key i (Suc n) base h = create_loop f sz key (i + 1) n (base + of_nat sz) h1"
    using Suc.prems(1-3) b(2)
    by (simp add: recv_wr_index_def rem_usize_def upd_opt_def h1_def)
  moreover have "\<exists>h'. create_loop f sz key (i + 1) n (base + of_nat sz) h1 = Some h' \<and> rh_capacity h' = rh_capacity h1 \<and> rh_cur_idx h' = rh_cur_idx h1 \<and>
    rh_wcs h' = rh_wcs h1 \<and> length (rh_wrs h') = rh_capacity h1 \<and> length (rh_sges h') = rh_capacity h1 \<and>
    (\<forall>j < rh_capacity h1. rh_sges h' ! j = \<lparr>sge_addr = b0 + of_nat (j * sz), sge_length = of_nat sz, sge_lkey = key\<rparr> \<and>
      rh_wrs h' ! j = \<lparr>slot_id = f (b0 + of_nat (j * sz)), slot_next = Some ((j + 1) mod rh_capacity h1), slot_sg = j, slot_num_sge = 1\<rparr>)"
    using Suc.prems b(1) by (intro Suc.IH) (auto simp: h1_def less_Suc_eq nth_list_update algebra_simps)
  ultimately show ?case by (simp add: h1_def)
qed auto

definition mlx5_post :: "bool \<Rightarrow> bool \<Rightarrow> mlx5_wq \<Rightarrow> ib_recv_wr list \<Rightarrow> (int \<times> mlx5_wq) option" where
  "mlx5_post internal_error drain wq wrs = map_option (\<lambda>(err, _, wq). (err, wq)) (mlx5_ib_post_recv internal_error drain wq wrs)"


lemma recv_helper_create_ring:
  assumes "0 < N" "unat base + N * sz < 2 ^ 64"
  shows "\<exists>h. recv_helper_create f N sz key base = Some h \<and> rh_ring h \<and> rh_capacity h = N \<and> rh_cur_idx h = 0 \<and>
    rh_wcs h = replicate N zero_wc \<and>
    (\<forall>j < N. wr_at h j = \<lparr>recv_wr_id = f (base + of_nat (j * sz)),
       sg_list = [\<lparr>sge_addr = base + of_nat (j * sz), sge_length = of_nat sz, sge_lkey = key\<rparr>]\<rparr>)"
proof -
  let ?h = "\<lparr>rh_wrs = replicate N \<lparr>slot_id = 0, slot_next = None, slot_sg = 0, slot_num_sge = 0\<rparr>,
    rh_sges = replicate N \<lparr>sge_addr = 0, sge_length = 0, sge_lkey = 0\<rparr>, rh_wcs = replicate N zero_wc,
    rh_cur_idx = 0, rh_capacity = N, rh_en_sz = sz\<rparr>"
  obtain h where h: "create_loop f sz key 0 N base ?h = Some h" "rh_capacity h = N" "rh_cur_idx h = 0" "rh_wcs h = replicate N zero_wc"
    "length (rh_wrs h) = N" "length (rh_sges h) = N"
    "\<forall>j < N. rh_sges h ! j = \<lparr>sge_addr = base + of_nat (j * sz), sge_length = of_nat sz, sge_lkey = key\<rparr> \<and>
      rh_wrs h ! j = \<lparr>slot_id = f (base + of_nat (j * sz)), slot_next = Some ((j + 1) mod N), slot_sg = j, slot_num_sge = 1\<rparr>"
    using create_loop_ring [of ?h 0 N base sz base key f] assms by auto
  moreover have "take (Suc 0) (drop j (rh_sges h)) = [rh_sges h ! j]" if "j < N" for j
    using that h(6) by (simp add: Cons_nth_drop_Suc [symmetric])
  ultimately show ?thesis using assms(1) by (auto simp: recv_helper_create_def rh_ring_def wr_at_def)
qed

section \<open>Receive buffers and the receive queue of the driver\<close>

lemma window_requests:
  "length (window h m) = m" "rh_ring h \<Longrightarrow> wr \<in> set (window h m) \<Longrightarrow> length (sg_list wr) = 1"
  by (auto simp: window_def wr_at_def rh_ring_def min_absorb2 Suc_le_eq)

abbreviation buffer_id :: "recv_helper \<Rightarrow> nat \<Rightarrow> u64" where
  "buffer_id h i \<equiv> slot_id (rh_wrs h ! ((rh_cur_idx h + i) mod rh_capacity h))"

lemma post_recv_loop_keeps:
  "post_recv_loop wq ind nreq wrs = Some (e, bad, n, wq') \<Longrightarrow> wq_max_post wq' = wq_max_post wq \<and> wq_max_gs wq' = wq_max_gs wq"
  by (induction wq ind nreq wrs rule: post_recv_loop.induct) (auto split: if_splits Option.bind_splits)

lemma post_recv_keeps:
  "mlx5_ib_post_recv i d wq wrs = Some (e, bad, wq') \<Longrightarrow> wq_max_post wq' = wq_max_post wq \<and> wq_max_gs wq' = wq_max_gs wq"
  by (auto simp: mlx5_ib_post_recv_def split: if_splits Option.bind_splits dest!: post_recv_loop_keeps)

lemma post_recvs_mlx5:
  assumes "rh_ring h" "0 < n" "rh_cur_idx h + n < 2 ^ 64" "rq_rep k wq 0 q" "1 \<le> wq_max_gs wq"
    and r: "r = min (posted h n) (unat (wq_max_post wq) - length q)"
  shows "\<exists>wq'. post_recvs (mlx5_post False drain) h wq n =
      Some (if length q + posted h n \<le> unat (wq_max_post wq)
        then (0, h\<lparr>rh_cur_idx := (rh_cur_idx h + n) mod rh_capacity h\<rparr>, wq') else (- ENOMEM, h, wq')) \<and>
    rq_rep k wq' 0 (q @ map (buffer_id h) [0..<r]) \<and> wq_max_post wq' = wq_max_post wq \<and> wq_max_gs wq' = wq_max_gs wq"
proof -
  let ?w = "window h (posted h n)"
  have "\<forall>wr \<in> set ?w. length (sg_list wr) \<le> wq_max_gs wq" using window_requests(2) [OF assms(1)] assms(5) by auto
  from post_recv_rep [OF assms(4) this, of r drain] r obtain wq' where
    p: "mlx5_ib_post_recv False drain wq ?w =
        Some (if length q + posted h n \<le> unat (wq_max_post wq) then 0 else - ENOMEM, drop r ?w, wq')"
      "rq_rep k wq' 0 (q @ map recv_wr_id (take r ?w))"
    by (auto simp: window_requests(1))
  have "map recv_wr_id (take r ?w) = map (buffer_id h) [0..<r]"
    using r by (simp add: window_def take_map wr_at_def comp_def)
  then show ?thesis using p post_recvs_window [OF assms(1-3), of "mlx5_post False drain" wq]
      post_recv_keeps [OF p(1)] by (auto simp: mlx5_post_def ENOMEM_def)
qed


text \<open>
  C11. The receive buffers are posted in ring order.  A call for \<open>n\<close> buffers hands the driver the next
  \<open>(n - 1) mod capacity + 1\<close> of them, so never more than the ring has.  With room in the receive queue their
  identifiers are appended to those outstanding and the cursor moves on by \<open>n\<close>.  Without room the call fails:
  the buffers that did fit stay posted, and the cursor does not move.
\<close>

theorem post_recvs_appends:
  assumes "rh_ring h" and "0 < n" and "rh_cur_idx h + n < 2 ^ 64"
    and "rq_rep k wq 0 q" and "1 \<le> wq_max_gs wq"
    and "m = (n - 1) mod rh_capacity h + 1" and "r = min m (unat (wq_max_post wq) - length q)"
  shows "\<exists>wq'. post_recvs (mlx5_post False drain) h wq n =
      Some (if length q + m \<le> unat (wq_max_post wq) then (0, h\<lparr>rh_cur_idx := (rh_cur_idx h + n) mod rh_capacity h\<rparr>, wq')
        else (- ENOMEM, h, wq')) \<and>
    rq_rep k wq' 0 (q @ map (buffer_id h) [0..<r])"
  using post_recvs_mlx5 [OF assms(1-5) refl] unfolding assms(6,7) posted_def by blast

text \<open>
  C18. A failed call is not repeatable.  When only part of the buffers fitted, the cursor still stands at the
  first of them; as soon as one completion has made room, the next call posts that buffer again although
  it is outstanding, and two requests receive into the same memory.
\<close>

theorem post_recvs_reposts:
  assumes "rh_ring h" and "0 < n" and "rh_cur_idx h + n < 2 ^ 64"
    and "rq_rep k wq 0 (x # q)" and "1 \<le> wq_max_gs wq" and "length (x # q) < unat (wq_max_post wq)"
    and "unat (wq_max_post wq) < length (x # q) + posted h n"
  shows "\<exists>wq1 wq2 wq3 h3 ids. post_recvs (mlx5_post False drain) h wq n = Some (- ENOMEM, h, wq1) \<and>
    recv_complete wq1 = Some (x, wq2) \<and> post_recvs (mlx5_post False drain) h wq2 1 = Some (0, h3, wq3) \<and>
    rq_rep k wq3 0 (q @ ids) \<and> \<not> distinct ids"
proof -
  define r where "r = unat (wq_max_post wq) - length (x # q)"
  have r: "r = min (posted h n) (unat (wq_max_post wq) - length (x # q))" "0 < r" using assms(6,7) by (auto simp: r_def)
  obtain wq1 where p1: "post_recvs (mlx5_post False drain) h wq n = Some (- ENOMEM, h, wq1)"
    "rq_rep k wq1 0 (x # q @ map (buffer_id h) [0..<r])" "wq_max_post wq1 = wq_max_post wq" "wq_max_gs wq1 = wq_max_gs wq"
    using post_recvs_mlx5 [OF assms(1-5) r(1), of drain] assms(7) by auto
  define wq2 where "wq2 = wq1\<lparr>wq_tail := wq_tail wq1 + 1\<rparr>"
  have p2: "recv_complete wq1 = Some (x, wq2)" "rq_rep k wq2 0 (q @ map (buffer_id h) [0..<r])"
    using rq_rep_pop [OF p1(2)] by (simp_all add: recv_complete_def wq2_def)
  have full: "length (q @ map (buffer_id h) [0..<r]) + 1 = unat (wq_max_post wq)" using assms(6) by (simp add: r_def)
  have one: "posted h 1 = 1" "rh_cur_idx h + 1 < 2 ^ 64" using assms(2,3) by (auto simp: posted_def)
  obtain wq3 h3 where "post_recvs (mlx5_post False drain) h wq2 1 = Some (0, h3, wq3)"
    "rq_rep k wq3 0 ((q @ map (buffer_id h) [0..<r]) @ map (buffer_id h) [0..<1])"
    using post_recvs_mlx5 [OF assms(1) _ one(2) p2(2) _ refl, of drain] p1(3,4) assms(5) full one(1) by (auto simp: wq2_def)
  moreover have "\<not> distinct (map (buffer_id h) [0..<r] @ map (buffer_id h) [0..<1])" using r(2) by (auto simp: upt_conv_Cons)
  ultimately show ?thesis using p1(1) p2(1) by (metis append.assoc)
qed

lemma poll_tail:
  assumes "e \<le> c" "e \<le> length X"
  shows "take (length X - e) (drop e (take c (X @ Z)) @ drop c X) = drop e X"
proof (cases "c \<le> length X")
  case True
  then have "drop e (take c (X @ Z)) @ drop c X = drop e X"
    using assms drop_append [of e "take c X" "drop c X"] by simp
  then show ?thesis by simp
next
  case False
  then show ?thesis using assms by simp
qed

text \<open>
  C15. Popping received messages is memory safe exactly as long as the completions found fit behind the offset
  in the array of completions of the helper; then they are stored there, in order, each with the
  request of its queue pair.  The number asked for is no bound: a poll that finds more
  completions than the array has room for writes past its end.
\<close>

theorem pop_recvs_delivers:
  assumes "cq_wf k (st_cq st)" and "length (pending (st_cq st)) < 2 ^ k" and "st_soft st = []"
    and "\<forall>e \<in> set (entries (st_cq st)). recv_entry e" and "N = entry_qpn ` set (entries (st_cq st))"
    and "plain_rqs st Q N" and "\<forall>n. count_list (map entry_qpn (entries (st_cq st))) n \<le> length (Q n)"
    and "es = take cnt (entries (st_cq st))" and "rh_wcs h \<noteq> []" and "off = offset mod length (rh_wcs h)"
  shows "if length (rh_wcs h) - off < length es then pop_recvs (mlx5_ib_poll_cq False) h st cnt offset = None
    else \<exists>wcs st'. pop_recvs (mlx5_ib_poll_cq False) h st cnt offset =
        Some (length es, h\<lparr>rh_wcs := take off (rh_wcs h) @ wcs @ drop (off + length es) (rh_wcs h)\<rparr>, st') \<and>
      reports Q es wcs \<and> entries (st_cq st') = drop (length es) (entries (st_cq st)) \<and> plain_rqs st' (still_queued Q es) N"
proof -
  define W arr where "W = rh_wcs h" and "arr = take cnt (drop off W @ replicate cnt zero_wc)"
  have off: "off < length W" "rem_usize offset (length W) = Some off" using assms(9,10) by (simp_all add: W_def rem_usize_def)
  have "recv_stream st Q N" using assms by (auto simp: recv_stream_def)
  moreover have "length arr = cnt" by (simp add: arr_def min_def)
  then have "es = take (length arr) (entries (st_cq st))" using assms(8) by simp
  ultimately obtain wcs st' where p: "mlx5_ib_poll_cq False st arr = Some (length es, wcs @ drop (length es) arr, st')" "reports Q es wcs"
    "entries (st_cq st') = drop (length es) (entries (st_cq st))" "recv_stream st' (still_queued Q es) N"
    using poll_cq_stream [OF _ assms(3)] by blast
  have pop: "pop_recvs (mlx5_ib_poll_cq False) h st cnt offset = (if length es > length W - off then None
      else Some (length es, h\<lparr>rh_wcs := take off W @ take (length W - off) ((wcs @ drop (length es) arr) @ drop (off + cnt) W)\<rparr>, st'))"
    using p(1) off by (simp add: pop_recvs_def arr_def Let_def flip: W_def)
  have "length wcs = length es" using arg_cong [OF p(2) [unfolded reports_def, THEN conjunct2, THEN conjunct1], of length] by simp
  moreover have "length es \<le> cnt" using assms(8) by simp
  ultimately have "take (length W - off) ((wcs @ drop (length es) arr) @ drop (off + cnt) W) = wcs @ drop (off + length es) W"
    if "length es \<le> length W - off"
    using that poll_tail [of "length es" cnt "drop off W" "replicate cnt zero_wc"] by (simp add: arr_def add.commute)
  then show ?thesis using pop p(2-4) by (auto simp: W_def recv_stream_def)
qed


section \<open>Samples\<close>

lemma sample_helper: "\<exists>h. recv_helper_create (\<lambda>x. x) N 512 7 0x1000 = Some h \<and> rh_ring h \<and> rh_capacity h = N \<and> rh_cur_idx h = 0 \<and>
    rh_wcs h = replicate N zero_wc \<and> (\<forall>j < N. slot_id (rh_wrs h ! j) = 0x1000 + of_nat (j * 512))" if "0 < N" "N \<le> 4"
proof -
  have "unat (0x1000 :: u64) + N * 512 < 2 ^ 64" using that by simp
  from recv_helper_create_ring [OF that(1) this, of "\<lambda>x. x" 7] show ?thesis by (fastforce simp: wr_at_def)
qed

theorem post_recvs_appends_witness:
  "\<exists>h wq'. recv_helper_create (\<lambda>x. x) 2 512 7 0x1000 = Some h \<and>
     post_recvs (mlx5_post False False) h sample_rq 512 = Some (0, h, wq') \<and> rq_rep 2 wq' 0 [0x1000, 0x1200]"
proof -
  obtain h where h: "recv_helper_create (\<lambda>x. x) 2 512 7 0x1000 = Some h" "rh_ring h" "rh_capacity h = 2" "rh_cur_idx h = 0"
    "\<forall>j < 2. slot_id (rh_wrs h ! j) = 0x1000 + of_nat (j * 512)"
    using sample_helper [of 2] by auto
  have r: "rq_rep 2 sample_rq 0 []" "1 \<le> wq_max_gs sample_rq" "unat (wq_max_post sample_rq) = 4"
    by (simp_all add: rq_rep_def rq_shape_def sample_rq_def)
  have "\<exists>wq'. post_recvs (mlx5_post False False) h sample_rq 512 =
      Some (if length ([] :: u64 list) + 2 \<le> unat (wq_max_post sample_rq) then (0, h\<lparr>rh_cur_idx := (rh_cur_idx h + 512) mod rh_capacity h\<rparr>, wq')
        else (- ENOMEM, h, wq')) \<and> rq_rep 2 wq' 0 ([] @ map (buffer_id h) [0..<2])"
    by (rule post_recvs_appends [OF h(2) _ _ r(1,2)]) (simp_all add: h r(3))
  then obtain wq' where w: "post_recvs (mlx5_post False False) h sample_rq 512 = Some (0, h\<lparr>rh_cur_idx := 0\<rparr>, wq')"
    "rq_rep 2 wq' 0 (map (buffer_id h) [0..<2])" using h(3,4) r(3) by auto
  have "h\<lparr>rh_cur_idx := 0\<rparr> = h" using h(4) by (cases h) simp
  moreover have "map (buffer_id h) [0..<2] = [0x1000, 0x1200]" using h(3-5) by (simp add: upt_rec)
  ultimately show ?thesis using h(1) w by metis
qed

theorem post_recvs_reposts_witness:
  "\<exists>h wq wq1 wq2 wq3 h3 ids. post_recvs (mlx5_post False False) h wq 4 = Some (- ENOMEM, h, wq1) \<and>
     recv_complete wq1 = Some (70, wq2) \<and> post_recvs (mlx5_post False False) h wq2 1 = Some (0, h3, wq3) \<and>
     rq_rep 2 wq3 0 ([71] @ ids) \<and> \<not> distinct ids"
proof -
  obtain h where h: "rh_ring h" "rh_capacity h = 4" "rh_cur_idx h = 0" using sample_helper [of 4] by auto
  let ?wq = "qp_rq (sample_poll_qp [70, 71])"
  have "1 \<le> wq_max_gs ?wq" "unat (wq_max_post ?wq) = 4" "posted h 4 = 4"
    using h(2) by (simp_all add: sample_poll_qp_def sample_rq_def posted_def)
  then have "\<exists>wq1 wq2 wq3 h3 ids. post_recvs (mlx5_post False False) h ?wq 4 = Some (- ENOMEM, h, wq1) \<and>
      recv_complete wq1 = Some (70, wq2) \<and> post_recvs (mlx5_post False False) h wq2 1 = Some (0, h3, wq3) \<and>
      rq_rep 2 wq3 0 ([71] @ ids) \<and> \<not> distinct ids"
    using h(3) by (intro post_recvs_reposts [OF h(1) _ _ sample_rq_rep]) simp_all
  then show ?thesis by blast
qed

theorem pop_recvs_delivers_witness:
  "\<exists>h2 h4. recv_helper_create (\<lambda>x. x) 2 512 7 0x1000 = Some h2 \<and> recv_helper_create (\<lambda>x. x) 4 512 7 0x1000 = Some h4 \<and>
     pop_recvs (mlx5_ib_poll_cq False) h2 sample_poll 2048 0 = None \<and>
     (\<exists>wcs st'. pop_recvs (mlx5_ib_poll_cq False) h4 sample_poll 2048 0 = Some (3, h4\<lparr>rh_wcs := wcs @ [zero_wc]\<rparr>, st') \<and>
       map wc_wr_id wcs = [70, 90, 71])"
proof -
  obtain h2 h4 where h: "recv_helper_create (\<lambda>x. x) 2 512 7 0x1000 = Some h2" "rh_wcs h2 = replicate 2 zero_wc"
    "recv_helper_create (\<lambda>x. x) 4 512 7 0x1000 = Some h4" "rh_wcs h4 = replicate 4 zero_wc"
    using sample_helper [of 2] sample_helper [of 4] by auto
  have e: "length (entries (st_cq sample_poll)) = 3" using arg_cong [OF sample_stream(1), of length] by simp
  note d = pop_recvs_delivers [OF sample_stream(3-6,2,7,8) refl _ refl, where cnt = 2048 and offset = 0]
  have n: "pop_recvs (mlx5_ib_poll_cq False) h2 sample_poll 2048 0 = None" using d [of h2] h(2) e by simp
  have "take 2048 (entries (st_cq sample_poll)) = entries (st_cq sample_poll)" using e by simp
  then obtain wcs st' where w: "pop_recvs (mlx5_ib_poll_cq False) h4 sample_poll 2048 0 =
      Some (3, h4\<lparr>rh_wcs := [] @ wcs @ drop 3 (replicate 4 zero_wc)\<rparr>, st')" "reports sample_queues (entries (st_cq sample_poll)) wcs"
    using d [of h4] h(4) e by (simp del: drop_replicate) blast
  have "map wc_wr_id wcs = [70, 90, 71]" using w(2) by (simp add: reports_def sample_stream(1) sample_queues_def)
  then show ?thesis using h(1,3) n w(1) by auto
qed

end
