(* ===== verification/KrQp.thy ===== *)
theory KrQp
  imports Mlx5QpTables
begin

text \<open>
  How the kernel library KRdmaKit brings its queue pairs up (\<^verbatim>\<open>rust-kernel-rdma/KRdmaKit/src/qp/rc.rs\<close>, \<^verbatim>\<open>ud.rs\<close>,
  \<^verbatim>\<open>mod.rs\<close>), together with the code below it that decides on each step: the attributes supplied by
  \<^verbatim>\<open>drivers/infiniband/core/cm.c\<close>, \<^verbatim>\<open>_ib_modify_qp\<close> of \<^verbatim>\<open>core/verbs.c\<close>, and the checks of \<^verbatim>\<open>mlx5_ib_modify_qp\<close> in
  \<^verbatim>\<open>hw/mlx5/qp.c\<close> with the transition table.  Kept are the attributes that some check looks at and those that make two queue
  pairs a connection: the number of the other side and the packet sequence numbers.  The queried state of a
  queue pair is the one the driver records.
\<close>

unbundle bit_operations_syntax

section \<open>The checks of the driver\<close>

record mod_attr =
  at_state :: ib_qp_state
  at_cur_state :: ib_qp_state
  at_access_flags :: u32
  at_port_num :: nat
  at_pkey_index :: nat
  at_max_rd_atomic :: nat
  at_max_dest_rd_atomic :: nat
  at_dest_qp_num :: u32
  at_rq_psn :: u32
  at_sq_psn :: u32

record verbs_qp =
  vq_type :: ib_qp_type
  vq_state :: ib_qp_state
  vq_port :: nat
  vq_num :: u32
  vq_dest :: u32
  vq_rq_psn :: u32
  vq_sq_psn :: u32

text \<open>
  The device: its limits, and the results of the calls that are not modelled, resolving the source
  address of a path and executing the command on the device.
\<close>

record mod_dev =
  num_ports :: nat
  pkey_table_len :: "nat \<Rightarrow> nat"
  log_max_ra_res_qp :: nat
  log_max_ra_req_qp :: nat
  fill_sgid :: int
  fill_sgid_alt :: int
  alt_is_ib :: bool
  ooo_enabled :: bool
  multipath_rc_qp :: bool
  multipath_xrc_qp :: bool
  multipath_dc_qp :: bool
  apply_modify :: "verbs_qp \<Rightarrow> ib_qp_state \<Rightarrow> ib_qp_state \<Rightarrow> u32 \<Rightarrow> int"

abbreviation has :: "u32 \<Rightarrow> u32 \<Rightarrow> bool" where
  "has m a \<equiv> m AND a \<noteq> 0"

text \<open>What the context of the queue pair gets from the attributes; sequence numbers have 24 bits.\<close>

definition qp_context :: "mod_attr \<Rightarrow> u32 \<Rightarrow> verbs_qp \<Rightarrow> verbs_qp" where
  "qp_context attr m qp = qp\<lparr>
     vq_dest := (if has m IB_QP_DEST_QPN then at_dest_qp_num attr else vq_dest qp),
     vq_sq_psn := (if has m IB_QP_SQ_PSN then at_sq_psn attr AND 0xFFFFFF else vq_sq_psn qp),
     vq_rq_psn := (if has m IB_QP_RQ_PSN then at_rq_psn attr AND 0xFFFFFF else vq_rq_psn qp)\<rparr>"

definition is_ooo_supported :: "mod_dev \<Rightarrow> ib_qp_type \<Rightarrow> bool" where
  "is_ooo_supported dev t \<longleftrightarrow> t = IB_QPT_RC \<and> multipath_rc_qp dev \<or> (t = IB_QPT_XRC_INI \<or> t = IB_QPT_XRC_TGT) \<and> multipath_xrc_qp dev \<or>
     t = IB_EXP_QPT_DC_INI \<and> multipath_dc_qp dev"

text \<open>
  \<^verbatim>\<open>mlx5_ib_modify_qp\<close> for kernel queue pairs of the types the library creates: no underlay and no user command.  The table of
  ports is read at \<^verbatim>\<open>port - 1\<close>, which is outside for port 0.  The result of the commands to the firmware, which end \<^verbatim>\<open>__mlx5_ib_modify_qp\<close>, is
  \<^const>\<open>apply_modify\<close>; the address vector, which \<^verbatim>\<open>set_dc_ini_ah_fields\<close> completes before, is not part of the attributes here.
\<close>

definition mlx5_ib_modify_qp :: "mod_dev \<Rightarrow> verbs_qp \<Rightarrow> mod_attr \<Rightarrow> u32 \<Rightarrow> (int \<times> verbs_qp) option" where
  "mlx5_ib_modify_qp dev qp attr m = do {
     let cur = (if has m IB_QP_CUR_STATE then at_cur_state attr else vq_state qp);
     let new = (if has m IB_QP_STATE then at_state attr else cur);
     ok \<leftarrow> ib_modify_qp_is_ok cur new (vq_type qp) m;
     let port = (if has m IB_QP_PORT then at_port_num attr else vq_port qp);
     if \<not> ok then Some (- EINVAL, qp)
     else if has m IB_QP_PORT \<and> (at_port_num attr = 0 \<or> num_ports dev < at_port_num attr) then Some (- EINVAL, qp)
     else if has m IB_QP_PKEY_INDEX \<and> port = 0 then None
     else Some (if has m IB_QP_PKEY_INDEX \<and> pkey_table_len dev (port - 1) \<le> at_pkey_index attr then (- EINVAL, qp)
       else if has m IB_QP_MAX_QP_RD_ATOMIC \<and> 2 ^ log_max_ra_res_qp dev < at_max_rd_atomic attr then (- EINVAL, qp)
       else if has m IB_QP_MAX_DEST_RD_ATOMIC \<and> 2 ^ log_max_ra_req_qp dev < at_max_dest_rd_atomic attr then (- EINVAL, qp)
       else if cur = new \<and> cur = IB_QPS_RESET then (0, qp)
       else let m = (if new = IB_QPS_RTR \<and> ooo_enabled dev \<and> is_ooo_supported dev (vq_type qp) then m OR IB_EXP_QP_OOO_RW_DATA_PLACEMENT else m);
                err = apply_modify dev qp cur new m in
         if err \<noteq> 0 then (err, qp) else (0, (qp_context attr m qp)\<lparr>vq_state := new, vq_port := port\<rparr>))
   }"

definition ib_modify_qp :: "mod_dev \<Rightarrow> verbs_qp \<Rightarrow> mod_attr \<Rightarrow> u32 \<Rightarrow> (int \<times> verbs_qp) option" where
  "ib_modify_qp dev qp attr m =
     (if has m IB_QP_AV \<and> fill_sgid dev \<noteq> 0 then Some (fill_sgid dev, qp)
      else if has m IB_QP_ALT_PATH \<and> fill_sgid_alt dev \<noteq> 0 then Some (fill_sgid_alt dev, qp)
      else if has m IB_QP_ALT_PATH \<and> \<not> alt_is_ib dev then Some (EINVAL, qp)
      else mlx5_ib_modify_qp dev qp attr m)"

section \<open>Attributes from the connection manager\<close>

datatype ib_cm_state =
    IB_CM_IDLE | IB_CM_LISTEN | IB_CM_REQ_SENT | IB_CM_REQ_RCVD | IB_CM_MRA_REQ_SENT | IB_CM_MRA_REQ_RCVD
  | IB_CM_REP_SENT | IB_CM_REP_RCVD | IB_CM_MRA_REP_SENT | IB_CM_MRA_REP_RCVD | IB_CM_ESTABLISHED
  | IB_CM_DREQ_SENT | IB_CM_DREQ_RCVD | IB_CM_TIMEWAIT | IB_CM_SIDR_REQ_SENT | IB_CM_SIDR_REQ_RCVD

datatype ib_cm_lap_state =
    IB_CM_LAP_UNINIT | IB_CM_LAP_IDLE | IB_CM_LAP_SENT | IB_CM_LAP_RCVD | IB_CM_MRA_LAP_SENT | IB_CM_MRA_LAP_RCVD

record cm_id =
  cm_state :: ib_cm_state
  cm_lap_state :: ib_cm_lap_state
  cm_qp_type :: ib_qp_type
  cm_responder_resources :: nat
  cm_initiator_depth :: nat
  cm_pkey_index :: nat
  cm_port_num :: nat
  cm_alt_dlid :: u32
  cm_remote_qpn :: u32
  cm_sq_psn :: u32
  cm_rq_psn :: u32

definition IB_ACCESS_LOCAL_WRITE :: u32 where "IB_ACCESS_LOCAL_WRITE = 1"

definition cm_rtr_states :: "ib_cm_state set" where
  "cm_rtr_states = {IB_CM_REQ_RCVD, IB_CM_MRA_REQ_SENT, IB_CM_REP_RCVD, IB_CM_MRA_REP_SENT, IB_CM_REP_SENT,
     IB_CM_MRA_REP_RCVD, IB_CM_ESTABLISHED}"

definition cm_init_qp_init_attr :: "cm_id \<Rightarrow> mod_attr \<Rightarrow> u32 \<Rightarrow> int \<times> mod_attr \<times> u32" where
  "cm_init_qp_init_attr cm attr m =
     (if cm_state cm \<in> {IB_CM_REQ_SENT, IB_CM_MRA_REQ_RCVD} \<union> cm_rtr_states
      then (0, attr\<lparr>at_access_flags := IB_ACCESS_REMOTE_WRITE OR
          (if cm_responder_resources cm \<noteq> 0 then IB_ACCESS_REMOTE_READ OR IB_ACCESS_REMOTE_ATOMIC else 0),
        at_pkey_index := cm_pkey_index cm, at_port_num := cm_port_num cm\<rparr>,
        IB_QP_STATE OR IB_QP_ACCESS_FLAGS OR IB_QP_PKEY_INDEX OR IB_QP_PORT)
      else (- EINVAL, attr, m))"

definition cm_init_qp_rtr_attr :: "cm_id \<Rightarrow> mod_attr \<Rightarrow> u32 \<Rightarrow> int \<times> mod_attr \<times> u32" where
  "cm_init_qp_rtr_attr cm attr m =
     (if cm_state cm \<in> cm_rtr_states then
        let rc = cm_qp_type cm \<in> {IB_QPT_RC, IB_QPT_XRC_TGT}; attr = attr\<lparr>at_dest_qp_num := cm_remote_qpn cm, at_rq_psn := cm_rq_psn cm\<rparr> in
        (0, if rc then attr\<lparr>at_max_dest_rd_atomic := cm_responder_resources cm\<rparr> else attr,
          IB_QP_STATE OR IB_QP_AV OR IB_QP_PATH_MTU OR IB_QP_DEST_QPN OR IB_QP_RQ_PSN OR
          (if rc then IB_QP_MAX_DEST_RD_ATOMIC OR IB_QP_MIN_RNR_TIMER else 0) OR
          (if cm_alt_dlid cm \<noteq> 0 then IB_QP_ALT_PATH else 0))
      else (- EINVAL, attr, m))"

definition cm_init_qp_rts_attr :: "cm_id \<Rightarrow> mod_attr \<Rightarrow> u32 \<Rightarrow> int \<times> mod_attr \<times> u32" where
  "cm_init_qp_rts_attr cm attr m =
     (if cm_state cm \<in> cm_rtr_states then
        if cm_lap_state cm = IB_CM_LAP_UNINIT then
          let ini = cm_qp_type cm \<in> {IB_QPT_RC, IB_QPT_XRC_INI}; attr = attr\<lparr>at_sq_psn := cm_sq_psn cm\<rparr> in
          (0, if ini then attr\<lparr>at_max_rd_atomic := cm_initiator_depth cm\<rparr> else attr,
            IB_QP_STATE OR IB_QP_SQ_PSN OR
            (if ini then IB_QP_RETRY_CNT OR IB_QP_RNR_RETRY OR IB_QP_MAX_QP_RD_ATOMIC else 0) OR
            (if ini \<or> cm_qp_type cm = IB_QPT_XRC_TGT then IB_QP_TIMEOUT else 0) OR
            (if cm_alt_dlid cm \<noteq> 0 then IB_QP_PATH_MIG_STATE else 0))
        else (0, attr, IB_QP_ALT_PATH OR IB_QP_PATH_MIG_STATE)
      else (- EINVAL, attr, m))"

definition ib_cm_init_qp_attr :: "cm_id \<Rightarrow> mod_attr \<Rightarrow> u32 \<Rightarrow> int \<times> mod_attr \<times> u32" where
  "ib_cm_init_qp_attr cm attr m = (case at_state attr of
     IB_QPS_INIT \<Rightarrow> cm_init_qp_init_attr cm attr m
   | IB_QPS_RTR \<Rightarrow> cm_init_qp_rtr_attr cm attr m
   | IB_QPS_RTS \<Rightarrow> cm_init_qp_rts_attr cm attr m
   | _ \<Rightarrow> (- EINVAL, attr, m))"

section \<open>Reliable connections\<close>

definition MAX_RD_ATOMIC :: nat where "MAX_RD_ATOMIC = 16"

definition zero_attr :: mod_attr where
  "zero_attr = \<lparr>at_state = IB_QPS_RESET, at_cur_state = IB_QPS_RESET, at_access_flags = 0, at_port_num = 0, at_pkey_index = 0,
     at_max_rd_atomic = 0, at_max_dest_rd_atomic = 0, at_dest_qp_num = 0, at_rq_psn = 0, at_sq_psn = 0\<rparr>"

definition rc_access_flags :: u32 where
  "rc_access_flags = IB_ACCESS_LOCAL_WRITE OR IB_ACCESS_REMOTE_ATOMIC OR IB_ACCESS_REMOTE_READ OR IB_ACCESS_REMOTE_WRITE"

definition rc_bring_to_init :: "mod_dev \<Rightarrow> cm_id \<Rightarrow> verbs_qp \<Rightarrow> (int \<times> verbs_qp) option" where
  "rc_bring_to_init dev cm qp =
     (if vq_state qp = IB_QPS_RESET \<or> vq_state qp = IB_QPS_ERR then
        let (ret, attr, m) = ib_cm_init_qp_attr cm (zero_attr\<lparr>at_state := IB_QPS_INIT\<rparr>) IB_QP_STATE in
        if ret \<noteq> 0 then Some (ret, qp)
        else ib_modify_qp dev qp (attr\<lparr>at_access_flags := at_access_flags attr OR rc_access_flags\<rparr>) (m OR IB_QP_ACCESS_FLAGS)
      else Some (0, qp))"

definition rc_bring_to_rtr :: "mod_dev \<Rightarrow> cm_id \<Rightarrow> verbs_qp \<Rightarrow> (int \<times> verbs_qp) option" where
  "rc_bring_to_rtr dev cm qp = do {
     (err, qp) \<leftarrow> rc_bring_to_init dev cm qp;
     if err \<noteq> 0 then Some (err, qp)
     else if vq_state qp = IB_QPS_INIT then
       let (ret, attr, m) = ib_cm_init_qp_attr cm (zero_attr\<lparr>at_state := IB_QPS_RTR\<rparr>) IB_QP_STATE in
       if ret \<noteq> 0 then Some (ret, qp)
       else ib_modify_qp dev qp (attr\<lparr>at_rq_psn := vq_num qp, at_max_dest_rd_atomic := MAX_RD_ATOMIC\<rparr>) (m OR IB_QP_RQ_PSN OR IB_QP_MAX_DEST_RD_ATOMIC)
     else Some (0, qp)
   }"

definition rc_bring_to_rts :: "mod_dev \<Rightarrow> cm_id \<Rightarrow> verbs_qp \<Rightarrow> (int \<times> verbs_qp) option" where
  "rc_bring_to_rts dev cm qp =
     (if vq_state qp = IB_QPS_RTR then
        let (ret, attr, m) = ib_cm_init_qp_attr cm (zero_attr\<lparr>at_state := IB_QPS_RTS\<rparr>) IB_QP_STATE in
        if ret \<noteq> 0 then Some (ret, qp) else ib_modify_qp dev qp attr m
      else Some (0, qp))"

text \<open>The connection reply: the result of the last step is dropped.\<close>

definition rc_handle_reply :: "mod_dev \<Rightarrow> cm_id \<Rightarrow> verbs_qp \<Rightarrow> verbs_qp option" where
  "rc_handle_reply dev cm qp = do {
     (err, qp) \<leftarrow> rc_bring_to_rtr dev cm qp;
     if err = 0 then map_option snd (rc_bring_to_rts dev cm qp) else Some qp
   }"

text \<open>Connecting without the connection manager.\<close>

definition connector_bring_to_init :: "mod_dev \<Rightarrow> verbs_qp \<Rightarrow> (int \<times> verbs_qp) option" where
  "connector_bring_to_init dev qp =
     (if vq_state qp = IB_QPS_RESET \<or> vq_state qp = IB_QPS_ERR then
        ib_modify_qp dev qp (zero_attr\<lparr>at_port_num := 1, at_state := IB_QPS_INIT, at_access_flags := rc_access_flags\<rparr>)
          (IB_QP_STATE OR IB_QP_ACCESS_FLAGS OR IB_QP_PKEY_INDEX OR IB_QP_PORT)
      else Some (0, qp))"

definition connector_bring_init_to_rtr :: "mod_dev \<Rightarrow> verbs_qp \<Rightarrow> u32 \<Rightarrow> (int \<times> verbs_qp) option" where
  "connector_bring_init_to_rtr dev qp dst_qpn =
     (if vq_state qp = IB_QPS_INIT then
        ib_modify_qp dev qp (zero_attr\<lparr>at_state := IB_QPS_RTR, at_dest_qp_num := dst_qpn, at_rq_psn := dst_qpn, at_max_dest_rd_atomic := 16\<rparr>)
          (IB_QP_STATE OR IB_QP_AV OR IB_QP_PATH_MTU OR IB_QP_DEST_QPN OR IB_QP_RQ_PSN OR IB_QP_MAX_DEST_RD_ATOMIC OR
           IB_QP_MIN_RNR_TIMER)
      else Some (0, qp))"

definition connector_bring_rtr_to_rts :: "mod_dev \<Rightarrow> verbs_qp \<Rightarrow> (int \<times> verbs_qp) option" where
  "connector_bring_rtr_to_rts dev qp =
     (if vq_state qp = IB_QPS_RTR then
        ib_modify_qp dev qp (zero_attr\<lparr>at_state := IB_QPS_RTS, at_sq_psn := vq_num qp, at_max_rd_atomic := 16, at_max_dest_rd_atomic := 16\<rparr>)
          (IB_QP_STATE OR IB_QP_TIMEOUT OR IB_QP_RETRY_CNT OR IB_QP_RNR_RETRY OR IB_QP_MAX_QP_RD_ATOMIC OR IB_QP_SQ_PSN)
      else Some (0, qp))"

section \<open>Datagrams and dynamic connections\<close>

definition bring_ud_to_ready :: "mod_dev \<Rightarrow> verbs_qp \<Rightarrow> (int \<times> verbs_qp) option" where
  "bring_ud_to_ready dev qp =
     (if vq_state qp = IB_QPS_RESET then do {
        (ret, qp) \<leftarrow> ib_modify_qp dev qp (zero_attr\<lparr>at_state := IB_QPS_INIT, at_port_num := 1\<rparr>)
          (IB_QP_STATE OR IB_QP_PKEY_INDEX OR IB_QP_PORT OR IB_QP_QKEY);
        if ret \<noteq> 0 then Some (ret, qp) else do {
          (ret, qp) \<leftarrow> ib_modify_qp dev qp (zero_attr\<lparr>at_state := IB_QPS_RTR\<rparr>) IB_QP_STATE;
          if ret \<noteq> 0 then Some (ret, qp)
          else ib_modify_qp dev qp (zero_attr\<lparr>at_state := IB_QPS_RTS, at_sq_psn := vq_num qp\<rparr>) (IB_QP_STATE OR IB_QP_SQ_PSN)
        }
      } else Some (0, qp))"

definition bring_dc_to_init :: "mod_dev \<Rightarrow> verbs_qp \<Rightarrow> (int \<times> verbs_qp) option" where
  "bring_dc_to_init dev qp = ib_modify_qp dev qp (zero_attr\<lparr>at_state := IB_QPS_INIT, at_port_num := 1\<rparr>)
     (IB_QP_STATE OR IB_QP_PKEY_INDEX OR IB_QP_PORT OR IB_QP_DC_KEY)"

definition bring_dc_to_rtr :: "mod_dev \<Rightarrow> verbs_qp \<Rightarrow> (int \<times> verbs_qp) option" where
  "bring_dc_to_rtr dev qp = ib_modify_qp dev qp (zero_attr\<lparr>at_state := IB_QPS_RTR\<rparr>) (IB_QP_STATE OR IB_QP_PATH_MTU OR IB_QP_AV)"

definition bring_dc_to_rts :: "mod_dev \<Rightarrow> verbs_qp \<Rightarrow> (int \<times> verbs_qp) option" where
  "bring_dc_to_rts dev qp = ib_modify_qp dev qp (zero_attr\<lparr>at_state := IB_QPS_RTS, at_max_rd_atomic := 16\<rparr>)
     (IB_QP_STATE OR IB_QP_TIMEOUT OR IB_QP_RETRY_CNT OR IB_QP_RNR_RETRY OR IB_QP_MAX_QP_RD_ATOMIC)"

definition bring_dc_to_ready :: "mod_dev \<Rightarrow> verbs_qp \<Rightarrow> (bool \<times> verbs_qp) option" where
  "bring_dc_to_ready dev qp = do {
     (err, qp) \<leftarrow> bring_dc_to_init dev qp;
     if err \<noteq> 0 then Some (False, qp) else do {
       (err, qp) \<leftarrow> bring_dc_to_rtr dev qp;
       if err \<noteq> 0 then Some (False, qp) else do {
         (err, qp) \<leftarrow> bring_dc_to_rts dev qp;
         Some (err = 0, qp)
       }
     }
   }"

section \<open>Every queue pair becomes ready\<close>

lemma qp_context_ooo [simp]: "qp_context attr (m OR IB_EXP_QP_OOO_RW_DATA_PLACEMENT) qp = qp_context attr m qp"
  by (simp add: qp_context_def bit.conj_disj_distrib2 IB_EXP_QP_OOO_RW_DATA_PLACEMENT_def qp_attr_masks)

lemma modify_accepted:
  assumes "ib_modify_qp_is_ok (vq_state qp) (at_state attr) (vq_type qp) m = Some True"
    and "has m IB_QP_STATE" "\<not> has m IB_QP_CUR_STATE" "\<not> has m IB_QP_ALT_PATH" "at_state attr \<noteq> IB_QPS_RESET"
    and "fill_sgid dev = 0" "apply_modify dev = (\<lambda>_ _ _ _. 0)"
    and "has m IB_QP_PORT \<longrightarrow> 0 < at_port_num attr \<and> at_port_num attr \<le> num_ports dev"
    and "has m IB_QP_PKEY_INDEX \<longrightarrow> has m IB_QP_PORT \<and> at_pkey_index attr < pkey_table_len dev (at_port_num attr - 1)"
    and "has m IB_QP_MAX_QP_RD_ATOMIC \<longrightarrow> at_max_rd_atomic attr \<le> 2 ^ log_max_ra_res_qp dev"
    and "has m IB_QP_MAX_DEST_RD_ATOMIC \<longrightarrow> at_max_dest_rd_atomic attr \<le> 2 ^ log_max_ra_req_qp dev"
  shows "ib_modify_qp dev qp attr m =
    Some (0, (qp_context attr m qp)\<lparr>vq_state := at_state attr, vq_port := (if has m IB_QP_PORT then at_port_num attr else vq_port qp)\<rparr>)"
  using assms
  by (cases "has m IB_QP_PORT"; cases "has m IB_QP_PKEY_INDEX"; cases "has m IB_QP_MAX_QP_RD_ATOMIC";
      cases "has m IB_QP_MAX_DEST_RD_ATOMIC") (auto simp: ib_modify_qp_def mlx5_ib_modify_qp_def Let_def)


text \<open>What the library relies on: two ports are not needed, sixteen outstanding reads are.\<close>

definition dev_suits :: "mod_dev \<Rightarrow> bool" where
  "dev_suits dev \<longleftrightarrow> 1 \<le> num_ports dev \<and> 0 < pkey_table_len dev 0 \<and> 16 \<le> (2 :: nat) ^ log_max_ra_res_qp dev \<and>
     16 \<le> (2 :: nat) ^ log_max_ra_req_qp dev \<and> fill_sgid dev = 0 \<and> apply_modify dev = (\<lambda>_ _ _ _. 0)"

lemma bring_masks_ok:
  "ib_modify_qp_is_ok IB_QPS_RESET IB_QPS_INIT IB_QPT_RC (IB_QP_STATE OR IB_QP_ACCESS_FLAGS OR IB_QP_PKEY_INDEX OR IB_QP_PORT) = Some True"
  "ib_modify_qp_is_ok IB_QPS_INIT IB_QPS_RTR IB_QPT_RC (IB_QP_STATE OR IB_QP_AV OR IB_QP_PATH_MTU OR IB_QP_DEST_QPN OR IB_QP_RQ_PSN OR
     IB_QP_MAX_DEST_RD_ATOMIC OR IB_QP_MIN_RNR_TIMER) = Some True"
  "ib_modify_qp_is_ok IB_QPS_RTR IB_QPS_RTS IB_QPT_RC (IB_QP_STATE OR IB_QP_TIMEOUT OR IB_QP_RETRY_CNT OR IB_QP_RNR_RETRY OR
     IB_QP_MAX_QP_RD_ATOMIC OR IB_QP_SQ_PSN) = Some True"
  "ib_modify_qp_is_ok IB_QPS_RESET IB_QPS_INIT IB_QPT_UD (IB_QP_STATE OR IB_QP_PKEY_INDEX OR IB_QP_PORT OR IB_QP_QKEY) = Some True"
  "ib_modify_qp_is_ok IB_QPS_INIT IB_QPS_RTR IB_QPT_UD IB_QP_STATE = Some True"
  "ib_modify_qp_is_ok IB_QPS_RTR IB_QPS_RTS IB_QPT_UD (IB_QP_STATE OR IB_QP_SQ_PSN) = Some True"
  "ib_modify_qp_is_ok IB_QPS_RESET IB_QPS_INIT IB_EXP_QPT_DC_INI (IB_QP_STATE OR IB_QP_PKEY_INDEX OR IB_QP_PORT OR IB_QP_DC_KEY) = Some True"
  "ib_modify_qp_is_ok IB_QPS_INIT IB_QPS_RTR IB_EXP_QPT_DC_INI (IB_QP_STATE OR IB_QP_PATH_MTU OR IB_QP_AV) = Some True"
  "ib_modify_qp_is_ok IB_QPS_RTR IB_QPS_RTS IB_EXP_QPT_DC_INI (IB_QP_STATE OR IB_QP_TIMEOUT OR IB_QP_RETRY_CNT OR IB_QP_RNR_RETRY OR
     IB_QP_MAX_QP_RD_ATOMIC) = Some True"
  by (simp_all add: ib_modify_qp_is_ok_def qp_state_table_def qp_rows qpt_below_max_def qp_attr_masks)


text \<open>A connection identifier in a state in which the library brings its queue pair up.\<close>

definition cm_suits :: "mod_dev \<Rightarrow> cm_id \<Rightarrow> bool" where
  "cm_suits dev cm \<longleftrightarrow> cm_state cm \<in> cm_rtr_states \<and> cm_lap_state cm = IB_CM_LAP_UNINIT \<and> cm_qp_type cm = IB_QPT_RC \<and>
     cm_alt_dlid cm = 0 \<and> 0 < cm_port_num cm \<and> cm_port_num cm \<le> num_ports dev \<and>
     cm_pkey_index cm < pkey_table_len dev (cm_port_num cm - 1) \<and> cm_initiator_depth cm \<le> 2 ^ log_max_ra_res_qp dev"

lemmas bring_defs = zero_attr_def qp_context_def qp_attr_masks dev_suits_def cm_suits_def MAX_RD_ATOMIC_def

lemma cm_masks:
  "IB_QP_STATE OR IB_QP_ACCESS_FLAGS OR IB_QP_PKEY_INDEX OR IB_QP_PORT OR IB_QP_ACCESS_FLAGS =
    IB_QP_STATE OR IB_QP_ACCESS_FLAGS OR IB_QP_PKEY_INDEX OR IB_QP_PORT"
  "(IB_QP_STATE OR IB_QP_AV OR IB_QP_PATH_MTU OR IB_QP_DEST_QPN OR IB_QP_RQ_PSN OR (IB_QP_MAX_DEST_RD_ATOMIC OR IB_QP_MIN_RNR_TIMER) OR 0) OR
     IB_QP_RQ_PSN OR IB_QP_MAX_DEST_RD_ATOMIC =
   IB_QP_STATE OR IB_QP_AV OR IB_QP_PATH_MTU OR IB_QP_DEST_QPN OR IB_QP_RQ_PSN OR IB_QP_MAX_DEST_RD_ATOMIC OR IB_QP_MIN_RNR_TIMER"
  by (simp_all add: qp_attr_masks)

lemma cm_attrs:
  assumes "cm_suits dev cm"
  shows "\<exists>acc. ib_cm_init_qp_attr cm (zero_attr\<lparr>at_state := IB_QPS_INIT\<rparr>) IB_QP_STATE =
      (0, zero_attr\<lparr>at_state := IB_QPS_INIT, at_access_flags := acc, at_pkey_index := cm_pkey_index cm, at_port_num := cm_port_num cm\<rparr>,
       IB_QP_STATE OR IB_QP_ACCESS_FLAGS OR IB_QP_PKEY_INDEX OR IB_QP_PORT)"
    "ib_cm_init_qp_attr cm (zero_attr\<lparr>at_state := IB_QPS_RTR\<rparr>) IB_QP_STATE =
      (0, zero_attr\<lparr>at_state := IB_QPS_RTR, at_max_dest_rd_atomic := cm_responder_resources cm, at_dest_qp_num := cm_remote_qpn cm, at_rq_psn := cm_rq_psn cm\<rparr>,
       IB_QP_STATE OR IB_QP_AV OR IB_QP_PATH_MTU OR IB_QP_DEST_QPN OR IB_QP_RQ_PSN OR (IB_QP_MAX_DEST_RD_ATOMIC OR IB_QP_MIN_RNR_TIMER) OR 0)"
    "ib_cm_init_qp_attr cm (zero_attr\<lparr>at_state := IB_QPS_RTS\<rparr>) IB_QP_STATE =
      (0, zero_attr\<lparr>at_state := IB_QPS_RTS, at_max_rd_atomic := cm_initiator_depth cm, at_sq_psn := cm_sq_psn cm\<rparr>,
       IB_QP_STATE OR IB_QP_TIMEOUT OR IB_QP_RETRY_CNT OR IB_QP_RNR_RETRY OR IB_QP_MAX_QP_RD_ATOMIC OR IB_QP_SQ_PSN)"
  using assms
  by (auto simp: cm_suits_def ib_cm_init_qp_attr_def cm_init_qp_init_attr_def cm_init_qp_rtr_attr_def cm_init_qp_rts_attr_def
      zero_attr_def qp_attr_masks)

text \<open>A reliable connection ready to receive, and ready to send.\<close>

definition rc_receiving :: "cm_id \<Rightarrow> verbs_qp \<Rightarrow> verbs_qp" where
  "rc_receiving cm qp = qp\<lparr>vq_state := IB_QPS_RTR, vq_port := cm_port_num cm, vq_dest := cm_remote_qpn cm, vq_rq_psn := vq_num qp AND 0xFFFFFF\<rparr>"

definition rc_ready :: "cm_id \<Rightarrow> verbs_qp \<Rightarrow> verbs_qp" where
  "rc_ready cm qp = (rc_receiving cm qp)\<lparr>vq_state := IB_QPS_RTS, vq_sq_psn := cm_sq_psn cm AND 0xFFFFFF\<rparr>"

lemma rc_ready_sel [simp]:
  "vq_state (rc_receiving cm qp) = IB_QPS_RTR" "vq_type (rc_receiving cm qp) = vq_type qp" "vq_state (rc_ready cm qp) = IB_QPS_RTS"
  "vq_type (rc_ready cm qp) = vq_type qp" "vq_num (rc_ready cm qp) = vq_num qp" "vq_port (rc_ready cm qp) = cm_port_num cm"
  "vq_dest (rc_ready cm qp) = cm_remote_qpn cm" "vq_rq_psn (rc_ready cm qp) = vq_num qp AND 0xFFFFFF" "vq_sq_psn (rc_ready cm qp) = cm_sq_psn cm AND 0xFFFFFF"
  by (simp_all add: rc_ready_def rc_receiving_def)

lemma rc_steps:
  assumes d: "dev_suits dev" and c: "cm_suits dev cm" and t: "vq_type qp = IB_QPT_RC"
  shows "vq_state qp = IB_QPS_RESET \<Longrightarrow> rc_bring_to_init dev cm qp = Some (0, qp\<lparr>vq_state := IB_QPS_INIT, vq_port := cm_port_num cm\<rparr>)"
    "vq_state qp = IB_QPS_RESET \<Longrightarrow> rc_bring_to_rtr dev cm qp = Some (0, rc_receiving cm qp)"
    "vq_state qp = IB_QPS_RTR \<Longrightarrow> rc_bring_to_rts dev cm qp = Some (0, qp\<lparr>vq_state := IB_QPS_RTS, vq_sq_psn := cm_sq_psn cm AND 0xFFFFFF\<rparr>)"
proof -
  obtain acc where i: "ib_cm_init_qp_attr cm (zero_attr\<lparr>at_state := IB_QPS_INIT\<rparr>) IB_QP_STATE =
      (0, zero_attr\<lparr>at_state := IB_QPS_INIT, at_access_flags := acc, at_pkey_index := cm_pkey_index cm, at_port_num := cm_port_num cm\<rparr>,
       IB_QP_STATE OR IB_QP_ACCESS_FLAGS OR IB_QP_PKEY_INDEX OR IB_QP_PORT)" using cm_attrs(1) [OF c] by blast
  show init: "rc_bring_to_init dev cm qp = Some (0, qp\<lparr>vq_state := IB_QPS_INIT, vq_port := cm_port_num cm\<rparr>)" if "vq_state qp = IB_QPS_RESET"
    unfolding rc_bring_to_init_def i using that t c d bring_masks_ok(1)
    by (simp add: cm_masks) (subst modify_accepted; simp add: bring_defs)
  show "rc_bring_to_rtr dev cm qp = Some (0, rc_receiving cm qp)" if "vq_state qp = IB_QPS_RESET"
    unfolding rc_bring_to_rtr_def init [OF that] cm_attrs(2) [OF c] using t d bring_masks_ok(2)
    by (simp add: cm_masks del: or.right_neutral) (subst modify_accepted; simp add: bring_defs rc_receiving_def)
  show "rc_bring_to_rts dev cm qp = Some (0, qp\<lparr>vq_state := IB_QPS_RTS, vq_sq_psn := cm_sq_psn cm AND 0xFFFFFF\<rparr>)" if "vq_state qp = IB_QPS_RTR"
    unfolding rc_bring_to_rts_def cm_attrs(3) [OF c] using that t c d bring_masks_ok(3)
    by simp (subst modify_accepted; simp add: bring_defs)
qed

lemma rc_handle_reply_ready:
  assumes "dev_suits dev" and "cm_suits dev cm" and "vq_type qp = IB_QPT_RC" and "vq_state qp = IB_QPS_RESET"
  shows "rc_handle_reply dev cm qp = Some (rc_ready cm qp)"
  using rc_steps(2) [OF assms] rc_steps(3) [OF assms(1,2), of "rc_receiving cm qp"] assms(3)
  by (simp add: rc_handle_reply_def rc_ready_def)

text \<open>
  C9. On both sides of a connection the queue pair gets ready: from reset, with a connection identifier that
  has seen the request or the reply, the attributes supplied by the connection manager and by the library
  pass all checks of the verbs layer and of the driver, and the queue pair ends ready to send, expecting
  packets from its own number on and sending from the number the other side announced.
\<close>

theorem rc_bring_up:
  assumes "dev_suits dev" and "cm_suits dev cm" and "vq_type qp = IB_QPT_RC" and "vq_state qp = IB_QPS_RESET"
  shows "rc_handle_reply dev cm qp = Some (qp\<lparr>vq_state := IB_QPS_RTS, vq_port := cm_port_num cm, vq_dest := cm_remote_qpn cm,
    vq_rq_psn := vq_num qp AND 0xFFFFFF, vq_sq_psn := cm_sq_psn cm AND 0xFFFFFF\<rparr>)"
  using rc_handle_reply_ready [OF assms] by (simp add: rc_ready_def rc_receiving_def)


definition sample_dev :: mod_dev where
  "sample_dev = \<lparr>num_ports = 1, pkey_table_len = (\<lambda>_. 128), log_max_ra_res_qp = 4, log_max_ra_req_qp = 4, fill_sgid = 0,
     fill_sgid_alt = 0, alt_is_ib = True,
     ooo_enabled = True, multipath_rc_qp = True, multipath_xrc_qp = False, multipath_dc_qp = False, apply_modify = (\<lambda>_ _ _ _. 0)\<rparr>"

definition sample_cm :: "ib_cm_state \<Rightarrow> cm_id" where
  "sample_cm s = \<lparr>cm_state = s, cm_lap_state = IB_CM_LAP_UNINIT, cm_qp_type = IB_QPT_RC, cm_responder_resources = 16,
     cm_initiator_depth = 16, cm_pkey_index = 0, cm_port_num = 1, cm_alt_dlid = 0, cm_remote_qpn = 9, cm_sq_psn = 9, cm_rq_psn = 0\<rparr>"

definition sample_qp :: "ib_qp_type \<Rightarrow> u32 \<Rightarrow> verbs_qp" where
  "sample_qp t n = \<lparr>vq_type = t, vq_state = IB_QPS_RESET, vq_port = 0, vq_num = n, vq_dest = 0, vq_rq_psn = 0, vq_sq_psn = 0\<rparr>"

lemma sample_suits: "dev_suits sample_dev" "cm_suits sample_dev (sample_cm IB_CM_REP_RCVD)" "cm_suits sample_dev (sample_cm IB_CM_REQ_RCVD)"
  by (simp_all add: dev_suits_def cm_suits_def sample_dev_def sample_cm_def cm_rtr_states_def)

theorem rc_bring_up_witness:
  "rc_handle_reply sample_dev (sample_cm IB_CM_REP_RCVD) (sample_qp IB_QPT_RC 8) =
    Some \<lparr>vq_type = IB_QPT_RC, vq_state = IB_QPS_RTS, vq_port = 1, vq_num = 8, vq_dest = 9, vq_rq_psn = 8, vq_sq_psn = 9\<rparr>"
  using rc_bring_up [OF sample_suits(1,2), of "sample_qp IB_QPT_RC 8"] by (simp add: sample_cm_def sample_qp_def)

text \<open>
  C14. The queue pairs that need no connection get ready as well: datagram queue pairs, dynamically connected
  initiators, and reliable connections set up without the connection manager go from reset to
  ready to send in three accepted steps each.
\<close>

theorem unconnected_bring_up:
  assumes "dev_suits dev" and "vq_state qp = IB_QPS_RESET"
  shows "(vq_type qp = IB_QPT_UD \<longrightarrow> bring_ud_to_ready dev qp =
      Some (0, qp\<lparr>vq_state := IB_QPS_RTS, vq_port := 1, vq_sq_psn := vq_num qp AND 0xFFFFFF\<rparr>)) \<and>
    (vq_type qp = IB_EXP_QPT_DC_INI \<longrightarrow> bring_dc_to_ready dev qp = Some (True, qp\<lparr>vq_state := IB_QPS_RTS, vq_port := 1\<rparr>)) \<and>
    (vq_type qp = IB_QPT_RC \<longrightarrow> do {
        (_, qp) \<leftarrow> connector_bring_to_init dev qp; (_, qp) \<leftarrow> connector_bring_init_to_rtr dev qp n; connector_bring_rtr_to_rts dev qp } =
      Some (0, qp\<lparr>vq_state := IB_QPS_RTS, vq_port := 1, vq_dest := n, vq_rq_psn := n AND 0xFFFFFF, vq_sq_psn := vq_num qp AND 0xFFFFFF\<rparr>))"
proof (intro conjI impI)
  show "bring_ud_to_ready dev qp = Some (0, qp\<lparr>vq_state := IB_QPS_RTS, vq_port := 1, vq_sq_psn := vq_num qp AND 0xFFFFFF\<rparr>)" if "vq_type qp = IB_QPT_UD"
    using that assms bring_masks_ok(4-6) by (simp add: bring_ud_to_ready_def modify_accepted bring_defs)
  show "bring_dc_to_ready dev qp = Some (True, qp\<lparr>vq_state := IB_QPS_RTS, vq_port := 1\<rparr>)" if "vq_type qp = IB_EXP_QPT_DC_INI"
    using that assms bring_masks_ok(7-9)
    by (simp add: bring_dc_to_ready_def bring_dc_to_init_def bring_dc_to_rtr_def bring_dc_to_rts_def modify_accepted bring_defs)
  show "do { (_, qp) \<leftarrow> connector_bring_to_init dev qp; (_, qp) \<leftarrow> connector_bring_init_to_rtr dev qp n; connector_bring_rtr_to_rts dev qp } =
      Some (0, qp\<lparr>vq_state := IB_QPS_RTS, vq_port := 1, vq_dest := n, vq_rq_psn := n AND 0xFFFFFF, vq_sq_psn := vq_num qp AND 0xFFFFFF\<rparr>)" if "vq_type qp = IB_QPT_RC"
    using that assms bring_masks_ok(1-3)
    by (simp add: connector_bring_to_init_def connector_bring_init_to_rtr_def connector_bring_rtr_to_rts_def modify_accepted bring_defs)
qed

theorem unconnected_bring_up_witness:
  "bring_ud_to_ready sample_dev (sample_qp IB_QPT_UD 5) = Some (0, (sample_qp IB_QPT_UD 5)\<lparr>vq_state := IB_QPS_RTS, vq_port := 1, vq_sq_psn := 5\<rparr>) \<and>
   bring_dc_to_ready sample_dev (sample_qp IB_EXP_QPT_DC_INI 6) = Some (True, (sample_qp IB_EXP_QPT_DC_INI 6)\<lparr>vq_state := IB_QPS_RTS, vq_port := 1\<rparr>)"
  using unconnected_bring_up [OF sample_suits(1), of "sample_qp IB_QPT_UD 5"] unconnected_bring_up [OF sample_suits(1), of "sample_qp IB_EXP_QPT_DC_INI 6"]
  by (simp add: sample_qp_def)

lemma modify_from_error:
  assumes "vq_state qp = IB_QPS_ERR" "at_state attr = IB_QPS_INIT" "has m IB_QP_STATE" "\<not> has m IB_QP_CUR_STATE"
    "\<not> has m IB_QP_AV" "\<not> has m IB_QP_ALT_PATH"
  shows "ib_modify_qp dev qp attr m = Some (- EINVAL, qp)"
  using assms by (simp add: ib_modify_qp_def mlx5_ib_modify_qp_def ib_modify_qp_is_ok_def qp_valid)

text \<open>
  Reconnecting a queue pair that is in the error state never works.  Both variants of the first step are
  also taken in the error state, but the verbs layer has no transition from there to the initialised
  state: the call is refused, whatever the device, and the queue pair stays in error.
\<close>

theorem bring_to_init_from_error:
  assumes "vq_state qp = IB_QPS_ERR" and "cm_suits dev cm"
  shows "rc_bring_to_init dev cm qp = Some (- EINVAL, qp) \<and> connector_bring_to_init dev qp = Some (- EINVAL, qp) \<and>
    rc_handle_reply dev cm qp = Some qp"
proof -
  obtain acc where i: "ib_cm_init_qp_attr cm (zero_attr\<lparr>at_state := IB_QPS_INIT\<rparr>) IB_QP_STATE =
      (0, zero_attr\<lparr>at_state := IB_QPS_INIT, at_access_flags := acc, at_pkey_index := cm_pkey_index cm, at_port_num := cm_port_num cm\<rparr>,
       IB_QP_STATE OR IB_QP_ACCESS_FLAGS OR IB_QP_PKEY_INDEX OR IB_QP_PORT)" using cm_attrs(1) [OF assms(2)] by blast
  have "rc_bring_to_init dev cm qp = Some (- EINVAL, qp)"
    unfolding rc_bring_to_init_def i using assms(1) by (simp add: modify_from_error zero_attr_def qp_attr_masks)
  moreover have "connector_bring_to_init dev qp = Some (- EINVAL, qp)"
    using assms(1) by (simp add: connector_bring_to_init_def modify_from_error zero_attr_def qp_attr_masks)
  ultimately show ?thesis by (simp add: rc_handle_reply_def rc_bring_to_rtr_def EINVAL_def)
qed

theorem bring_to_init_from_error_witness:
  "rc_bring_to_init sample_dev (sample_cm IB_CM_REQ_RCVD) ((sample_qp IB_QPT_RC 8)\<lparr>vq_state := IB_QPS_ERR\<rparr>) =
    Some (- EINVAL, (sample_qp IB_QPT_RC 8)\<lparr>vq_state := IB_QPS_ERR\<rparr>)"
  using bring_to_init_from_error [OF _ sample_suits(3), of "(sample_qp IB_QPT_RC 8)\<lparr>vq_state := IB_QPS_ERR\<rparr>"] by simp

end
