(* ===== verification/KrMeta.thy ===== *)
theory KrMeta
  imports Prelude "HOL-Library.List_Lexorder" "HOL-Library.Char_ord"
begin

text \<open>
  The directory of dynamically connected endpoints: the handlers of the meta server
  (\<^verbatim>\<open>KRdmaKit-syscall/src/rpc/protocol.rs\<close>), the loop that serves requests (\<^verbatim>\<open>rpc/client.rs\<close>), and the
  lookup that a client makes with RDMA reads (\<^verbatim>\<open>query_dct_meta\<close> in \<^verbatim>\<open>virtual_queue.rs\<close>).  The textual form of
  a gid and the order in which a hash map lists its keys belong to libraries outside the
  repository; they are the parameters \<open>gid_to_str\<close> and \<open>keys\<close>.  A lookup is modelled on a page that is not
  being written meanwhile.
\<close>

unbundle bit_operations_syntax

section \<open>Endpoints\<close>

record temp_mr =
  mr_addr :: u64
  mr_capacity :: u32
  mr_rkey :: u32

text \<open>The sixteen bytes of a gid are one number; a null address handle is \<^const>\<open>None\<close>.\<close>

type_synonym gid = "128 word"

record end_point =
  ep_qpn :: u32
  ep_qkey :: u32
  ep_lid :: u16
  ep_gid :: gid
  ep_dct_num :: u32
  ep_mr :: temp_mr
  ep_ah :: "nat option"

definition self_clone :: "end_point \<Rightarrow> end_point" where
  "self_clone p = p\<lparr>ep_ah := None\<rparr>"

section \<open>State of the server\<close>

text \<open>
  A page holds the number of entries and, behind it, the entries; \<open>kv_slots\<close> are those that lie inside the
  page.  \<open>meta_info\<close> is the hash map of the module.
\<close>

record kv_page =
  kv_count :: u64
  kv_slots :: "end_point list"

record meta_server =
  meta_info :: "string \<rightharpoonup> end_point"
  meta_pages :: "kv_page list"

text \<open>The entries of \<open>esz\<close> bytes that fit into a page of 4096 bytes behind the 8-byte counter.\<close>

definition kv_capacity :: "nat \<Rightarrow> nat" where
  "kv_capacity esz = (4096 - 8) div esz"

section \<open>Handlers\<close>

fun write_entries :: "end_point list \<Rightarrow> nat \<Rightarrow> end_point list \<Rightarrow> end_point list option" where
  "write_entries slots idx [] = Some slots"
| "write_entries slots idx (p # ps) =
     (if idx < length slots then write_entries (slots[idx := self_clone p]) (idx + 1) ps else None)"

text \<open>\<open>keys\<close> enumerates the keys of the hash map.\<close>

definition write_page :: "((string \<rightharpoonup> end_point) \<Rightarrow> string list) \<Rightarrow> (string \<rightharpoonup> end_point) \<Rightarrow> kv_page \<Rightarrow> kv_page option" where
  "write_page keys info page = do {
     slots \<leftarrow> write_entries (kv_slots page) 0 (map (\<lambda>k. the (info k)) (keys info));
     Some \<lparr>kv_count = of_nat (length (keys info)), kv_slots = slots\<rparr>
   }"

fun write_pages :: "((string \<rightharpoonup> end_point) \<Rightarrow> string list) \<Rightarrow> (string \<rightharpoonup> end_point) \<Rightarrow> kv_page list \<Rightarrow> kv_page list option" where
  "write_pages keys info [] = Some []"
| "write_pages keys info (p # ps) = do {
     p \<leftarrow> write_page keys info p;
     ps \<leftarrow> write_pages keys info ps;
     Some (p # ps)
   }"

definition test_mem_index :: "meta_server \<Rightarrow> nat \<Rightarrow> nat option" where
  "test_mem_index st idx = (if meta_pages st = [] then None else Some (idx mod length (meta_pages st)))"

text \<open>The reply is the page whose address is returned.\<close>

definition reg_dc_meta_handler :: "(gid \<Rightarrow> string) \<Rightarrow> ((string \<rightharpoonup> end_point) \<Rightarrow> string list) \<Rightarrow> meta_server \<Rightarrow>
    gid \<Rightarrow> nat \<Rightarrow> end_point \<Rightarrow> (nat \<times> meta_server) option" where
  "reg_dc_meta_handler gid_to_str keys st gid port local_point = do {
     let info = (meta_info st)(gid_to_str gid \<mapsto> self_clone local_point);
     reply \<leftarrow> test_mem_index st port;
     pages \<leftarrow> write_pages keys info (meta_pages st);
     Some (reply, st\<lparr>meta_info := info, meta_pages := pages\<rparr>)
   }"

definition dereg_dc_meta_handler :: "(gid \<Rightarrow> string) \<Rightarrow> meta_server \<Rightarrow> gid \<Rightarrow> meta_server" where
  "dereg_dc_meta_handler gid_to_str st gid = st\<lparr>meta_info := (meta_info st)(gid_to_str gid := None)\<rparr>"

definition query_dc_meta_handler :: "(gid \<Rightarrow> string) \<Rightarrow> meta_server \<Rightarrow> gid \<Rightarrow> end_point option" where
  "query_dc_meta_handler gid_to_str st gid = map_option self_clone (meta_info st (gid_to_str gid))"

section \<open>The one-sided query\<close>

text \<open>The client reads the counter and then that many entries, and looks for the gid.\<close>

definition query_dct_meta :: "kv_page \<Rightarrow> gid \<Rightarrow> end_point option option" where
  "query_dct_meta page target =
     (if unat (kv_count page) \<le> length (kv_slots page)
      then Some (map_option self_clone (find (\<lambda>p. ep_gid p = target) (take (unat (kv_count page)) (kv_slots page))))
      else None)"

section \<open>The remote procedure calls\<close>

datatype rpc_request =
    Dummy
  | RegisterDCMeta gid nat end_point
  | DeregisterDcMeta gid
  | QueryDCMeta gid
  | Unregistered u8

datatype rpc_reply =
    Zeroed
  | DummyReply u64
  | RegReply nat
  | DeregReply u64
  | QueryReply end_point

record rpc_server =
  rs_meta :: meta_server
  rs_send_buffer :: rpc_reply

text \<open>
  One request of \<^verbatim>\<open>poll_all\<close>: the handler writes its reply into the send buffer and returns its length, and
  the buffer is sent to the endpoint named in the request, at least 64 bytes of it.
\<close>

definition rpc_handle :: "(gid \<Rightarrow> string) \<Rightarrow> ((string \<rightharpoonup> end_point) \<Rightarrow> string list) \<Rightarrow> nat \<Rightarrow> rpc_server \<Rightarrow> rpc_request \<Rightarrow>
    (nat \<times> rpc_server) option" where
  "rpc_handle gid_to_str keys query_len s req = (case req of
     Dummy \<Rightarrow> Some (64, s\<lparr>rs_send_buffer := DummyReply 1024\<rparr>)
   | RegisterDCMeta gid port point \<Rightarrow> do {
       (page, m) \<leftarrow> reg_dc_meta_handler gid_to_str keys (rs_meta s) gid port point;
       Some (max 64 64, s\<lparr>rs_meta := m, rs_send_buffer := RegReply page\<rparr>)
     }
   | DeregisterDcMeta gid \<Rightarrow>
       Some (max 64 64, s\<lparr>rs_meta := dereg_dc_meta_handler gid_to_str (rs_meta s) gid, rs_send_buffer := DeregReply 0\<rparr>)
   | QueryDCMeta gid \<Rightarrow> (case query_dc_meta_handler gid_to_str (rs_meta s) gid of
       None \<Rightarrow> Some (max 64 0, s)
     | Some p \<Rightarrow> Some (max 64 query_len, s\<lparr>rs_send_buffer := QueryReply p\<rparr>))
   | Unregistered _ \<Rightarrow> Some (64, s))"

text \<open>The messages sent back for a sequence of requests, in order.\<close>

fun rpc_poll :: "(gid \<Rightarrow> string) \<Rightarrow> ((string \<rightharpoonup> end_point) \<Rightarrow> string list) \<Rightarrow> nat \<Rightarrow> rpc_server \<Rightarrow> rpc_request list \<Rightarrow>
    ((nat \<times> rpc_reply) list \<times> rpc_server) option" where
  "rpc_poll gid_to_str keys query_len s [] = Some ([], s)"
| "rpc_poll gid_to_str keys query_len s (req # reqs) = do {
     (len, s) \<leftarrow> rpc_handle gid_to_str keys query_len s req;
     (sent, s') \<leftarrow> rpc_poll gid_to_str keys query_len s reqs;
     Some ((len, rs_send_buffer s) # sent, s')
   }"

section \<open>The table refines the hash map\<close>

text \<open>What is relied on of the hash map and of the textual form of gids.\<close>

definition enumerates :: "((string \<rightharpoonup> end_point) \<Rightarrow> string list) \<Rightarrow> bool" where
  "enumerates keys \<longleftrightarrow> (\<forall>m. finite (dom m) \<longrightarrow> distinct (keys m) \<and> set (keys m) = dom m)"

text \<open>
  The states of a server with pages of \<open>N\<close> entries.  Its hash map starts empty, or with the endpoint of the server itself, which
  \<^verbatim>\<open>conn_meta\<close> inserts with its address handle (\<^verbatim>\<open>client.rs\<close>); a client registers itself under its own gid.
\<close>

inductive meta_run :: "(gid \<Rightarrow> string) \<Rightarrow> ((string \<rightharpoonup> end_point) \<Rightarrow> string list) \<Rightarrow> nat \<Rightarrow> meta_server \<Rightarrow> bool"
  for gid_to_str keys N where
  start: "meta_pages st \<noteq> [] \<Longrightarrow> \<forall>p \<in> set (meta_pages st). length (kv_slots p) = N \<Longrightarrow>
    meta_info st = Map.empty \<or> (\<exists>p. meta_info st = [gid_to_str (ep_gid p) \<mapsto> p]) \<Longrightarrow>
    meta_run gid_to_str keys N st"
| reg: "meta_run gid_to_str keys N st \<Longrightarrow> reg_dc_meta_handler gid_to_str keys st (ep_gid p) port p = Some (page, st') \<Longrightarrow>
    meta_run gid_to_str keys N st'"
| dereg: "meta_run gid_to_str keys N st \<Longrightarrow> meta_run gid_to_str keys N (dereg_dc_meta_handler gid_to_str st gid)"

definition info_ok :: "(gid \<Rightarrow> string) \<Rightarrow> (string \<rightharpoonup> end_point) \<Rightarrow> bool" where
  "info_ok gid_to_str info \<longleftrightarrow> finite (dom info) \<and> (\<forall>k p. info k = Some p \<longrightarrow> k = gid_to_str (ep_gid p))"

lemma self_clone_simps [simp]: "ep_gid (self_clone p) = ep_gid p" "ep_ah (self_clone p) = None" "self_clone (self_clone p) = self_clone p"
  "ep_ah p = None \<Longrightarrow> self_clone p = p"
  by (cases p; simp add: self_clone_def)+

lemma info_ok_simps [simp]:
  "info_ok f Map.empty" "info_ok f [f (ep_gid p) \<mapsto> p]" "info_ok f info \<Longrightarrow> info_ok f (info(f (ep_gid p) \<mapsto> self_clone p))"
  "info_ok f info \<Longrightarrow> info_ok f (info(k := None))"
  by (auto simp: info_ok_def split: if_splits)

lemma write_entries_spec:
  "idx \<le> length xs \<Longrightarrow> write_entries xs idx ps =
    (if idx + length ps \<le> length xs then Some (take idx xs @ map self_clone ps @ drop (idx + length ps) xs) else None)"
proof (induction ps arbitrary: xs idx)
  case (Cons p ps)
  show ?case
  proof (cases "idx < length xs")
    case True
    then have "take (Suc idx) (xs[idx := self_clone p]) = take idx xs @ [self_clone p]" by (simp add: take_Suc_conv_app_nth)
    then show ?thesis using Cons.IH [of "Suc idx" "xs[idx := self_clone p]"] True by simp
  qed simp
qed simp

lemma write_page_spec:
  "write_page keys info page = (if length (keys info) \<le> length (kv_slots page)
    then Some \<lparr>kv_count = of_nat (length (keys info)),
      kv_slots = map (\<lambda>k. self_clone (the (info k))) (keys info) @ drop (length (keys info)) (kv_slots page)\<rparr> else None)"
  by (simp add: write_page_def write_entries_spec comp_def)

lemma write_pages_spec:
  assumes "\<forall>p \<in> set ps. length (kv_slots p) = N"
  shows "if length (keys info) \<le> N \<or> ps = [] then \<exists>ps'. write_pages keys info ps = Some ps' \<and> length ps' = length ps \<and>
      (\<forall>p \<in> set ps'. length (kv_slots p) = N \<and> kv_count p = of_nat (length (keys info)) \<and>
        take (length (keys info)) (kv_slots p) = map (\<lambda>k. self_clone (the (info k))) (keys info))
    else write_pages keys info ps = None"
  using assms by (induction ps) (auto simp: write_page_spec split: if_splits)

lemma find_info:
  assumes "inj f" "enumerates keys" "info_ok f info"
  shows "find (\<lambda>p. ep_gid p = g) (map (\<lambda>k. self_clone (the (info k))) (keys info)) = map_option self_clone (info (f g))"
proof -
  have ks: "set (keys info) = dom info" using assms(2,3) by (auto simp: enumerates_def info_ok_def)
  have same: "p = self_clone q" if "info (f g) = Some q" "p \<in> set (map (\<lambda>k. self_clone (the (info k))) (keys info))" "ep_gid p = g" for p q
    using that assms(3) ks by (force simp: info_ok_def)
  show ?thesis
  proof (cases "info (f g)")
    case None
    then show ?thesis using assms(3) ks by (auto simp: find_None_iff info_ok_def)
  next
    case (Some q)
    then have "ep_gid q = g" using assms(1,3) by (auto simp: info_ok_def dest: injD)
    moreover have "f g \<in> set (keys info)" using Some ks by auto
    then have "self_clone q \<in> set (map (\<lambda>k. self_clone (the (info k))) (keys info))" using Some by (force simp: image_iff)
    ultimately have "find (\<lambda>p. ep_gid p = g) (map (\<lambda>k. self_clone (the (info k))) (keys info)) \<noteq> None"
      unfolding find_None_iff by (metis self_clone_simps(1))
    then obtain p where p: "find (\<lambda>p. ep_gid p = g) (map (\<lambda>k. self_clone (the (info k))) (keys info)) = Some p" by blast
    then show ?thesis using same [OF Some, of p] Some by (auto simp: find_Some_iff)
  qed
qed


definition server_ok :: "(gid \<Rightarrow> string) \<Rightarrow> nat \<Rightarrow> meta_server \<Rightarrow> bool" where
  "server_ok f N st \<longleftrightarrow> info_ok f (meta_info st) \<and> meta_pages st \<noteq> [] \<and> (\<forall>p \<in> set (meta_pages st). length (kv_slots p) = N)"

lemma reg_spec:
  assumes "inj f" "enumerates keys" "server_ok f N st" "N < 2 ^ 64" and info: "info = (meta_info st)(f (ep_gid p) \<mapsto> self_clone p)"
  shows "if card (dom info) \<le> N then \<exists>st'. reg_dc_meta_handler f keys st (ep_gid p) port p = Some (port mod length (meta_pages st), st') \<and>
      server_ok f N st' \<and> meta_info st' = info \<and> length (meta_pages st') = length (meta_pages st) \<and>
      (\<forall>page \<in> set (meta_pages st'). \<forall>g. query_dct_meta page g = Some (map_option self_clone (info (f g))))
    else reg_dc_meta_handler f keys st (ep_gid p) port p = None"
proof -
  have ok: "info_ok f info" "meta_pages st \<noteq> []" "\<forall>p \<in> set (meta_pages st). length (kv_slots p) = N"
    using assms(3) by (simp_all add: server_ok_def info)
  have n: "length (keys info) = card (dom info)"
    using assms(2) ok(1) distinct_card [of "keys info"] by (auto simp: enumerates_def info_ok_def)
  have q: "query_dct_meta page g = Some (map_option self_clone (info (f g)))" if "card (dom info) \<le> N" "length (kv_slots page) = N"
    "kv_count page = of_nat (card (dom info))" "take (card (dom info)) (kv_slots page) = map (\<lambda>k. self_clone (the (info k))) (keys info)" for page g
  proof -
    have "unat (of_nat (card (dom info)) :: u64) = card (dom info)" using that(1) assms(4) by (simp add: unat_of_nat)
    then show ?thesis using that find_info [OF assms(1,2) ok(1), of g] by (simp add: query_dct_meta_def option.map_comp comp_def)
  qed
  show ?thesis
  proof (cases "card (dom info) \<le> N")
    case True
    from write_pages_spec [OF ok(3), of keys info] True n obtain ps where ps: "write_pages keys info (meta_pages st) = Some ps"
      "length ps = length (meta_pages st)" "\<forall>p \<in> set ps. length (kv_slots p) = N \<and> kv_count p = of_nat (card (dom info)) \<and>
        take (card (dom info)) (kv_slots p) = map (\<lambda>k. self_clone (the (info k))) (keys info)" by auto
    have "reg_dc_meta_handler f keys st (ep_gid p) port p =
        Some (port mod length (meta_pages st), st\<lparr>meta_info := info, meta_pages := ps\<rparr>)"
      using ps(1) ok(2) by (simp add: reg_dc_meta_handler_def test_mem_index_def info Let_def)
    moreover have "ps \<noteq> []" using ps(2) ok(2) by auto
    ultimately show ?thesis using True ok(1) ps(2,3) q by (simp add: server_ok_def)
  next
    case False
    then have "write_pages keys info (meta_pages st) = None" using write_pages_spec [OF ok(3), of keys info] n ok(2) by simp
    then show ?thesis using False ok(2) by (simp add: reg_dc_meta_handler_def test_mem_index_def info Let_def)
  qed
qed

lemma meta_run_ok:
  assumes "meta_run f keys N st" "inj f" "enumerates keys" "N < 2 ^ 64"
  shows "server_ok f N st"
  using assms(1)
proof induction
  case (reg st p port page st')
  then show ?case using reg_spec [OF assms(2,3) reg.IH assms(4) refl, of p port] by (auto split: if_splits)
qed (auto simp: server_ok_def dereg_dc_meta_handler_def)

text \<open>An enumeration of the keys, a textual form and a server with two pages of one entry to evaluate.\<close>

definition sorted_keys :: "(string \<rightharpoonup> end_point) \<Rightarrow> string list" where
  "sorted_keys m = sorted_list_of_set (dom m)"

definition gid_bits :: "gid \<Rightarrow> string" where
  "gid_bits g = map (\<lambda>i. if bit g i then CHR ''1'' else CHR ''0'') [0..<128]"

definition sample_point :: end_point where
  "sample_point = \<lparr>ep_qpn = 7, ep_qkey = 1, ep_lid = 3, ep_gid = 42, ep_dct_num = 9,
     ep_mr = \<lparr>mr_addr = 4096, mr_capacity = 64, mr_rkey = 5\<rparr>, ep_ah = Some 1\<rparr>"

definition sample_server :: meta_server where
  "sample_server = \<lparr>meta_info = Map.empty, meta_pages =
     replicate 2 \<lparr>kv_count = 0, kv_slots = replicate (kv_capacity 4088) sample_point\<rparr>\<rparr>"

lemma sample_keys [simp]: "enumerates sorted_keys"
  by (simp add: enumerates_def sorted_keys_def)

lemma gid_bits_inj [simp]: "inj gid_bits"
proof (rule injI)
  fix g h :: gid
  assume "gid_bits g = gid_bits h"
  then have "bit g i \<longleftrightarrow> bit h i" if "i < 128" for i using that by (auto simp: gid_bits_def split: if_splits)
  then show "g = h" by (intro bit_word_eqI) simp
qed

lemma sample_server_run [simp]: "meta_run gid_bits sorted_keys 1 sample_server"
  by (rule meta_run.start) (simp_all add: sample_server_def kv_capacity_def)

text \<open>
  C10. A registration makes the table that clients read equal to the hash map.  At any point in the life of the server,
  when an endpoint is registered and all registered endpoints fit into a page, every page afterwards answers
  the one-sided query for every gid exactly as the handler for queries does from the hash map, the new endpoint included;
  a later removal from the hash map does not reach the pages.  With one endpoint more than fits, the
  handler writes past the end of the page.
\<close>

theorem reg_dc_meta_refines:
  assumes "inj f" and "enumerates keys" and "kv_capacity esz = N" and "meta_run f keys N st"
    and "info = (meta_info st)(f (ep_gid p) \<mapsto> self_clone p)"
  shows "if card (dom info) \<le> N then \<exists>st'. reg_dc_meta_handler f keys st (ep_gid p) port p = Some (port mod length (meta_pages st), st') \<and>
      meta_info st' = info \<and>
      (\<forall>page \<in> set (meta_pages st'). \<forall>g. query_dct_meta page g = Some (query_dc_meta_handler f st' g))
    else reg_dc_meta_handler f keys st (ep_gid p) port p = None"
proof -
  have "N \<le> 4088 div 1" unfolding assms(3) [symmetric] kv_capacity_def by (cases esz) (simp_all add: div_le_mono2)
  then have N: "N < 2 ^ 64" by simp
  show ?thesis
    using reg_spec [OF assms(1,2) meta_run_ok [OF assms(4,1,2) N] N assms(5), of port] by (auto simp: query_dc_meta_handler_def split: if_splits)
qed

theorem reg_dc_meta_refines_witness:
  "\<exists>st'. reg_dc_meta_handler gid_bits sorted_keys sample_server 42 5 sample_point = Some (1, st') \<and>
    (\<forall>page \<in> set (meta_pages st'). query_dct_meta page 42 = Some (Some (self_clone sample_point)) \<and> query_dct_meta page 43 = Some None)"
  using reg_dc_meta_refines [of gid_bits sorted_keys 4088 1 sample_server _ sample_point 5, OF _ _ _ _ refl]
  by (auto simp: kv_capacity_def sample_server_def sample_point_def query_dc_meta_handler_def inj_eq [OF gid_bits_inj]
    sample_server_run [unfolded sample_server_def kv_capacity_def sample_point_def, simplified])

text \<open>
  C16. Deregistering does not reach the table.  The hash map forgets the endpoint at once, but the pages are
  not rewritten: a client that reads them still finds the endpoint that has gone, until
  someone else registers.
\<close>

theorem dereg_dc_meta_stale:
  assumes "inj f" and "enumerates keys" and "N < 2 ^ 64" and "meta_run f keys N st"
    and "reg_dc_meta_handler f keys st (ep_gid p) port p = Some (reply, st1)"
    and "st2 = dereg_dc_meta_handler f st1 (ep_gid p)"
  shows "query_dc_meta_handler f st2 (ep_gid p) = None \<and>
    (\<forall>page \<in> set (meta_pages st2). query_dct_meta page (ep_gid p) = Some (Some (self_clone p)))"
  using reg_spec [OF assms(1,2) meta_run_ok [OF assms(4,1-3)] assms(3) refl, of p port] assms(5,6)
  by (auto simp: query_dc_meta_handler_def dereg_dc_meta_handler_def split: if_splits)

theorem dereg_dc_meta_stale_witness:
  "\<exists>st1 st2. reg_dc_meta_handler gid_bits sorted_keys sample_server 42 5 sample_point = Some (1, st1) \<and>
    st2 = dereg_dc_meta_handler gid_bits st1 42 \<and> query_dc_meta_handler gid_bits st2 42 = None \<and>
    (\<forall>page \<in> set (meta_pages st2). query_dct_meta page 42 = Some (Some (self_clone sample_point)))"
proof -
  have gid: "ep_gid sample_point = 42" by (simp add: sample_point_def)
  have "write_pages sorted_keys [gid_bits 42 \<mapsto> self_clone sample_point] (meta_pages sample_server) =
      Some (replicate 2 \<lparr>kv_count = 1, kv_slots = [self_clone sample_point]\<rparr>)"
    by (simp add: sample_server_def kv_capacity_def numeral_2_eq_2 write_page_def sorted_keys_def)
  then have "reg_dc_meta_handler gid_bits sorted_keys sample_server (ep_gid sample_point) 5 sample_point = Some (1,
      \<lparr>meta_info = [gid_bits 42 \<mapsto> self_clone sample_point],
       meta_pages = replicate 2 \<lparr>kv_count = 1, kv_slots = [self_clone sample_point]\<rparr>\<rparr>)"
    by (simp add: reg_dc_meta_handler_def test_mem_index_def gid) (simp add: sample_server_def)
  from dereg_dc_meta_stale [OF _ _ _ sample_server_run this refl] this show ?thesis by (simp add: gid)
qed

text \<open>
  C17. A failed query is answered with somebody else's endpoint.  The handler writes no reply for a gid it does
  not know, yet the send buffer is sent all the same; after a successful query it still
  holds the endpoint of that query, which the caller takes for its answer.
\<close>

theorem query_miss_repeats_reply:
  assumes "meta_info (rs_meta s) (f g) = Some p" and "meta_info (rs_meta s) (f g') = None"
  shows "rpc_poll f keys query_len s [QueryDCMeta g, QueryDCMeta g'] =
    Some ([(max 64 query_len, QueryReply (self_clone p)), (64, QueryReply (self_clone p))],
      s\<lparr>rs_send_buffer := QueryReply (self_clone p)\<rparr>)"
  using assms by (simp add: rpc_handle_def query_dc_meta_handler_def)


theorem query_miss_repeats_reply_witness:
  "\<exists>s. rs_meta s = sample_server\<lparr>meta_info := [gid_bits 42 \<mapsto> sample_point]\<rparr> \<and>
    rpc_poll gid_bits sorted_keys 80 s [QueryDCMeta 42, QueryDCMeta 43] =
      Some ([(max 64 80, QueryReply (self_clone sample_point)), (64, QueryReply (self_clone sample_point))], s\<lparr>rs_send_buffer := QueryReply (self_clone sample_point)\<rparr>)"
  by (rule exI [of _ "\<lparr>rs_meta = sample_server\<lparr>meta_info := [gid_bits 42 \<mapsto> sample_point]\<rparr>, rs_send_buffer = Zeroed\<rparr>"],
    intro conjI query_miss_repeats_reply) (simp_all add: inj_eq [OF gid_bits_inj])

end
