(* ===== verification/CmMsg.thy ===== *)
theory CmMsg
  imports QpState
begin

text \<open>
  Connection requests and replies of the communication manager: the accessors of their bit fields
  (\<^verbatim>\<open>drivers/infiniband/core/cm_msgs.h\<close>) and the functions of \<^verbatim>\<open>cm.c\<close> that fill a message from parameters and read an
  event from a message.  Words are in host order.  The members that describe the two paths are left
  out: they only enter the address vectors, which are parameters of the callers.
\<close>

unbundle bit_operations_syntax

section \<open>Connection requests\<close>

text \<open>\<open>'p\<close> is the private data, which the message carries unchanged.\<close>

record 'p cm_req_msg =
  req_service_id :: u64
  offset32 :: u32
  offset36 :: u32
  offset40 :: u32
  offset44 :: u32
  offset50 :: u8
  offset51 :: u8
  req_private :: 'p

definition cm_req_get_local_qpn :: "'p cm_req_msg \<Rightarrow> u32" where
  "cm_req_get_local_qpn m = drop_bit 8 (offset32 m)"

definition cm_req_set_local_qpn :: "u32 \<Rightarrow> 'p cm_req_msg \<Rightarrow> 'p cm_req_msg" where
  "cm_req_set_local_qpn qpn m = m\<lparr>offset32 := push_bit 8 qpn OR (offset32 m AND 0x000000FF)\<rparr>"

definition cm_req_get_resp_res :: "'p cm_req_msg \<Rightarrow> u8" where
  "cm_req_get_resp_res m = ucast (offset32 m)"

definition cm_req_set_resp_res :: "u8 \<Rightarrow> 'p cm_req_msg \<Rightarrow> 'p cm_req_msg" where
  "cm_req_set_resp_res v m = m\<lparr>offset32 := ucast v OR (offset32 m AND 0xFFFFFF00)\<rparr>"

definition cm_req_get_init_depth :: "'p cm_req_msg \<Rightarrow> u8" where
  "cm_req_get_init_depth m = ucast (offset36 m)"

definition cm_req_set_init_depth :: "u8 \<Rightarrow> 'p cm_req_msg \<Rightarrow> 'p cm_req_msg" where
  "cm_req_set_init_depth v m = m\<lparr>offset36 := ucast v OR (offset36 m AND 0xFFFFFF00)\<rparr>"

definition cm_req_get_remote_resp_timeout :: "'p cm_req_msg \<Rightarrow> u8" where
  "cm_req_get_remote_resp_timeout m = ucast (drop_bit 3 (offset40 m AND 0xF8))"

definition cm_req_set_remote_resp_timeout :: "u8 \<Rightarrow> 'p cm_req_msg \<Rightarrow> 'p cm_req_msg" where
  "cm_req_set_remote_resp_timeout v m = m\<lparr>offset40 := push_bit 3 (ucast v) OR (offset40 m AND 0xFFFFFF07)\<rparr>"

definition cm_req_get_qp_type :: "'p cm_req_msg \<Rightarrow> ib_qp_type" where
  "cm_req_get_qp_type m =
     (let transport_type = drop_bit 1 (ucast (offset40 m AND 0x06) :: u8) in
      if transport_type = 0 then IB_QPT_RC
      else if transport_type = 1 then IB_QPT_UC
      else if transport_type = 3 then (if offset51 m AND 0x7 = 1 then IB_QPT_XRC_TGT else IB_QPT_SMI)
      else IB_QPT_SMI)"

definition cm_req_set_qp_type :: "ib_qp_type \<Rightarrow> 'p cm_req_msg \<Rightarrow> 'p cm_req_msg" where
  "cm_req_set_qp_type t m = (case t of
     IB_QPT_UC \<Rightarrow> m\<lparr>offset40 := (offset40 m AND 0xFFFFFFF9) OR 0x2\<rparr>
   | IB_QPT_XRC_INI \<Rightarrow> m\<lparr>offset40 := (offset40 m AND 0xFFFFFFF9) OR 0x6, offset51 := (offset51 m AND 0xF8) OR 1\<rparr>
   | _ \<Rightarrow> m\<lparr>offset40 := offset40 m AND 0xFFFFFFF9\<rparr>)"

definition cm_req_get_flow_ctrl :: "'p cm_req_msg \<Rightarrow> u8" where
  "cm_req_get_flow_ctrl m = ucast (offset40 m AND 0x1)"

definition cm_req_set_flow_ctrl :: "u8 \<Rightarrow> 'p cm_req_msg \<Rightarrow> 'p cm_req_msg" where
  "cm_req_set_flow_ctrl v m = m\<lparr>offset40 := ucast (v AND 0x1) OR (offset40 m AND 0xFFFFFFFE)\<rparr>"

definition cm_req_get_starting_psn :: "'p cm_req_msg \<Rightarrow> u32" where
  "cm_req_get_starting_psn m = drop_bit 8 (offset44 m)"

definition cm_req_set_starting_psn :: "u32 \<Rightarrow> 'p cm_req_msg \<Rightarrow> 'p cm_req_msg" where
  "cm_req_set_starting_psn v m = m\<lparr>offset44 := push_bit 8 v OR (offset44 m AND 0x000000FF)\<rparr>"

definition cm_req_get_local_resp_timeout :: "'p cm_req_msg \<Rightarrow> u8" where
  "cm_req_get_local_resp_timeout m = ucast (drop_bit 3 (offset44 m AND 0xF8))"

definition cm_req_set_local_resp_timeout :: "u8 \<Rightarrow> 'p cm_req_msg \<Rightarrow> 'p cm_req_msg" where
  "cm_req_set_local_resp_timeout v m = m\<lparr>offset44 := push_bit 3 (ucast v) OR (offset44 m AND 0xFFFFFF07)\<rparr>"

definition cm_req_get_retry_count :: "'p cm_req_msg \<Rightarrow> u8" where
  "cm_req_get_retry_count m = ucast (offset44 m AND 0x7)"

definition cm_req_set_retry_count :: "u8 \<Rightarrow> 'p cm_req_msg \<Rightarrow> 'p cm_req_msg" where
  "cm_req_set_retry_count v m = m\<lparr>offset44 := ucast (v AND 0x7) OR (offset44 m AND 0xFFFFFFF8)\<rparr>"

definition cm_req_get_path_mtu :: "'p cm_req_msg \<Rightarrow> u8" where
  "cm_req_get_path_mtu m = drop_bit 4 (offset50 m)"

definition cm_req_set_path_mtu :: "u8 \<Rightarrow> 'p cm_req_msg \<Rightarrow> 'p cm_req_msg" where
  "cm_req_set_path_mtu v m = m\<lparr>offset50 := (offset50 m AND 0xF) OR push_bit 4 v\<rparr>"

definition cm_req_get_rnr_retry_count :: "'p cm_req_msg \<Rightarrow> u8" where
  "cm_req_get_rnr_retry_count m = offset50 m AND 0x7"

definition cm_req_set_rnr_retry_count :: "u8 \<Rightarrow> 'p cm_req_msg \<Rightarrow> 'p cm_req_msg" where
  "cm_req_set_rnr_retry_count v m = m\<lparr>offset50 := (offset50 m AND 0xF8) OR (v AND 0x7)\<rparr>"

definition cm_req_get_max_cm_retries :: "'p cm_req_msg \<Rightarrow> u8" where
  "cm_req_get_max_cm_retries m = drop_bit 4 (offset51 m)"

definition cm_req_set_max_cm_retries :: "u8 \<Rightarrow> 'p cm_req_msg \<Rightarrow> 'p cm_req_msg" where
  "cm_req_set_max_cm_retries v m = m\<lparr>offset51 := (offset51 m AND 0xF) OR push_bit 4 v\<rparr>"

definition cm_req_get_srq :: "'p cm_req_msg \<Rightarrow> u8" where
  "cm_req_get_srq m = drop_bit 3 (offset51 m AND 0x8)"

definition cm_req_set_srq :: "u8 \<Rightarrow> 'p cm_req_msg \<Rightarrow> 'p cm_req_msg" where
  "cm_req_set_srq v m = m\<lparr>offset51 := (offset51 m AND 0xF7) OR push_bit 3 (v AND 0x1)\<rparr>"

text \<open>The parameters; the maximum transfer unit is that of the primary path, and there is no alternate path.\<close>

record 'p ib_cm_req_param =
  rp_service_id :: u64
  rp_qp_num :: u32
  rp_qp_type :: ib_qp_type
  rp_starting_psn :: u32
  rp_private_data :: 'p
  rp_private_data_len :: nat
  rp_peer_to_peer :: bool
  rp_responder_resources :: u8
  rp_initiator_depth :: u8
  rp_remote_cm_response_timeout :: u8
  rp_flow_control :: u8
  rp_local_cm_response_timeout :: u8
  rp_retry_count :: u8
  rp_rnr_retry_count :: u8
  rp_max_cm_retries :: u8
  rp_srq :: u8
  rp_mtu :: u8

text \<open>Message buffers are allocated with zeros.\<close>

definition cm_format_req :: "'p ib_cm_req_param \<Rightarrow> 'p cm_req_msg" where
  "cm_format_req p =
     (let m = \<lparr>req_service_id = rp_service_id p, offset32 = 0, offset36 = 0, offset40 = 0, offset44 = 0, offset50 = 0, offset51 = 0,
        req_private = rp_private_data p\<rparr>;
        m = cm_req_set_local_qpn (rp_qp_num p) m;
        m = cm_req_set_init_depth (rp_initiator_depth p) m;
        m = cm_req_set_remote_resp_timeout (rp_remote_cm_response_timeout p) m;
        m = cm_req_set_qp_type (rp_qp_type p) m;
        m = cm_req_set_flow_ctrl (rp_flow_control p) m;
        m = cm_req_set_starting_psn (rp_starting_psn p) m;
        m = cm_req_set_local_resp_timeout (rp_local_cm_response_timeout p) m;
        m = cm_req_set_path_mtu (rp_mtu p) m;
        m = cm_req_set_max_cm_retries (rp_max_cm_retries p) m
      in if rp_qp_type p \<noteq> IB_QPT_XRC_INI then
           cm_req_set_srq (rp_srq p) (cm_req_set_rnr_retry_count (rp_rnr_retry_count p)
             (cm_req_set_retry_count (rp_retry_count p) (cm_req_set_resp_res (rp_responder_resources p) m)))
         else m)"

text \<open>What the handler of the listening side gets: resources and depth are swapped to its own point of view.\<close>

record 'p ib_cm_req_event_param =
  ev_remote_qpn :: u32
  ev_qp_type :: ib_qp_type
  ev_starting_psn :: u32
  ev_responder_resources :: u8
  ev_initiator_depth :: u8
  ev_local_cm_response_timeout :: u8
  ev_flow_control :: u8
  ev_remote_cm_response_timeout :: u8
  ev_retry_count :: u8
  ev_rnr_retry_count :: u8
  ev_srq :: u8
  ev_private :: 'p

definition cm_format_req_event :: "'p cm_req_msg \<Rightarrow> 'p ib_cm_req_event_param" where
  "cm_format_req_event m = \<lparr>ev_remote_qpn = cm_req_get_local_qpn m, ev_qp_type = cm_req_get_qp_type m,
     ev_starting_psn = cm_req_get_starting_psn m, ev_responder_resources = cm_req_get_init_depth m,
     ev_initiator_depth = cm_req_get_resp_res m, ev_local_cm_response_timeout = cm_req_get_remote_resp_timeout m,
     ev_flow_control = cm_req_get_flow_ctrl m, ev_remote_cm_response_timeout = cm_req_get_local_resp_timeout m,
     ev_retry_count = cm_req_get_retry_count m, ev_rnr_retry_count = cm_req_get_rnr_retry_count m, ev_srq = cm_req_get_srq m,
     ev_private = req_private m\<rparr>"

section \<open>Connection replies\<close>

record 'p cm_rep_msg =
  offset12 :: u32
  offset16 :: u32
  offset20 :: u32
  rep_resp_resources :: u8
  rep_initiator_depth :: u8
  offset26 :: u8
  offset27 :: u8
  rep_private :: 'p

definition cm_rep_get_local_qpn :: "'p cm_rep_msg \<Rightarrow> u32" where
  "cm_rep_get_local_qpn m = drop_bit 8 (offset12 m)"

definition cm_rep_set_local_qpn :: "u32 \<Rightarrow> 'p cm_rep_msg \<Rightarrow> 'p cm_rep_msg" where
  "cm_rep_set_local_qpn v m = m\<lparr>offset12 := push_bit 8 v OR (offset12 m AND 0x000000FF)\<rparr>"

definition cm_rep_get_local_eecn :: "'p cm_rep_msg \<Rightarrow> u32" where
  "cm_rep_get_local_eecn m = drop_bit 8 (offset16 m)"

definition cm_rep_set_local_eecn :: "u32 \<Rightarrow> 'p cm_rep_msg \<Rightarrow> 'p cm_rep_msg" where
  "cm_rep_set_local_eecn v m = m\<lparr>offset16 := push_bit 8 v OR (offset16 m AND 0x000000FF)\<rparr>"

definition cm_rep_get_qpn :: "'p cm_rep_msg \<Rightarrow> ib_qp_type \<Rightarrow> u32" where
  "cm_rep_get_qpn m t = (if t = IB_QPT_XRC_INI then cm_rep_get_local_eecn m else cm_rep_get_local_qpn m)"

definition cm_rep_get_starting_psn :: "'p cm_rep_msg \<Rightarrow> u32" where
  "cm_rep_get_starting_psn m = drop_bit 8 (offset20 m)"

definition cm_rep_set_starting_psn :: "u32 \<Rightarrow> 'p cm_rep_msg \<Rightarrow> 'p cm_rep_msg" where
  "cm_rep_set_starting_psn v m = m\<lparr>offset20 := push_bit 8 v OR (offset20 m AND 0x000000FF)\<rparr>"

definition cm_rep_get_target_ack_delay :: "'p cm_rep_msg \<Rightarrow> u8" where
  "cm_rep_get_target_ack_delay m = drop_bit 3 (offset26 m)"

definition cm_rep_set_target_ack_delay :: "u8 \<Rightarrow> 'p cm_rep_msg \<Rightarrow> 'p cm_rep_msg" where
  "cm_rep_set_target_ack_delay v m = m\<lparr>offset26 := (offset26 m AND 0x07) OR push_bit 3 v\<rparr>"

definition cm_rep_get_failover :: "'p cm_rep_msg \<Rightarrow> u8" where
  "cm_rep_get_failover m = drop_bit 1 (offset26 m AND 0x06)"

definition cm_rep_set_failover :: "u8 \<Rightarrow> 'p cm_rep_msg \<Rightarrow> 'p cm_rep_msg" where
  "cm_rep_set_failover v m = m\<lparr>offset26 := (offset26 m AND 0xF9) OR push_bit 1 (v AND 0x3)\<rparr>"

definition cm_rep_get_flow_ctrl :: "'p cm_rep_msg \<Rightarrow> u8" where
  "cm_rep_get_flow_ctrl m = offset26 m AND 0x01"

definition cm_rep_set_flow_ctrl :: "u8 \<Rightarrow> 'p cm_rep_msg \<Rightarrow> 'p cm_rep_msg" where
  "cm_rep_set_flow_ctrl v m = m\<lparr>offset26 := (offset26 m AND 0xFE) OR (v AND 0x1)\<rparr>"

definition cm_rep_get_rnr_retry_count :: "'p cm_rep_msg \<Rightarrow> u8" where
  "cm_rep_get_rnr_retry_count m = drop_bit 5 (offset27 m)"

definition cm_rep_set_rnr_retry_count :: "u8 \<Rightarrow> 'p cm_rep_msg \<Rightarrow> 'p cm_rep_msg" where
  "cm_rep_set_rnr_retry_count v m = m\<lparr>offset27 := (offset27 m AND 0x1F) OR push_bit 5 v\<rparr>"

definition cm_rep_get_srq :: "'p cm_rep_msg \<Rightarrow> u8" where
  "cm_rep_get_srq m = drop_bit 4 (offset27 m) AND 0x1"

definition cm_rep_set_srq :: "u8 \<Rightarrow> 'p cm_rep_msg \<Rightarrow> 'p cm_rep_msg" where
  "cm_rep_set_srq v m = m\<lparr>offset27 := (offset27 m AND 0xEF) OR push_bit 4 (v AND 0x1)\<rparr>"

record 'p ib_cm_rep_param =
  pp_qp_num :: u32
  pp_starting_psn :: u32
  pp_private_data :: 'p
  pp_private_data_len :: nat
  pp_responder_resources :: u8
  pp_initiator_depth :: u8
  pp_failover_accepted :: u8
  pp_flow_control :: u8
  pp_rnr_retry_count :: u8
  pp_srq :: u8

definition cm_format_rep :: "u8 \<Rightarrow> ib_qp_type \<Rightarrow> 'p ib_cm_rep_param \<Rightarrow> 'p cm_rep_msg" where
  "cm_format_rep ack_delay t p =
     (let m = \<lparr>offset12 = 0, offset16 = 0, offset20 = 0, rep_resp_resources = 0, rep_initiator_depth = 0, offset26 = 0, offset27 = 0,
        rep_private = pp_private_data p\<rparr>;
        m = cm_rep_set_starting_psn (pp_starting_psn p) m;
        m = m\<lparr>rep_resp_resources := pp_responder_resources p\<rparr>;
        m = cm_rep_set_target_ack_delay ack_delay m;
        m = cm_rep_set_failover (pp_failover_accepted p) m;
        m = cm_rep_set_rnr_retry_count (pp_rnr_retry_count p) m
      in if t \<noteq> IB_QPT_XRC_TGT then
           cm_rep_set_local_qpn (pp_qp_num p) (cm_rep_set_srq (pp_srq p) (cm_rep_set_flow_ctrl (pp_flow_control p)
             (m\<lparr>rep_initiator_depth := pp_initiator_depth p\<rparr>)))
         else cm_rep_set_local_eecn (pp_qp_num p) (cm_rep_set_srq 1 m))"

record 'p ib_cm_rep_event_param =
  rv_remote_qpn :: u32
  rv_starting_psn :: u32
  rv_responder_resources :: u8
  rv_initiator_depth :: u8
  rv_target_ack_delay :: u8
  rv_failover_accepted :: u8
  rv_flow_control :: u8
  rv_rnr_retry_count :: u8
  rv_srq :: u8
  rv_private :: 'p

definition cm_format_rep_event :: "'p cm_rep_msg \<Rightarrow> ib_qp_type \<Rightarrow> 'p ib_cm_rep_event_param" where
  "cm_format_rep_event m t = \<lparr>rv_remote_qpn = cm_rep_get_qpn m t, rv_starting_psn = cm_rep_get_starting_psn m,
     rv_responder_resources = rep_initiator_depth m, rv_initiator_depth = rep_resp_resources m,
     rv_target_ack_delay = cm_rep_get_target_ack_delay m, rv_failover_accepted = cm_rep_get_failover m,
     rv_flow_control = cm_rep_get_flow_ctrl m, rv_rnr_retry_count = cm_rep_get_rnr_retry_count m, rv_srq = cm_rep_get_srq m,
     rv_private = rep_private m\<rparr>"

section \<open>What is sent arrives\<close>

lemmas cm_req_defs = cm_req_get_local_qpn_def cm_req_set_local_qpn_def cm_req_get_resp_res_def cm_req_set_resp_res_def
  cm_req_get_init_depth_def cm_req_set_init_depth_def cm_req_get_remote_resp_timeout_def cm_req_set_remote_resp_timeout_def
  cm_req_get_qp_type_def cm_req_set_qp_type_def cm_req_get_flow_ctrl_def cm_req_set_flow_ctrl_def cm_req_get_starting_psn_def
  cm_req_set_starting_psn_def cm_req_get_local_resp_timeout_def cm_req_set_local_resp_timeout_def cm_req_get_retry_count_def
  cm_req_set_retry_count_def cm_req_get_path_mtu_def cm_req_set_path_mtu_def cm_req_get_rnr_retry_count_def cm_req_set_rnr_retry_count_def
  cm_req_get_max_cm_retries_def cm_req_set_max_cm_retries_def cm_req_get_srq_def cm_req_set_srq_def

lemmas cm_rep_defs = cm_rep_get_local_qpn_def cm_rep_set_local_qpn_def cm_rep_get_local_eecn_def cm_rep_set_local_eecn_def cm_rep_get_qpn_def
  cm_rep_get_starting_psn_def cm_rep_set_starting_psn_def cm_rep_get_target_ack_delay_def cm_rep_set_target_ack_delay_def
  cm_rep_get_failover_def cm_rep_set_failover_def cm_rep_get_flow_ctrl_def cm_rep_set_flow_ctrl_def cm_rep_get_rnr_retry_count_def
  cm_rep_set_rnr_retry_count_def cm_rep_get_srq_def cm_rep_set_srq_def

text \<open>The bits of the masks.\<close>

lemma cm_masks32:
  "(0xFF :: u32) = mask 8" "(0xFFFFFF :: u32) = mask 24" "(0xFFFFFF00 :: u32) = NOT (mask 8)" "(0xFFFFFFF8 :: u32) = NOT (mask 3)" "(0xFFFFFFFE :: u32) = NOT (mask 1)"
  "(0xF8 :: u32) = mask 8 AND NOT (mask 3)" "(0xFFFFFF07 :: u32) = NOT (mask 8) OR mask 3" "(0x7 :: u32) = mask 3" "(0xFFFFFFF9 :: u32) = NOT (mask 3) OR mask 1"
  "(0x6 :: u32) = mask 3 AND NOT (mask 1)"
  by (simp_all add: mask_eq_exp_minus_1)

lemma cm_masks8:
  "(0xF :: u8) = mask 4" "(0x7 :: u8) = mask 3" "(0xF8 :: u8) = NOT (mask 3)" "(0x8 :: u8) = mask 4 AND NOT (mask 3)" "(0xF7 :: u8) = NOT (mask 4) OR mask 3"
  "(0x6 :: u8) = mask 3 AND NOT (mask 1)" "(0xF9 :: u8) = NOT (mask 3) OR mask 1" "(0x3 :: u8) = mask 2" "(0xFE :: u8) = NOT (mask 1)" "(0x1F :: u8) = mask 5"
  "(0xEF :: u8) = NOT (mask 5) OR mask 4"
  by (simp_all add: mask_eq_exp_minus_1)

lemma small_bit: "bit (t :: u8) n \<Longrightarrow> t < 32 \<Longrightarrow> n < 5"
proof -
  assume "bit t n" "t < 32"
  then have "take_bit 5 t = t" by (simp add: take_bit_eq_mod word_unat_eq_iff unat_mod word_less_nat_alt)
  then show "n < 5" using \<open>bit t n\<close> by (metis bit_take_bit_iff)
qed

lemma cm_mask29: "(0x1FFFFFFF :: u32) = mask 29" by (simp add: mask_eq_exp_minus_1)

lemmas cm_bits = cm_mask29 cm_format_req_def cm_req_defs cm_format_rep_def cm_rep_defs Let_def cm_masks32 cm_masks8 bit_simps

lemma req_fields:
  assumes "rp_qp_type p \<in> {IB_QPT_RC, IB_QPT_UC}"
  shows "cm_req_get_local_qpn (cm_format_req p) = rp_qp_num p AND 0xFFFFFF" (is ?a)
    "cm_req_get_resp_res (cm_format_req p) = rp_responder_resources p" (is ?b)
    "cm_req_get_init_depth (cm_format_req p) = rp_initiator_depth p" (is ?c)
    "cm_req_get_remote_resp_timeout (cm_format_req p) = rp_remote_cm_response_timeout p AND 0x1F" (is ?d)
    "cm_req_get_flow_ctrl (cm_format_req p) = rp_flow_control p AND 1" (is ?e)
    "cm_req_get_retry_count (cm_format_req p) = rp_retry_count p AND 7" (is ?f)
    "cm_req_get_path_mtu (cm_format_req p) = rp_mtu p AND 0xF" (is ?g)
    "cm_req_get_rnr_retry_count (cm_format_req p) = rp_rnr_retry_count p AND 7" (is ?h)
    "cm_req_get_max_cm_retries (cm_format_req p) = rp_max_cm_retries p AND 0xF" (is ?i)
    "cm_req_get_srq (cm_format_req p) = rp_srq p AND 1" (is ?j)
    "rp_local_cm_response_timeout p < 32 \<Longrightarrow> cm_req_get_starting_psn (cm_format_req p) = rp_starting_psn p AND 0xFFFFFF" (is "_ \<Longrightarrow> ?k")
    "rp_local_cm_response_timeout p < 32 \<Longrightarrow> cm_req_get_local_resp_timeout (cm_format_req p) = rp_local_cm_response_timeout p" (is "_ \<Longrightarrow> ?l")
    "cm_req_get_qp_type (cm_format_req p) = rp_qp_type p" (is ?m)
proof -
  from assms consider "rp_qp_type p = IB_QPT_RC" | "rp_qp_type p = IB_QPT_UC" by blast
  note c = this
  show ?a using c by cases (rule bit_word_eqI; auto simp: cm_bits dest: bit_imp_le_length)+
  show ?b using c by cases (rule bit_word_eqI; auto simp: cm_bits dest: bit_imp_le_length)+
  show ?c using c by cases (rule bit_word_eqI; auto simp: cm_bits dest: bit_imp_le_length)+
  show ?d using c by cases (rule bit_word_eqI; auto simp: cm_bits dest: bit_imp_le_length)+
  show ?e using c by cases (rule bit_word_eqI; auto simp: cm_bits dest: bit_imp_le_length)+
  show ?f using c by cases (rule bit_word_eqI; auto simp: cm_bits dest: bit_imp_le_length)+
  show ?g using c by cases (rule bit_word_eqI; auto simp: cm_bits dest: bit_imp_le_length)+
  show ?h using c by cases (rule bit_word_eqI; auto simp: cm_bits dest: bit_imp_le_length)+
  show ?i using c by cases (rule bit_word_eqI; auto simp: cm_bits dest: bit_imp_le_length)+
  show ?j using c by cases (rule bit_word_eqI; auto simp: cm_bits dest: bit_imp_le_length)+
  show ?k if "rp_local_cm_response_timeout p < 32" using c by cases (rule bit_word_eqI; auto simp: cm_bits dest: bit_imp_le_length small_bit [OF _ that])+
  show ?l if "rp_local_cm_response_timeout p < 32" using c by cases (rule bit_word_eqI; auto simp: cm_bits dest: bit_imp_le_length small_bit [OF _ that])+
  have "offset40 (cm_format_req p) AND 6 = (if rp_qp_type p = IB_QPT_UC then 2 else 0)"
    using c by cases (simp_all, (rule bit_word_eqI; auto simp: cm_bits bit_2_iff)+)
  then show ?m using assms by (auto simp: cm_req_get_qp_type_def)
qed


lemma rep_fields:
  assumes "t \<noteq> IB_QPT_XRC_TGT"
  shows "cm_rep_get_local_qpn (cm_format_rep ack t p) = pp_qp_num p AND 0xFFFFFF" (is ?a)
    "cm_rep_get_starting_psn (cm_format_rep ack t p) = pp_starting_psn p AND 0xFFFFFF" (is ?b)
    "cm_rep_get_target_ack_delay (cm_format_rep ack t p) = ack AND 0x1F" (is ?c)
    "cm_rep_get_failover (cm_format_rep ack t p) = pp_failover_accepted p AND 3" (is ?d)
    "cm_rep_get_flow_ctrl (cm_format_rep ack t p) = pp_flow_control p AND 1" (is ?e)
    "cm_rep_get_rnr_retry_count (cm_format_rep ack t p) = pp_rnr_retry_count p AND 7" (is ?f)
    "cm_rep_get_srq (cm_format_rep ack t p) = pp_srq p AND 1" (is ?g)
proof -
  have *: "bit (x * 2) n \<longleftrightarrow> n < 8 \<and> n \<noteq> 0 \<and> bit x (n - 1)" "(127 :: u8) = mask 7" for x :: u8 and n
    using bit_double_iff [of x n] by (simp_all add: mask_eq_exp_minus_1 mult.commute)
  show ?a by (rule bit_word_eqI) (auto simp: assms cm_bits)
  show ?b by (rule bit_word_eqI) (auto simp: assms cm_bits)
  show ?c by (rule bit_word_eqI) (auto simp: assms cm_bits * dest: bit_imp_le_length)
  show ?d by (rule bit_word_eqI) (auto simp: assms cm_bits * dest: bit_imp_le_length)
  show ?e by (rule bit_word_eqI) (auto simp: assms cm_bits * dest: bit_imp_le_length)
  show ?f by (rule bit_word_eqI) (auto simp: assms cm_bits dest: bit_imp_le_length)
  show ?g by (rule bit_word_eqI) (auto simp: assms cm_bits dest: bit_imp_le_length)
qed


definition sample_req_param :: "nat ib_cm_req_param" where
  "sample_req_param = \<lparr>rp_service_id = 3, rp_qp_num = 8, rp_qp_type = IB_QPT_RC, rp_starting_psn = 8, rp_private_data = 77, rp_private_data_len = 8,
     rp_peer_to_peer = False, rp_responder_resources = 16, rp_initiator_depth = 16, rp_remote_cm_response_timeout = 20, rp_flow_control = 1,
     rp_local_cm_response_timeout = 20, rp_retry_count = 0, rp_rnr_retry_count = 7, rp_max_cm_retries = 15, rp_srq = 0, rp_mtu = 4\<rparr>"


end
