(* ===== verification/KrCtrl.thy ===== *)
theory KrCtrl
  imports KrRecv KrQp KrMeta
begin

text \<open>
  The control block of KRdmaKit, \<^verbatim>\<open>rust-kernel-rdma/KRdmaKit/src/ctrl.rs\<close>: one per service and network card, it
  owns a datagram queue pair, a dynamically connected initiator, a ring of receive buffers and the
  reliable connections that clients have opened to it.  With it come the two handshakes of the
  connection manager it answers, for connections (\<^verbatim>\<open>rc_conn_callback\<close>) and for the resolution of
  datagram endpoints (\<^verbatim>\<open>sidr_callback\<close>), and the client side of the latter in \<^verbatim>\<open>cm/sidr.rs\<close>.  Sending a
  message of the connection manager and posting to the driver are parameters over a state of
  type \<open>'d\<close>.
\<close>

unbundle bit_operations_syntax

section \<open>State\<close>

record rcontext =
  cx_lid :: u16
  cx_gid :: gid
  cx_lkey :: u32
  cx_rkey :: u32

text \<open>A queue pair is known to the driver by a number; \<open>rc_verbs\<close> is its state in the verbs layer.\<close>

record rc_conn =
  rc_qp :: nat
  rc_verbs :: verbs_qp
  rc_remote_mr :: "temp_mr option"

record ud_conn =
  ud_qp :: nat
  ud_qp_num :: u32
  ud_qkey :: u32

record rctrl =
  ct_id :: nat
  ct_context :: rcontext
  ct_rcs :: "nat \<rightharpoonup> rc_conn"
  ct_uds :: "nat \<rightharpoonup> ud_conn"
  ct_dct_num :: u32
  ct_dc :: "nat option"
  ct_test_mr :: u64
  ct_recv :: recv_helper
  ct_free_in_qp_key :: u64

definition MAX_KMALLOC_SZ :: nat where "MAX_KMALLOC_SZ = 1024 * 1024 * 4"
definition DEFAULT_RPC_HINT :: nat where "DEFAULT_RPC_HINT = 73"
definition RCTRL_N :: nat where "RCTRL_N = 2"

section \<open>Creation\<close>

text \<open>
  The objects allocated by the lower layers are arguments.  The result of posting the first buffers is
  dropped.
\<close>

definition rctrl_create :: "(u64 \<Rightarrow> u64) \<Rightarrow> (nat \<Rightarrow> 'd \<Rightarrow> ib_recv_wr list \<Rightarrow> (int \<times> 'd) option) \<Rightarrow> nat \<Rightarrow> rcontext \<Rightarrow>
    ud_conn \<Rightarrow> nat option \<Rightarrow> u32 \<Rightarrow> u64 \<Rightarrow> 'd \<Rightarrow> (rctrl \<times> 'd) option" where
  "rctrl_create pa_to_va post sid ctx ud dc dct_num pa d = do {
     recv \<leftarrow> recv_helper_create pa_to_va RCTRL_N (MAX_KMALLOC_SZ div RCTRL_N) (cx_lkey ctx) pa;
     (_, recv, d) \<leftarrow> post_recvs (post (ud_qp ud)) recv d RCTRL_N;
     Some (\<lparr>ct_id = sid, ct_context = ctx, ct_rcs = Map.empty, ct_uds = [DEFAULT_RPC_HINT \<mapsto> ud], ct_dct_num = dct_num, ct_dc = dc,
       ct_test_mr = pa, ct_recv = recv, ct_free_in_qp_key = 0\<rparr>, d)
   }"

definition get_self_test_mr :: "rctrl \<Rightarrow> temp_mr" where
  "get_self_test_mr ct = \<lparr>mr_addr = ct_test_mr ct, mr_capacity = of_nat (4 * 1024 * 1024), mr_rkey = cx_rkey (ct_context ct)\<rparr>"

definition get_trc :: "rctrl \<Rightarrow> nat \<Rightarrow> rc_conn option" where
  "get_trc ct vid = ct_rcs ct vid"

definition get_ud :: "rctrl \<Rightarrow> nat \<Rightarrow> ud_conn option" where
  "get_ud ct qd = ct_uds ct qd"

definition get_self_endpoint :: "rctrl \<Rightarrow> nat \<Rightarrow> end_point option" where
  "get_self_endpoint ct ud_id = map_option (\<lambda>ud. \<lparr>ep_qpn = ud_qp_num ud, ep_qkey = ud_qkey ud, ep_lid = cx_lid (ct_context ct),
     ep_gid = cx_gid (ct_context ct), ep_dct_num = ct_dct_num ct, ep_mr = get_self_test_mr ct, ep_ah = None\<rparr>) (get_ud ct ud_id)"

section \<open>Connections\<close>

datatype reply_code = ReplyOk | ReplyErr | ReplyNil | ReplyExist | ReplyNotExist

record conn_payload =
  pl_qd :: u64
  pl_mr :: temp_mr
  pl_status :: reply_code

text \<open>The counter panics on overflow.\<close>

definition get_next_in_qp_key :: "rctrl \<Rightarrow> u64 \<Rightarrow> (u64 \<times> rctrl) option" where
  "get_next_in_qp_key ct vid =
     (if vid = 0 then do {
        nxt \<leftarrow> add_u64 (ct_free_in_qp_key ct) 1;
        Some (ct_free_in_qp_key ct, ct\<lparr>ct_free_in_qp_key := nxt\<rparr>)
      } else Some (vid, ct))"

text \<open>
  \<open>new_qp\<close> is the queue pair that was created, \<^const>\<open>None\<close> if that failed: then the callback panics.  The
  results of the last step of the queue pair and of posting the buffers are dropped.  The key is
  returned as well: it becomes the context of the connection.

  A connection goes out of scope where it is displaced by the new one, and where the new one could not be
  brought up: \<open>drop_rc\<close> destroys it with its identifier, which is that of the request being served in the second case,
  and says whether that comes to an end.  When it does not, the
  callback never returns, and the first component of the result is \<^const>\<open>None\<close>, beside the state that was reached.
\<close>

definition rc_conn_callback :: "mod_dev \<Rightarrow> cm_id \<Rightarrow> (rc_conn \<Rightarrow> conn_payload \<Rightarrow> 'd \<Rightarrow> int \<times> 'd) \<Rightarrow>
    (nat \<Rightarrow> 'd \<Rightarrow> ib_recv_wr list \<Rightarrow> (int \<times> 'd) option) \<Rightarrow> (bool \<Rightarrow> rc_conn \<Rightarrow> 'd \<Rightarrow> bool \<times> 'd) \<Rightarrow> rctrl \<Rightarrow> 'd \<Rightarrow> u64 \<Rightarrow> rc_conn option \<Rightarrow>
    ((int \<times> u64 option) option \<times> rctrl \<times> 'd) option" where
  "rc_conn_callback dev cm send_reply post drop_rc ct d qd new_qp = do {
     in_qp \<leftarrow> new_qp;
     (new_key, ct) \<leftarrow> get_next_in_qp_key ct qd;
     let reply = \<lparr>pl_qd = qd, pl_mr = get_self_test_mr ct, pl_status = ReplyNil\<rparr>;
     (err, v) \<leftarrow> rc_bring_to_rtr dev cm (rc_verbs in_qp);
     if err = 0 then do {
       (_, v) \<leftarrow> rc_bring_to_rts dev cm v;
       let in_qp = in_qp\<lparr>rc_verbs := v\<rparr>;
       let (ret, d) = send_reply in_qp reply d;
       let (ends, d) = (case ct_rcs ct (unat new_key) of None \<Rightarrow> (True, d) | Some old \<Rightarrow> drop_rc False old d);
       let ct = ct\<lparr>ct_rcs := (ct_rcs ct)(unat new_key \<mapsto> in_qp)\<rparr>;
       if \<not> ends then Some (None, ct, d) else do {
         (_, recv, d) \<leftarrow> post_recvs (post (rc_qp in_qp)) (ct_recv ct) d 512;
         Some (Some (ret, Some new_key), ct\<lparr>ct_recv := recv\<rparr>, d)
       }
     } else do {
       let in_qp = in_qp\<lparr>rc_verbs := v\<rparr>;
       let (ret, d) = send_reply in_qp reply d;
       let (ends, d) = drop_rc True in_qp d;
       Some (if ends then Some (ret, None) else None, ct, d)
     }
   }"

text \<open>The identifier of a connection that is removed is kept: it belongs to the handler that removes it.\<close>

definition dereg_rc :: "rctrl \<Rightarrow> nat \<Rightarrow> rctrl" where
  "dereg_rc ct qd = ct\<lparr>ct_rcs := (ct_rcs ct)(qd := None)\<rparr>"

definition trc_post_recv :: "(nat \<Rightarrow> 'd \<Rightarrow> ib_recv_wr list \<Rightarrow> (int \<times> 'd) option) \<Rightarrow> rctrl \<Rightarrow> 'd \<Rightarrow> nat \<Rightarrow> nat \<Rightarrow>
    (int \<times> rctrl \<times> 'd) option" where
  "trc_post_recv post ct d vid push_cnt = do {
     rc \<leftarrow> get_trc ct vid;
     (err, recv, d) \<leftarrow> post_recvs (post (rc_qp rc)) (ct_recv ct) d push_cnt;
     Some (err, ct\<lparr>ct_recv := recv\<rparr>, d)
   }"

definition ud_post_recv :: "(nat \<Rightarrow> 'd \<Rightarrow> ib_recv_wr list \<Rightarrow> (int \<times> 'd) option) \<Rightarrow> rctrl \<Rightarrow> 'd \<Rightarrow> nat \<Rightarrow>
    (int \<times> rctrl \<times> 'd) option" where
  "ud_post_recv post ct d push_cnt = do {
     ud \<leftarrow> get_ud ct DEFAULT_RPC_HINT;
     (err, recv, d) \<leftarrow> post_recvs (post (ud_qp ud)) (ct_recv ct) d push_cnt;
     Some (err, ct\<lparr>ct_recv := recv\<rparr>, d)
   }"

section \<open>Resolution of datagram endpoints\<close>

record sidr_payload =
  sp_qd :: u64
  sp_lid :: u16
  sp_gid :: gid
  sp_dct_num :: u32
  sp_mr :: temp_mr
  sp_status :: reply_code

text \<open>The reply: queue pair number, key and payload.\<close>

definition sidr_callback :: "rctrl \<Rightarrow> u64 \<Rightarrow> u32 \<times> u32 \<times> sidr_payload" where
  "sidr_callback ct qd_hint =
     (let (qpn, qk, status) = (case get_ud ct (unat qd_hint) of
            Some ud \<Rightarrow> (ud_qp_num ud, ud_qkey ud, ReplyOk)
          | None \<Rightarrow> (0, 0, ReplyNotExist)) in
      (qpn, qk, \<lparr>sp_qd = qd_hint, sp_lid = cx_lid (ct_context ct), sp_gid = cx_gid (ct_context ct), sp_dct_num = ct_dct_num ct,
        sp_mr = get_self_test_mr ct, sp_status = status\<rparr>))"

definition zero_endpoint :: end_point where
  "zero_endpoint = \<lparr>ep_qpn = 0, ep_qkey = 0, ep_lid = 0, ep_gid = 0, ep_dct_num = 0, ep_mr = \<lparr>mr_addr = 0, mr_capacity = 0, mr_rkey = 0\<rparr>, ep_ah = None\<rparr>"

text \<open>\<open>create_ah\<close> creates an address handle for a local identifier and a gid, or fails.\<close>

definition end_point_new :: "(u16 \<Rightarrow> gid \<Rightarrow> nat option) \<Rightarrow> u32 \<Rightarrow> u32 \<Rightarrow> u16 \<Rightarrow> gid \<Rightarrow> u32 \<Rightarrow> temp_mr \<Rightarrow> end_point" where
  "end_point_new create_ah qpn qk lid g dct_num mr = \<lparr>ep_qpn = qpn, ep_qkey = qk, ep_lid = lid, ep_gid = g, ep_dct_num = dct_num,
     ep_mr = mr, ep_ah = create_ah lid g\<rparr>"

definition handle_sidr_reply :: "(u16 \<Rightarrow> gid \<Rightarrow> nat option) \<Rightarrow> end_point \<Rightarrow> u32 \<times> u32 \<times> sidr_payload \<Rightarrow> end_point" where
  "handle_sidr_reply create_ah point rep = (case rep of (qpn, qk, reply) \<Rightarrow>
     (case sp_status reply of
        ReplyOk \<Rightarrow> end_point_new create_ah qpn qk (sp_lid reply) (sp_gid reply) (sp_dct_num reply) (sp_mr reply)
      | ReplyNotExist \<Rightarrow> zero_endpoint
      | _ \<Rightarrow> point))"

text \<open>
  \<open>exchange\<close> sends the request and waits: an error, or the reply if one came.  The endpoint is
  zero before.
\<close>

definition sidr_connect :: "(u16 \<Rightarrow> gid \<Rightarrow> nat option) \<Rightarrow> (u64 \<Rightarrow> u64 \<Rightarrow> int + (u32 \<times> u32 \<times> sidr_payload) option) \<Rightarrow> u64 \<Rightarrow> u64 \<Rightarrow>
    int + end_point" where
  "sidr_connect create_ah exchange service_id qd_hint = (case exchange service_id qd_hint of
     Inl e \<Rightarrow> Inl e
   | Inr rep \<Rightarrow> let point = (case rep of None \<Rightarrow> zero_endpoint | Some rep \<Rightarrow> handle_sidr_reply create_ah zero_endpoint rep) in
       if ep_ah point = None then Inl (- EINVAL) else Inr point)"

section \<open>Properties\<close>

lemma rctrl_create_fields:
  assumes "rctrl_create pa_to_va post sid ctx ud dc dct_num pa d = Some (ct, d')"
  shows "ct_rcs ct = Map.empty" "ct_uds ct = [DEFAULT_RPC_HINT \<mapsto> ud]" "ct_context ct = ctx" "ct_dct_num ct = dct_num" "ct_test_mr ct = pa"
    "ct_free_in_qp_key ct = 0"
  using assms by (auto simp: rctrl_create_def split: Option.bind_splits)

text \<open>Whatever the driver does, posting gives the ring back as it was, but for the cursor.\<close>

lemma post_recvs_keeps:
  assumes h: "rh_ring h" and p: "post_recvs post h q n = Some (e, h', q')"
  shows "rh_ring h' \<and> rh_wcs h' = rh_wcs h \<and> rh_capacity h' = rh_capacity h"
proof -
  let ?K = "rh_capacity h" and ?c = "rh_cur_idx h"
  define t m where "t = (?c + n - 1) mod ?K" and "m = (t + ?K - ?c) mod ?K + 1"
  have c: "0 < ?K" "?c < ?K" "t < ?K" using h by (auto simp: rh_ring_def t_def)
  then have "m \<le> ?K" "t = (?c + (m - 1)) mod ?K" by (simp_all add: m_def Suc_leI mod_add_right_eq)
  from frozen_window [OF h _ this] obtain h1 where f: "freeze_at h t = Some h1" "freeze_done_at h1 t = Some h" by (auto simp: m_def)
  have "h' = h \<or> h' = h\<lparr>rh_cur_idx := (t + 1) mod ?K\<rparr>"
    using p f [unfolded t_def] c by (auto simp: t_def post_recvs_def add_usize_def sub_usize_def rem_usize_def split: Option.bind_splits if_splits)
  then show ?thesis using h c(1) by (auto simp: rh_ring_def)
qed

lemma rctrl_create_ring:
  assumes "rctrl_create pa_to_va post sid ctx ud dc dct_num pa d = Some (ct, d')" "unat pa + MAX_KMALLOC_SZ < 2 ^ 64"
  shows "rh_ring (ct_recv ct) \<and> rh_capacity (ct_recv ct) = RCTRL_N \<and> length (rh_wcs (ct_recv ct)) = RCTRL_N"
proof -
  obtain h where h: "recv_helper_create pa_to_va RCTRL_N (MAX_KMALLOC_SZ div RCTRL_N) (cx_lkey ctx) pa = Some h" "rh_ring h"
    "rh_capacity h = RCTRL_N" "rh_cur_idx h = 0" "rh_wcs h = replicate RCTRL_N zero_wc"
    using recv_helper_create_ring [of RCTRL_N pa "MAX_KMALLOC_SZ div RCTRL_N" pa_to_va "cx_lkey ctx"] assms(2)
    by (auto simp: RCTRL_N_def MAX_KMALLOC_SZ_def)
  have "post_recvs (post (ud_qp ud)) h d RCTRL_N = do {
      (err, q) \<leftarrow> post (ud_qp ud) d (window h (posted h RCTRL_N));
      Some (err, if err = 0 then h\<lparr>rh_cur_idx := (rh_cur_idx h + RCTRL_N) mod rh_capacity h\<rparr> else h, q) }"
    using h by (intro post_recvs_window) (simp_all add: RCTRL_N_def)
  then show ?thesis using assms(1) h
    by (auto simp: rctrl_create_def rh_ring_def RCTRL_N_def split: Option.bind_splits if_splits)
qed


text \<open>
  C8. Resolving an endpoint yields the endpoint the server publishes: the client gets the queue pair number,
  key, addresses, target number and memory region of the queue pair that is registered under the
  hint, with an address handle of its own, and an error when there is none.
\<close>

theorem sidr_connect_resolves:
  assumes "\<And>lid g. create_ah lid g \<noteq> None"
  shows "sidr_connect create_ah (\<lambda>_ qd. Inr (Some (sidr_callback ct qd))) service hint =
    (case get_self_endpoint ct (unat hint) of
       None \<Rightarrow> Inl (- EINVAL)
     | Some p \<Rightarrow> Inr (p\<lparr>ep_ah := create_ah (ep_lid p) (ep_gid p)\<rparr>))"
  using assms
  by (auto simp: sidr_connect_def sidr_callback_def handle_sidr_reply_def get_self_endpoint_def zero_endpoint_def end_point_new_def
      Let_def split: option.splits)

text \<open>A context, a queue pair and a driver that counts the buffers posted, to evaluate.\<close>

definition sample_context :: rcontext where
  "sample_context = \<lparr>cx_lid = 4, cx_gid = 42, cx_lkey = 6, cx_rkey = 7\<rparr>"

definition sample_rc :: "nat \<Rightarrow> rc_conn" where
  "sample_rc n = \<lparr>rc_qp = n, rc_verbs = sample_qp IB_QPT_RC (of_nat n), rc_remote_mr = None\<rparr>"

definition count_post :: "nat \<Rightarrow> nat \<Rightarrow> ib_recv_wr list \<Rightarrow> (int \<times> nat) option" where
  "count_post qp d ws = Some (0, d + length ws)"

definition sample_ctrl :: rctrl where
  "sample_ctrl = fst (the (rctrl_create (\<lambda>pa. pa) count_post 3 sample_context \<lparr>ud_qp = 1, ud_qp_num = 9, ud_qkey = 11\<rparr> (Some 2) 5 8192 0))"

lemma sample_ctrl_create:
  "rctrl_create (\<lambda>pa. pa) count_post 3 sample_context \<lparr>ud_qp = 1, ud_qp_num = 9, ud_qkey = 11\<rparr> (Some 2) 5 8192 0 = Some (sample_ctrl, 2)"
  "rh_cur_idx (ct_recv sample_ctrl) = 0" "rh_wcs (ct_recv sample_ctrl) = replicate 2 zero_wc" "rh_capacity (ct_recv sample_ctrl) = 2"
  "ct_dc sample_ctrl = Some 2"
proof -
  obtain h where h: "recv_helper_create (\<lambda>pa. pa) RCTRL_N (MAX_KMALLOC_SZ div RCTRL_N) (cx_lkey sample_context) 8192 = Some h" "rh_ring h"
    "rh_capacity h = 2" "rh_cur_idx h = 0" "rh_wcs h = replicate 2 zero_wc"
    using recv_helper_create_ring [of RCTRL_N 8192 "MAX_KMALLOC_SZ div RCTRL_N" "\<lambda>pa. pa" "cx_lkey sample_context"]
    by (auto simp: RCTRL_N_def MAX_KMALLOC_SZ_def)
  have "post_recvs (count_post 1) h 0 2 = Some (0, h, 2)"
    using h(2-4) by (simp add: post_recvs_window count_post_def posted_def window_requests)
  then have "rctrl_create (\<lambda>pa. pa) count_post 3 sample_context \<lparr>ud_qp = 1, ud_qp_num = 9, ud_qkey = 11\<rparr> (Some 2) 5 8192 0 =
      Some (\<lparr>ct_id = 3, ct_context = sample_context, ct_rcs = Map.empty, ct_uds = [DEFAULT_RPC_HINT \<mapsto> \<lparr>ud_qp = 1, ud_qp_num = 9, ud_qkey = 11\<rparr>],
        ct_dct_num = 5, ct_dc = Some 2, ct_test_mr = 8192, ct_recv = h, ct_free_in_qp_key = 0\<rparr>, 2)"
    using h(1) by (simp add: rctrl_create_def RCTRL_N_def)
  then show "rctrl_create (\<lambda>pa. pa) count_post 3 sample_context \<lparr>ud_qp = 1, ud_qp_num = 9, ud_qkey = 11\<rparr> (Some 2) 5 8192 0 = Some (sample_ctrl, 2)"
    "rh_cur_idx (ct_recv sample_ctrl) = 0" "rh_wcs (ct_recv sample_ctrl) = replicate 2 zero_wc" "rh_capacity (ct_recv sample_ctrl) = 2"
    "ct_dc sample_ctrl = Some 2"
    using h(3-5) by (simp_all add: sample_ctrl_def)
qed

lemma sample_ctrl_ring: "rh_ring (ct_recv sample_ctrl)"
  using rctrl_create_ring [OF sample_ctrl_create(1)] by (simp add: MAX_KMALLOC_SZ_def)

theorem sidr_connect_resolves_witness:
  "sidr_connect (\<lambda>_ _. Some 1) (\<lambda>_ qd. Inr (Some (sidr_callback sample_ctrl qd))) 3 73 = Inr \<lparr>ep_qpn = 9, ep_qkey = 11, ep_lid = 4, ep_gid = 42,
     ep_dct_num = 5, ep_mr = \<lparr>mr_addr = 8192, mr_capacity = 4194304, mr_rkey = 7\<rparr>, ep_ah = Some 1\<rparr> \<and>
   sidr_connect (\<lambda>_ _. Some 1) (\<lambda>_ qd. Inr (Some (sidr_callback sample_ctrl qd))) 3 74 = Inl (- EINVAL)"
proof -
  show ?thesis
    using sidr_connect_resolves [of "\<lambda>_ _. Some 1" sample_ctrl 3 73] sidr_connect_resolves [of "\<lambda>_ _. Some 1" sample_ctrl 3 74]
    by (simp add: get_self_endpoint_def get_ud_def get_self_test_mr_def rctrl_create_fields [OF sample_ctrl_create(1)])
      (simp add: sample_context_def DEFAULT_RPC_HINT_def)
qed

text \<open>What the callback does with a fresh queue pair.\<close>

lemma conn_callback_ready:
  assumes "dev_suits dev" "cm_suits dev cm" "vq_type (rc_verbs q) = IB_QPT_RC" "vq_state (rc_verbs q) = IB_QPS_RESET"
    and "rh_ring (ct_recv ct)" "rh_cur_idx (ct_recv ct) + 512 < 2 ^ 64"
    and "get_next_in_qp_key ct qd = Some (key, ct1)" "q' = q\<lparr>rc_verbs := rc_ready cm (rc_verbs q)\<rparr>"
    and "send_reply q' \<lparr>pl_qd = qd, pl_mr = get_self_test_mr ct, pl_status = ReplyNil\<rparr> d = (ret, d1)"
    and "(case get_trc ct (unat key) of None \<Rightarrow> (True, d1) | Some old \<Rightarrow> drop_rc False old d1) = (True, d2)"
    and "post (rc_qp q) d2 (window (ct_recv ct) (posted (ct_recv ct) 512)) = Some (e, d3)"
    and "h = (ct_recv ct)\<lparr>rh_cur_idx := (if e = 0 then (rh_cur_idx (ct_recv ct) + 512) mod rh_capacity (ct_recv ct) else rh_cur_idx (ct_recv ct))\<rparr>"
  shows "rc_conn_callback dev cm send_reply post drop_rc ct d qd (Some q) =
    Some (Some (ret, Some key), ct1\<lparr>ct_rcs := (ct_rcs ct)(unat key \<mapsto> q'), ct_recv := h\<rparr>, d3)"
proof -
  let ?v = "rc_receiving cm (rc_verbs q)"
  have "rc_bring_to_rtr dev cm (rc_verbs q) = Some (0, ?v)" "rc_bring_to_rts dev cm ?v = Some (0, rc_ready cm (rc_verbs q))"
    using rc_steps(2) [OF assms(1-4)] rc_steps(3) [OF assms(1,2), of ?v] assms(3) by (simp_all add: rc_ready_def)
  moreover have "get_self_test_mr ct1 = get_self_test_mr ct" "ct_rcs ct1 = ct_rcs ct" "ct_recv ct1 = ct_recv ct"
    using assms(7) by (auto simp: get_next_in_qp_key_def get_self_test_mr_def split: if_splits Option.bind_splits)
  ultimately show ?thesis
    using assms(5-) post_recvs_window [OF assms(5) _ assms(6), of "post (rc_qp q)" d2]
    by (auto simp: rc_conn_callback_def get_trc_def Let_def)
qed

text \<open>The key of a request: its own, or the next of the counter.\<close>

lemma in_qp_key:
  assumes "qd = 0 \<Longrightarrow> unat (ct_free_in_qp_key ct) + 1 < 2 ^ 64"
  shows "get_next_in_qp_key ct qd = Some (if qd = 0 then ct_free_in_qp_key ct else qd,
    ct\<lparr>ct_free_in_qp_key := if qd = 0 then ct_free_in_qp_key ct + 1 else ct_free_in_qp_key ct\<rparr>)"
  using assms by (auto simp: get_next_in_qp_key_def add_u64_def)



text \<open>
  C27. Connections without an identifier take those of others.  Clients that give no identifier are numbered
  from a counter in the same name space: when the counter reaches the identifier of a client that is
  connected, that client's connection is dropped and the newcomer has its identifier, under which it is removed.
\<close>

theorem anonymous_connection_displaces:
  assumes "dev_suits dev" and "cm_suits dev cm" and "vq_type (rc_verbs q) = IB_QPT_RC" and "vq_state (rc_verbs q) = IB_QPS_RESET"
    and "rh_ring (ct_recv ct)" and "rh_cur_idx (ct_recv ct) + 512 < 2 ^ 64"
    and "ct_free_in_qp_key ct = vid" and "unat vid + 1 < 2 ^ 64" and "get_trc ct (unat vid) = Some old" and "rc_qp old \<noteq> rc_qp q"
    and "\<And>d ws. \<exists>r. post (rc_qp q) d ws = Some r" and "\<And>d. fst (drop_rc False old d)"
  shows "\<exists>ret ct' d1 e d'. rc_conn_callback dev cm send_reply post drop_rc ct d 0 (Some q) = Some (Some (ret, Some vid), ct', d') \<and>
    post (rc_qp q) (snd (drop_rc False old d1)) (window (ct_recv ct) (posted (ct_recv ct) 512)) = Some (e, d') \<and>
    map_option rc_qp (get_trc ct' (unat vid)) = Some (rc_qp q) \<and> get_trc ct' (unat vid) \<noteq> Some old \<and>
    get_trc (dereg_rc ct' (unat vid)) (unat vid) = None"
proof -
  let ?q' = "q\<lparr>rc_verbs := rc_ready cm (rc_verbs q)\<rparr>"
  have k: "get_next_in_qp_key ct 0 = Some (vid, ct\<lparr>ct_free_in_qp_key := vid + 1\<rparr>)" using in_qp_key [of 0 ct] assms(7,8) by simp
  obtain ret d1 where s: "send_reply ?q' \<lparr>pl_qd = 0, pl_mr = get_self_test_mr ct, pl_status = ReplyNil\<rparr> d = (ret, d1)" by fastforce
  have o: "(case get_trc ct (unat vid) of None \<Rightarrow> (True, d1) | Some old \<Rightarrow> drop_rc False old d1) = (True, snd (drop_rc False old d1))"
    using assms(9,12) by (simp add: prod_eq_iff)
  obtain e d' where p: "post (rc_qp q) (snd (drop_rc False old d1)) (window (ct_recv ct) (posted (ct_recv ct) 512)) = Some (e, d')" using assms(11) by fastforce
  from conn_callback_ready [where send_reply = send_reply and drop_rc = drop_rc and post = post, OF assms(1-6) k refl s o p refl] p show ?thesis
    using assms(9,10) by (auto simp: get_trc_def dereg_rc_def)
qed

theorem anonymous_connection_displaces_witness:
  "\<exists>ret ct' d'. rc_conn_callback sample_dev (sample_cm IB_CM_REQ_RCVD) (\<lambda>_ _ d. (0, d)) count_post (\<lambda>_ _ d. (True, d + 100))
      (sample_ctrl\<lparr>ct_rcs := [1 \<mapsto> sample_rc 8], ct_free_in_qp_key := 1\<rparr>) 2 0 (Some (sample_rc 9)) = Some (Some (ret, Some 1), ct', d') \<and>
    map_option rc_qp (get_trc ct' 1) = Some 9 \<and> get_trc (dereg_rc ct' 1) 1 = None"
  using anonymous_connection_displaces [OF sample_suits(1,3), of "sample_rc 9" "sample_ctrl\<lparr>ct_rcs := [1 \<mapsto> sample_rc 8], ct_free_in_qp_key := 1\<rparr>" 1
    "sample_rc 8" count_post "\<lambda>_ _ d. (True, d + 100)" "\<lambda>_ _ d. (0, d)" 2] sample_ctrl_ring sample_ctrl_create(2)
  by (auto simp: sample_rc_def sample_qp_def count_post_def get_trc_def)

end
