(* ===== verification/KrConn.thy ===== *)
theory KrConn
  imports KrCtrl CmMsg
begin

text \<open>
  Opening a reliable connection through the communication manager: the steps of \<^verbatim>\<open>drivers/infiniband/core/cm.c\<close> that a
  connection identifier takes on the two sides, the client of KRdmaKit (\<^verbatim>\<open>RC::connect\<close> and its handler in
  \<^verbatim>\<open>rust-kernel-rdma/KRdmaKit/src/qp/rc.rs\<close>), and the control block that serves the request.
  With it come the destruction of an identifier and what becomes of a request whose queue pair cannot be brought up.
\<close>

unbundle bit_operations_syntax

section \<open>Connection identifiers\<close>

text \<open>
  What the steps depend on besides the identifier and the message: port and partition key index found for the path, and the
  results of allocating, of sending, and of looking up listeners, duplicates and stale connections; 0 is success.
\<close>

record cm_env =
  env_av :: "int + nat \<times> nat"
  env_av_response :: int
  env_timewait :: int
  env_match :: int
  env_copy :: int
  env_msg :: int
  env_post :: int
  env_ack_delay :: u8

definition new_cm_id :: cm_id where
  "new_cm_id = \<lparr>cm_state = IB_CM_IDLE, cm_lap_state = IB_CM_LAP_UNINIT, cm_qp_type = IB_QPT_SMI, cm_responder_resources = 0,
     cm_initiator_depth = 0, cm_pkey_index = 0, cm_port_num = 0, cm_alt_dlid = 0, cm_remote_qpn = 0, cm_sq_psn = 0, cm_rq_psn = 0\<rparr>"

definition IB_CM_REQ_PRIVATE_DATA_SIZE :: nat where "IB_CM_REQ_PRIVATE_DATA_SIZE = 92"
definition IB_CM_REP_PRIVATE_DATA_SIZE :: nat where "IB_CM_REP_PRIVATE_DATA_SIZE = 196"
definition IB_CM_RTU_PRIVATE_DATA_SIZE :: nat where "IB_CM_RTU_PRIVATE_DATA_SIZE = 224"

definition cm_validate_req_param :: "'p ib_cm_req_param \<Rightarrow> int" where
  "cm_validate_req_param p =
     (if rp_peer_to_peer p then - EINVAL
      else if rp_qp_type p \<noteq> IB_QPT_RC \<and> rp_qp_type p \<noteq> IB_QPT_UC \<and> rp_qp_type p \<noteq> IB_QPT_XRC_INI then - EINVAL
      else if rp_private_data_len p > IB_CM_REQ_PRIVATE_DATA_SIZE then - EINVAL
      else 0)"

definition ib_send_cm_req :: "cm_env \<Rightarrow> cm_id \<Rightarrow> 'p ib_cm_req_param \<Rightarrow> int \<times> cm_id \<times> 'p cm_req_msg option" where
  "ib_send_cm_req env cm p =
     (if cm_validate_req_param p \<noteq> 0 then (cm_validate_req_param p, cm, None)
      else if cm_state cm \<noteq> IB_CM_IDLE then (- EINVAL, cm, None)
      else if env_timewait env \<noteq> 0 then (env_timewait env, cm, None)
      else case env_av env of
        Inl e \<Rightarrow> (e, cm, None)
      | Inr (port, pki) \<Rightarrow>
          let cm = cm\<lparr>cm_port_num := port, cm_pkey_index := pki, cm_initiator_depth := unat (rp_initiator_depth p),
                cm_responder_resources := unat (rp_responder_resources p), cm_qp_type := rp_qp_type p\<rparr> in
          if env_msg env \<noteq> 0 then (env_msg env, cm, None)
          else let m = cm_format_req p; cm = cm\<lparr>cm_rq_psn := cm_req_get_starting_psn m\<rparr> in
            if env_post env \<noteq> 0 then (env_post env, cm, None)
            else (0, cm\<lparr>cm_state := IB_CM_REQ_SENT\<rparr>, Some m))"

text \<open>A request that arrives makes a new identifier; the handler of the listener is called with it and the event.\<close>

definition cm_req_handler :: "cm_env \<Rightarrow> 'p cm_req_msg \<Rightarrow> int + cm_id \<times> 'p ib_cm_req_event_param" where
  "cm_req_handler env m =
     (if env_av_response env \<noteq> 0 then Inl (env_av_response env)
      else if env_timewait env \<noteq> 0 then Inl (env_timewait env)
      else if env_match env \<noteq> 0 then Inl (- EINVAL)
      else case env_av env of
        Inl e \<Rightarrow> Inl e
      | Inr (port, pki) \<Rightarrow> Inr (new_cm_id\<lparr>cm_state := IB_CM_REQ_RCVD, cm_port_num := port, cm_pkey_index := pki,
          cm_remote_qpn := cm_req_get_local_qpn m, cm_initiator_depth := unat (cm_req_get_resp_res m),
          cm_responder_resources := unat (cm_req_get_init_depth m), cm_sq_psn := cm_req_get_starting_psn m,
          cm_qp_type := cm_req_get_qp_type m\<rparr>, cm_format_req_event m))"

definition ib_send_cm_rep :: "cm_env \<Rightarrow> cm_id \<Rightarrow> 'p ib_cm_rep_param \<Rightarrow> int \<times> cm_id \<times> 'p cm_rep_msg option" where
  "ib_send_cm_rep env cm p =
     (if pp_private_data_len p > IB_CM_REP_PRIVATE_DATA_SIZE then (- EINVAL, cm, None)
      else if cm_state cm \<noteq> IB_CM_REQ_RCVD \<and> cm_state cm \<noteq> IB_CM_MRA_REQ_SENT then (- EINVAL, cm, None)
      else if env_msg env \<noteq> 0 then (env_msg env, cm, None)
      else let m = cm_format_rep (env_ack_delay env) (cm_qp_type cm) p in
        if env_post env \<noteq> 0 then (env_post env, cm, None)
        else (0, cm\<lparr>cm_state := IB_CM_REP_SENT, cm_initiator_depth := unat (pp_initiator_depth p),
          cm_responder_resources := unat (pp_responder_resources p), cm_rq_psn := cm_rep_get_starting_psn m\<rparr>, Some m))"

definition cm_rep_handler :: "cm_env \<Rightarrow> cm_id \<Rightarrow> 'p cm_rep_msg \<Rightarrow> int \<times> cm_id \<times> 'p ib_cm_rep_event_param option" where
  "cm_rep_handler env cm m =
     (if cm_state cm \<noteq> IB_CM_REQ_SENT \<and> cm_state cm \<noteq> IB_CM_MRA_REQ_RCVD then (- EINVAL, cm, None)
      else if env_match env \<noteq> 0 then (- EINVAL, cm, None)
      else (0, cm\<lparr>cm_state := IB_CM_REP_RCVD, cm_remote_qpn := cm_rep_get_qpn m (cm_qp_type cm),
        cm_initiator_depth := unat (rep_resp_resources m), cm_responder_resources := unat (rep_initiator_depth m),
        cm_sq_psn := cm_rep_get_starting_psn m\<rparr>, Some (cm_format_rep_event m (cm_qp_type cm))))"

definition ib_send_cm_rtu :: "cm_env \<Rightarrow> cm_id \<Rightarrow> nat \<Rightarrow> int \<times> cm_id" where
  "ib_send_cm_rtu env cm private_data_len =
     (if private_data_len > IB_CM_RTU_PRIVATE_DATA_SIZE then (- EINVAL, cm)
      else if env_copy env \<noteq> 0 then (env_copy env, cm)
      else if cm_state cm \<noteq> IB_CM_REP_RCVD \<and> cm_state cm \<noteq> IB_CM_MRA_REP_SENT then (- EINVAL, cm)
      else if env_msg env \<noteq> 0 then (env_msg env, cm)
      else if env_post env \<noteq> 0 then (env_post env, cm)
      else (0, cm\<lparr>cm_state := IB_CM_ESTABLISHED\<rparr>))"

definition cm_rtu_handler :: "cm_id \<Rightarrow> int \<times> cm_id" where
  "cm_rtu_handler cm =
     (if cm_state cm \<noteq> IB_CM_REP_SENT \<and> cm_state cm \<noteq> IB_CM_MRA_REP_RCVD then (- EINVAL, cm)
      else (0, cm\<lparr>cm_state := IB_CM_ESTABLISHED\<rparr>))"

section \<open>Closing an identifier\<close>

text \<open>The messages that close a connection.\<close>

datatype cm_close = CmRej | CmDreq | CmDrep

definition cm_send_close :: "cm_env \<Rightarrow> cm_close \<Rightarrow> int \<times> cm_close option" where
  "cm_send_close env m = (if env_msg env \<noteq> 0 then (env_msg env, None) else if env_post env \<noteq> 0 then (env_post env, None) else (0, Some m))"

definition ib_send_cm_rej :: "cm_env \<Rightarrow> cm_id \<Rightarrow> int \<times> cm_id \<times> cm_close option" where
  "ib_send_cm_rej env cm =
     (if cm_state cm \<in> {IB_CM_REQ_SENT, IB_CM_MRA_REQ_RCVD, IB_CM_REQ_RCVD, IB_CM_MRA_REQ_SENT, IB_CM_REP_RCVD, IB_CM_MRA_REP_SENT}
      then case cm_send_close env CmRej of (ret, m) \<Rightarrow> (ret, cm\<lparr>cm_state := IB_CM_IDLE\<rparr>, m)
      else if cm_state cm \<in> {IB_CM_REP_SENT, IB_CM_MRA_REP_RCVD}
      then case cm_send_close env CmRej of (ret, m) \<Rightarrow> (ret, cm\<lparr>cm_state := IB_CM_TIMEWAIT\<rparr>, m)
      else (- EINVAL, cm, None))"

definition ib_send_cm_dreq :: "cm_env \<Rightarrow> cm_id \<Rightarrow> int \<times> cm_id \<times> cm_close option" where
  "ib_send_cm_dreq env cm =
     (if cm_state cm \<noteq> IB_CM_ESTABLISHED then (- EINVAL, cm, None)
      else case cm_send_close env CmDreq of (ret, m) \<Rightarrow> (ret, cm\<lparr>cm_state := if ret \<noteq> 0 then IB_CM_TIMEWAIT else IB_CM_DREQ_SENT\<rparr>, m))"

definition ib_send_cm_drep :: "cm_env \<Rightarrow> cm_id \<Rightarrow> int \<times> cm_id \<times> cm_close option" where
  "ib_send_cm_drep env cm =
     (if env_copy env \<noteq> 0 then (env_copy env, cm, None)
      else if cm_state cm \<noteq> IB_CM_DREQ_RCVD then (- EINVAL, cm, None)
      else case cm_send_close env CmDrep of (ret, m) \<Rightarrow> (ret, cm\<lparr>cm_state := IB_CM_TIMEWAIT\<rparr>, m))"

text \<open>
  Destroying the identifier of a connection: the messages sent, and whether the call returns.  It gives back its own reference and
  waits until there is no other.  A handler that runs for the identifier holds one, which \<^verbatim>\<open>cm_match_req\<close> took and
  \<^verbatim>\<open>cm_process_work\<close> gives back when the handler has returned: called from there, it waits forever.  Listening identifiers
  and those of service resolution are not destroyed this way.
\<close>

definition cm_destroy_id :: "cm_env \<Rightarrow> bool \<Rightarrow> cm_id \<Rightarrow> cm_close list \<times> bool" where
  "cm_destroy_id env in_handler cm =
     (let sent = (\<lambda>r. case r of (_, _, None) \<Rightarrow> [] | (_, _, Some m) \<Rightarrow> [m]) in
      (if cm_state cm \<in> {IB_CM_REQ_SENT, IB_CM_MRA_REQ_RCVD, IB_CM_REQ_RCVD, IB_CM_REP_SENT, IB_CM_MRA_REP_RCVD, IB_CM_MRA_REQ_SENT,
          IB_CM_REP_RCVD, IB_CM_MRA_REP_SENT} then sent (ib_send_cm_rej env cm)
       else if cm_state cm = IB_CM_ESTABLISHED \<and> cm_qp_type cm \<noteq> IB_QPT_XRC_TGT then sent (ib_send_cm_dreq env cm)
       else if cm_state cm = IB_CM_DREQ_RCVD then sent (ib_send_cm_drep env cm)
       else [], \<not> in_handler))"

text \<open>A rejection that arrives, for a reason other than a stale connection.\<close>

definition cm_rej_handler :: "cm_id \<Rightarrow> int \<times> cm_id" where
  "cm_rej_handler cm =
     (if cm_state cm \<in> {IB_CM_REQ_SENT, IB_CM_MRA_REQ_RCVD, IB_CM_REP_SENT, IB_CM_MRA_REP_RCVD, IB_CM_REQ_RCVD, IB_CM_MRA_REQ_SENT}
      then (0, cm\<lparr>cm_state := IB_CM_IDLE\<rparr>)
      else if cm_state cm \<in> {IB_CM_DREQ_SENT, IB_CM_REP_RCVD, IB_CM_MRA_REP_SENT} \<or>
        cm_state cm = IB_CM_ESTABLISHED \<and> cm_lap_state cm \<in> {IB_CM_LAP_UNINIT, IB_CM_LAP_SENT}
      then (0, cm\<lparr>cm_state := IB_CM_TIMEWAIT\<rparr>)
      else (- EINVAL, cm))"

section \<open>The client and the server\<close>

definition bswap64 :: "u64 \<Rightarrow> u64" where
  "bswap64 x = be_val (rev (be_bytes 8 x))"

text \<open>The request of \<^verbatim>\<open>RC::connect\<close>; its private data is the identifier of the connection, of eight bytes.\<close>

definition rc_req_param :: "rc_conn \<Rightarrow> u64 \<Rightarrow> u64 \<Rightarrow> u8 \<Rightarrow> u64 ib_cm_req_param" where
  "rc_req_param rc qd service_id mtu = \<lparr>rp_service_id = bswap64 service_id, rp_qp_num = vq_num (rc_verbs rc), rp_qp_type = IB_QPT_RC,
     rp_starting_psn = vq_num (rc_verbs rc), rp_private_data = qd, rp_private_data_len = 8, rp_peer_to_peer = False,
     rp_responder_resources = 16, rp_initiator_depth = 16, rp_remote_cm_response_timeout = 20, rp_flow_control = 1,
     rp_local_cm_response_timeout = 20, rp_retry_count = 0, rp_rnr_retry_count = 7, rp_max_cm_retries = 15, rp_srq = 0, rp_mtu = mtu\<rparr>"

text \<open>
  \<open>network\<close> gives the reply to the request, if one arrives before the time is over; the error of a timeout has number 0.  The
  handler runs while the client waits.
\<close>

definition rc_connect :: "mod_dev \<Rightarrow> cm_env \<Rightarrow> (u64 cm_req_msg \<Rightarrow> conn_payload cm_rep_msg option) \<Rightarrow> cm_id \<Rightarrow> rc_conn \<Rightarrow> u64 \<Rightarrow> u64 \<Rightarrow> u8 \<Rightarrow>
    ((int + unit) \<times> cm_id \<times> rc_conn) option" where
  "rc_connect dev env network cm rc qd service_id mtu = (case ib_send_cm_req env cm (rc_req_param rc qd service_id mtu) of
     (ret, cm, None) \<Rightarrow> Some (Inl ret, cm, rc)
   | (ret, cm, Some m) \<Rightarrow> (case network m of
       None \<Rightarrow> Some (Inl 0, cm, rc)
     | Some rep \<Rightarrow> (case cm_rep_handler env cm rep of
         (_, cm, None) \<Rightarrow> Some (Inl 0, cm, rc)
       | (_, cm, Some event) \<Rightarrow> do {
           v \<leftarrow> rc_handle_reply dev cm (rc_verbs rc);
           let rc = rc\<lparr>rc_verbs := v, rc_remote_mr := Some (pl_mr (rv_private event))\<rparr>;
           let (ret, cm) = ib_send_cm_rtu env cm 1;
           Some (if ret \<noteq> 0 then Inl ret else Inr (), cm, rc)
         })))"

definition connect_reply :: "cm_env \<Rightarrow> u64 ib_cm_req_event_param \<Rightarrow> cm_id \<Rightarrow> rc_conn \<Rightarrow> conn_payload \<Rightarrow> int \<times> cm_id \<times> conn_payload cm_rep_msg option" where
  "connect_reply env req cm rc reply = ib_send_cm_rep env cm \<lparr>pp_qp_num = vq_num (rc_verbs rc), pp_starting_psn = vq_num (rc_verbs rc),
     pp_private_data = reply, pp_private_data_len = 32, pp_responder_resources = ev_responder_resources req,
     pp_initiator_depth = ev_initiator_depth req, pp_failover_accepted = 0, pp_flow_control = ev_flow_control req,
     pp_rnr_retry_count = ev_rnr_retry_count req, pp_srq = 0\<rparr>"

text \<open>
  A request being served: its identifier, the reply, the messages sent to close connections, by queue pair, and the state of the device.
\<close>

type_synonym 'd serving = "cm_id \<times> conn_payload cm_rep_msg option \<times> (nat \<times> cm_close) list \<times> 'd"

definition reply_beside :: "cm_env \<Rightarrow> u64 ib_cm_req_event_param \<Rightarrow> rc_conn \<Rightarrow> conn_payload \<Rightarrow> 'd serving \<Rightarrow> int \<times> 'd serving" where
  "reply_beside env event in_qp reply s = (case s of (cm, rep, cl, d) \<Rightarrow> case connect_reply env event cm in_qp reply of (ret, cm, rep) \<Rightarrow> (ret, cm, rep, cl, d))"

definition post_beside :: "(nat \<Rightarrow> 'd \<Rightarrow> ib_recv_wr list \<Rightarrow> (int \<times> 'd) option) \<Rightarrow> nat \<Rightarrow> 'd serving \<Rightarrow> ib_recv_wr list \<Rightarrow> (int \<times> 'd serving) option" where
  "post_beside post qp s ws = (case s of (cm, rep, cl, d) \<Rightarrow> map_option (\<lambda>(err, d). (err, cm, rep, cl, d)) (post qp d ws))"

text \<open>
  \<^verbatim>\<open>RC::drop\<close>: the queue pair and its completion queue are destroyed, then the identifier, which is that of the request being
  served or the one in \<open>ids\<close>.
\<close>

definition rc_drop :: "cm_env \<Rightarrow> (nat \<Rightarrow> 'd \<Rightarrow> 'd) \<Rightarrow> (nat \<Rightarrow> cm_id) \<Rightarrow> bool \<Rightarrow> rc_conn \<Rightarrow> 'd serving \<Rightarrow> bool \<times> 'd serving" where
  "rc_drop env destroy_qp ids served rc s = (case s of (cm, rep, cl, d) \<Rightarrow>
     (case cm_destroy_id env served (if served then cm else ids (rc_qp rc)) of (ms, ends) \<Rightarrow>
       (ends, cm, rep, cl @ map (Pair (rc_qp rc)) ms, destroy_qp (rc_qp rc) d)))"

text \<open>
  The handler of the control block for a request; \<open>new_qp\<close> is the queue pair it creates.  The result is the reply, the messages that close
  connections, whether the handler has returned, and the state.
\<close>

definition serve_request :: "mod_dev \<Rightarrow> cm_env \<Rightarrow> (nat \<Rightarrow> 'd \<Rightarrow> ib_recv_wr list \<Rightarrow> (int \<times> 'd) option) \<Rightarrow> (nat \<Rightarrow> 'd \<Rightarrow> 'd) \<Rightarrow> (nat \<Rightarrow> cm_id) \<Rightarrow>
    rctrl \<Rightarrow> 'd \<Rightarrow> rc_conn option \<Rightarrow> u64 cm_req_msg \<Rightarrow> (conn_payload cm_rep_msg option \<times> (nat \<times> cm_close) list \<times> bool \<times> rctrl \<times> 'd) option" where
  "serve_request dev env post destroy_qp ids ct d new_qp m = (case cm_req_handler env m of
     Inl _ \<Rightarrow> Some (None, [], True, ct, d)
   | Inr (cm, event) \<Rightarrow> do {
       (res, ct, cm, rep, cl, d) \<leftarrow> rc_conn_callback dev cm (reply_beside env event) (post_beside post)
         (rc_drop env destroy_qp ids) ct (cm, None, [], d) (ev_private event) new_qp;
       Some (rep, cl, res \<noteq> None, ct, d)
     })"

section \<open>A connection is opened\<close>

text \<open>An environment in which nothing fails, with a path from a port of the device.\<close>

definition env_suits :: "mod_dev \<Rightarrow> cm_env \<Rightarrow> bool" where
  "env_suits dev env \<longleftrightarrow> env_av_response env = 0 \<and> env_timewait env = 0 \<and> env_match env = 0 \<and> env_copy env = 0 \<and> env_msg env = 0 \<and>
     env_post env = 0 \<and> (case env_av env of Inl _ \<Rightarrow> False
       | Inr (port, pki) \<Rightarrow> 0 < port \<and> port \<le> num_ports dev \<and> pki < pkey_table_len dev (port - 1))"

definition fresh_rc :: "rc_conn \<Rightarrow> bool" where
  "fresh_rc rc \<longleftrightarrow> vq_type (rc_verbs rc) = IB_QPT_RC \<and> vq_state (rc_verbs rc) = IB_QPS_RESET"

lemma rc_req_fields:
  "cm_req_get_local_qpn (cm_format_req (rc_req_param rc qd sid mtu)) = vq_num (rc_verbs rc) AND 0xFFFFFF"
  "cm_req_get_starting_psn (cm_format_req (rc_req_param rc qd sid mtu)) = vq_num (rc_verbs rc) AND 0xFFFFFF"
  "cm_req_get_resp_res (cm_format_req (rc_req_param rc qd sid mtu)) = 16" "cm_req_get_init_depth (cm_format_req (rc_req_param rc qd sid mtu)) = 16"
  "cm_req_get_qp_type (cm_format_req (rc_req_param rc qd sid mtu)) = IB_QPT_RC" "req_private (cm_format_req (rc_req_param rc qd sid mtu)) = qd"
  using req_fields [of "rc_req_param rc qd sid mtu"] by (simp_all add: rc_req_param_def cm_format_req_def cm_req_defs Let_def)

text \<open>The client gets its queue pair ready on every reply.\<close>

lemma rc_connect_reply:
  assumes "dev_suits dev" "env_suits dev env" "fresh_rc rc" "network (cm_format_req (rc_req_param rc qd sid mtu)) = Some rep"
    and "unat (rep_resp_resources rep) \<le> 16"
  shows "\<exists>cm v. rc_connect dev env network new_cm_id rc qd sid mtu = Some (Inr (), cm, rc\<lparr>rc_verbs := v, rc_remote_mr := Some (pl_mr (rep_private rep))\<rparr>) \<and>
    cm_state cm = IB_CM_ESTABLISHED \<and> cm_lap_state cm = IB_CM_LAP_UNINIT \<and> vq_state v = IB_QPS_RTS \<and> vq_num v = vq_num (rc_verbs rc) \<and> vq_rq_psn v = vq_num (rc_verbs rc) AND 0xFFFFFF \<and>
    vq_dest v = cm_rep_get_local_qpn rep \<and> vq_sq_psn v = cm_rep_get_starting_psn rep AND 0xFFFFFF"
proof -
  obtain port pki where av: "env_av env = Inr (port, pki)" "0 < port" "port \<le> num_ports dev" "pki < pkey_table_len dev (port - 1)"
    using assms(2) by (auto simp: env_suits_def split: sum.splits)
  define cm where "cm = new_cm_id\<lparr>cm_state := IB_CM_REP_RCVD, cm_port_num := port, cm_pkey_index := pki, cm_initiator_depth := unat (rep_resp_resources rep),
    cm_responder_resources := unat (rep_initiator_depth rep), cm_qp_type := IB_QPT_RC, cm_rq_psn := vq_num (rc_verbs rc) AND 0xFFFFFF,
    cm_remote_qpn := cm_rep_get_local_qpn rep, cm_sq_psn := cm_rep_get_starting_psn rep\<rparr>"
  have "cm_suits dev cm" using av assms(1,5) by (auto simp: cm_def cm_suits_def new_cm_id_def cm_rtr_states_def dev_suits_def)
  from rc_handle_reply_ready [OF assms(1) this, of "rc_verbs rc"] assms(3)
  have h: "rc_handle_reply dev cm (rc_verbs rc) = Some (rc_ready cm (rc_verbs rc))" by (simp add: fresh_rc_def)
  have "rc_connect dev env network new_cm_id rc qd sid mtu =
      Some (Inr (), cm\<lparr>cm_state := IB_CM_ESTABLISHED\<rparr>, rc\<lparr>rc_verbs := rc_ready cm (rc_verbs rc), rc_remote_mr := Some (pl_mr (rep_private rep))\<rparr>)"
    using assms(2,4) av(1) h
    by (simp add: rc_connect_def ib_send_cm_req_def cm_validate_req_param_def env_suits_def IB_CM_REQ_PRIVATE_DATA_SIZE_def Let_def rc_req_fields
        cm_rep_handler_def ib_send_cm_rtu_def IB_CM_RTU_PRIVATE_DATA_SIZE_def cm_format_rep_event_def)
      (simp add: rc_req_param_def new_cm_id_def cm_def cm_rep_get_qpn_def)
  then show ?thesis by (auto simp: cm_def new_cm_id_def)
qed

text \<open>The identifier the server gets for the request of a client.\<close>

definition server_cm :: "cm_env \<Rightarrow> rc_conn \<Rightarrow> cm_id" where
  "server_cm env rc = new_cm_id\<lparr>cm_state := IB_CM_REQ_RCVD, cm_port_num := fst (projr (env_av env)), cm_pkey_index := snd (projr (env_av env)),
     cm_remote_qpn := vq_num (rc_verbs rc) AND 0xFFFFFF, cm_initiator_depth := 16, cm_responder_resources := 16,
     cm_sq_psn := vq_num (rc_verbs rc) AND 0xFFFFFF, cm_qp_type := IB_QPT_RC\<rparr>"

lemma server_cm_suits: "dev_suits dev \<Longrightarrow> env_suits dev env \<Longrightarrow> cm_suits dev (server_cm env rc)"
  by (auto simp: env_suits_def cm_suits_def server_cm_def new_cm_id_def cm_rtr_states_def dev_suits_def split: sum.splits)

lemma serve_request_callback:
  assumes "env_suits dev env"
  shows "\<exists>ev. ev_private ev = qd \<and> ev_responder_resources ev = 16 \<and>
    serve_request dev env post destroy_qp ids ct d (Some q) (cm_format_req (rc_req_param rc qd sid mtu)) = do {
       (res, ct, cm, rep, cl, d) \<leftarrow> rc_conn_callback dev (server_cm env rc) (reply_beside env ev) (post_beside post)
         (rc_drop env destroy_qp ids) ct (server_cm env rc, None, [], d) qd (Some q);
       Some (rep, cl, res \<noteq> None, ct, d)
     }"
  using assms
  by (intro exI [of _ "cm_format_req_event (cm_format_req (rc_req_param rc qd sid mtu))"])
    (auto simp: serve_request_def cm_req_handler_def env_suits_def server_cm_def rc_req_fields cm_format_req_event_def split: sum.splits)

text \<open>The reply carries the number of the queue pair and the memory region of the control block.\<close>

lemma connect_reply_sent:
  assumes "env_suits dev env" "ev_responder_resources ev = 16"
  shows "\<exists>cm rep. connect_reply env ev (server_cm env rc) q payload = (0, cm, Some rep) \<and> cm_state cm = IB_CM_REP_SENT \<and> cm_rep_get_local_qpn rep = vq_num (rc_verbs q) AND 0xFFFFFF \<and>
    cm_rep_get_starting_psn rep = vq_num (rc_verbs q) AND 0xFFFFFF \<and> rep_private rep = payload \<and> unat (rep_resp_resources rep) = 16"
proof -
  have "rep_private (cm_format_rep a IB_QPT_RC p) = pp_private_data p" "rep_resp_resources (cm_format_rep a IB_QPT_RC p) = pp_responder_resources p"
    for a and p :: "conn_payload ib_cm_rep_param" by (simp_all add: cm_format_rep_def cm_rep_defs Let_def)
  then show ?thesis using assms
    by (simp add: connect_reply_def ib_send_cm_rep_def env_suits_def IB_CM_REP_PRIVATE_DATA_SIZE_def server_cm_def rep_fields Let_def)
qed

text \<open>Two queue pairs that can exchange packets: each sends to the other, from the sequence number the other expects.\<close>

definition connected :: "verbs_qp \<Rightarrow> verbs_qp \<Rightarrow> bool" where
  "connected a b \<longleftrightarrow> vq_state a = IB_QPS_RTS \<and> vq_state b = IB_QPS_RTS \<and> vq_dest a = vq_num b \<and> vq_dest b = vq_num a \<and>
     vq_sq_psn a = vq_rq_psn b \<and> vq_sq_psn b = vq_rq_psn a"

lemma psn_mask: "x < 2 ^ 24 \<Longrightarrow> x AND 0xFFFFFF = (x :: u32)" "(x AND 0xFFFFFF) AND 0xFFFFFF = (x AND 0xFFFFFF :: u32)"
proof -
  show "x AND 0xFFFFFF = x" if "x < 2 ^ 24"
    using that unfolding cm_masks32(2) take_bit_eq_mask [symmetric] by (simp add: take_bit_eq_mod word_unat_eq_iff unat_mod word_less_nat_alt)
qed (simp add: and.assoc)

text \<open>Serving a request that nothing hinders; a connection with the identifier of the client is dropped first.\<close>

lemma serve_request_serves:
  assumes "dev_suits dev" "env_suits dev env" "fresh_rc q" "rh_ring (ct_recv ct)" "rh_cur_idx (ct_recv ct) + 512 < 2 ^ 64" "qd \<noteq> 0"
    and "\<And>d ws. \<exists>r. post (rc_qp q) d ws = Some r"
    and q': "q' = q\<lparr>rc_verbs := rc_ready (server_cm env rc) (rc_verbs q)\<rparr>"
  shows "\<exists>rep cl ct' d'. serve_request dev env post destroy_qp ids ct d (Some q) (cm_format_req (rc_req_param rc qd sid mtu)) =
      Some (Some rep, cl, True, ct', d') \<and> get_trc ct' (unat qd) = Some q' \<and>
    cm_rep_get_local_qpn rep = vq_num (rc_verbs q') AND 0xFFFFFF \<and> cm_rep_get_starting_psn rep = vq_num (rc_verbs q') AND 0xFFFFFF \<and>
    pl_mr (rep_private rep) = get_self_test_mr ct \<and> unat (rep_resp_resources rep) = 16"
proof -
  let ?cm = "server_cm env rc" and ?payload = "\<lparr>pl_qd = qd, pl_mr = get_self_test_mr ct, pl_status = ReplyNil\<rparr>"
  let ?drop = "rc_drop env destroy_qp ids"
  obtain ev where ev: "ev_responder_resources ev = 16" and serve: "serve_request dev env post destroy_qp ids ct d (Some q)
      (cm_format_req (rc_req_param rc qd sid mtu)) = do {
       (res, ct, cm, rep, cl, d) \<leftarrow> rc_conn_callback dev ?cm (reply_beside env ev) (post_beside post) ?drop ct (?cm, None, [], d) qd (Some q);
       Some (rep, cl, res \<noteq> None, ct, d)
     }" using serve_request_callback [OF assms(2), of qd post destroy_qp ids ct d q rc sid mtu] by blast
  obtain cm' rep where r: "connect_reply env ev ?cm q' ?payload = (0, cm', Some rep)" "cm_rep_get_local_qpn rep = vq_num (rc_verbs q') AND 0xFFFFFF"
    "cm_rep_get_starting_psn rep = vq_num (rc_verbs q') AND 0xFFFFFF" "rep_private rep = ?payload" "unat (rep_resp_resources rep) = 16"
    using connect_reply_sent [OF assms(2) ev] by blast
  have s: "reply_beside env ev q' ?payload (?cm, None, [], d) = (0, cm', Some rep, [], d)" using r(1) by (simp add: reply_beside_def)
  obtain cl d2 where o: "(case get_trc ct (unat qd) of None \<Rightarrow> (True, cm', Some rep, [], d) | Some old \<Rightarrow> ?drop False old (cm', Some rep, [], d)) =
      (True, cm', Some rep, cl, d2)"
    by (cases "get_trc ct (unat qd)") (auto simp: rc_drop_def cm_destroy_id_def Let_def)
  obtain e d3 where p: "post_beside post (rc_qp q) (cm', Some rep, cl, d2) (window (ct_recv ct) (posted (ct_recv ct) 512)) = Some (e, cm', Some rep, cl, d3)"
    using assms(7) [of d2 "window (ct_recv ct) (posted (ct_recv ct) 512)"] by (auto simp: post_beside_def)
  have k: "get_next_in_qp_key ct qd = Some (qd, ct)" using assms(6) by (simp add: get_next_in_qp_key_def)
  have f: "vq_type (rc_verbs q) = IB_QPT_RC" "vq_state (rc_verbs q) = IB_QPS_RESET" using assms(3) by (simp_all add: fresh_rc_def)
  from conn_callback_ready [where send_reply = "reply_beside env ev" and drop_rc = ?drop and post = "post_beside post",
      OF assms(1) server_cm_suits [OF assms(1,2)] f assms(4,5) k q' s o p refl]
  show ?thesis unfolding serve using r(2-) by (auto simp: get_trc_def)
qed

text \<open>A client and a server that both have what they need come to the end of the exchange.\<close>

lemma handshake_fits:
  assumes "dev_suits devC" and "env_suits devC envC" and "fresh_rc rc" and "vq_num (rc_verbs rc) < 2 ^ 24"
    and "dev_suits devS" and "env_suits devS envS" and "fresh_rc q" and "vq_num (rc_verbs q) < 2 ^ 24"
    and "rh_ring (ct_recv ct)" and "rh_cur_idx (ct_recv ct) + 512 < 2 ^ 64" and "qd \<noteq> 0" and "\<And>d ws. \<exists>r. post (rc_qp q) d ws = Some r"
  shows "\<exists>rep cl ct' d' cm rc' q'.
    serve_request devS envS post destroy_qp ids ct d (Some q) (cm_format_req (rc_req_param rc qd sid mtu)) = Some (Some rep, cl, True, ct', d') \<and>
    rc_connect devC envC (\<lambda>m. Option.bind (serve_request devS envS post destroy_qp ids ct d (Some q) m) fst) new_cm_id rc qd sid mtu = Some (Inr (), cm, rc') \<and>
    cm_state cm = IB_CM_ESTABLISHED \<and> get_trc ct' (unat qd) = Some q' \<and> connected (rc_verbs rc') (rc_verbs q') \<and>
    rc_remote_mr rc' = Some (get_self_test_mr ct)"
proof -
  let ?net = "\<lambda>m. Option.bind (serve_request devS envS post destroy_qp ids ct d (Some q) m) fst"
  define q' where "q' = q\<lparr>rc_verbs := rc_ready (server_cm envS rc) (rc_verbs q)\<rparr>"
  obtain rep cl ct' d' where s: "serve_request devS envS post destroy_qp ids ct d (Some q) (cm_format_req (rc_req_param rc qd sid mtu)) =
      Some (Some rep, cl, True, ct', d')" "get_trc ct' (unat qd) = Some q'" "cm_rep_get_local_qpn rep = vq_num (rc_verbs q') AND 0xFFFFFF"
    "cm_rep_get_starting_psn rep = vq_num (rc_verbs q') AND 0xFFFFFF" "pl_mr (rep_private rep) = get_self_test_mr ct" "unat (rep_resp_resources rep) = 16"
    using serve_request_serves [where post = post, OF assms(5-7,9-12) q'_def, of destroy_qp ids d sid mtu] by blast
  then have "?net (cm_format_req (rc_req_param rc qd sid mtu)) = Some rep" by simp
  from rc_connect_reply [where network = ?net, OF assms(1-3) this] s(6)
  obtain cm v where rc: "rc_connect devC envC ?net new_cm_id rc qd sid mtu =
      Some (Inr (), cm, rc\<lparr>rc_verbs := v, rc_remote_mr := Some (pl_mr (rep_private rep))\<rparr>)" "cm_state cm = IB_CM_ESTABLISHED" "vq_state v = IB_QPS_RTS"
    "vq_num v = vq_num (rc_verbs rc)" "vq_rq_psn v = vq_num (rc_verbs rc) AND 0xFFFFFF" "vq_dest v = cm_rep_get_local_qpn rep"
    "vq_sq_psn v = cm_rep_get_starting_psn rep AND 0xFFFFFF" by auto
  have "connected v (rc_verbs q')" using rc(3-) s(3,4) psn_mask assms(4,8)
    by (simp add: connected_def q'_def server_cm_def)
  then show ?thesis using s(1,2,5) rc(1,2) by auto
qed

text \<open>
  C6. The two ends of a connection fit together.  When a client connects to a control block, each with a fresh queue
  pair, and no resource runs out, the call succeeds and the identifier is established; both queue pairs are ready to
  send, each to the number of the other and with the packet sequence number the other expects; the client knows
  the memory region of the server, and the server has the connection under the client's identifier.
\<close>

theorem connection_handshake:
  assumes "dev_suits devC" and "env_suits devC envC" and "fresh_rc rc" and "vq_num (rc_verbs rc) < 2 ^ 24"
    and "dev_suits devS" and "env_suits devS envS" and "fresh_rc q" and "vq_num (rc_verbs q) < 2 ^ 24"
    and "rh_ring (ct_recv ct)" and "rh_cur_idx (ct_recv ct) + 512 < 2 ^ 64" and "qd \<noteq> 0" and "\<And>d ws. \<exists>r. post (rc_qp q) d ws = Some r"
  shows "\<exists>rep cl ct' d' cm rc' q'.
    serve_request devS envS post destroy_qp ids ct d (Some q) (cm_format_req (rc_req_param rc qd sid mtu)) = Some (Some rep, cl, True, ct', d') \<and>
    rc_connect devC envC (\<lambda>m. Option.bind (serve_request devS envS post destroy_qp ids ct d (Some q) m) fst) new_cm_id rc qd sid mtu = Some (Inr (), cm, rc') \<and>
    cm_state cm = IB_CM_ESTABLISHED \<and> get_trc ct' (unat qd) = Some q' \<and> connected (rc_verbs rc') (rc_verbs q') \<and>
    rc_remote_mr rc' = Some (get_self_test_mr ct)"
  by (rule handshake_fits [where post = post, OF assms])

text \<open>A small client and server to evaluate.\<close>

definition sample_env :: cm_env where
  "sample_env = \<lparr>env_av = Inr (1, 0), env_av_response = 0, env_timewait = 0, env_match = 0, env_copy = 0, env_msg = 0, env_post = 0, env_ack_delay = 15\<rparr>"

lemma sample_env_suits: "env_suits sample_dev sample_env" "fresh_rc (sample_rc n)"
  by (simp_all add: env_suits_def sample_env_def sample_dev_def fresh_rc_def sample_rc_def sample_qp_def)

text \<open>The identifiers of established connections.\<close>

definition sample_ids :: "nat \<Rightarrow> cm_id" where
  "sample_ids n = new_cm_id\<lparr>cm_state := IB_CM_ESTABLISHED, cm_qp_type := IB_QPT_RC\<rparr>"

abbreviation sample_serve :: "mod_dev \<Rightarrow> u64 cm_req_msg \<Rightarrow>
    (conn_payload cm_rep_msg option \<times> (nat \<times> cm_close) list \<times> bool \<times> rctrl \<times> nat) option" where
  "sample_serve dev \<equiv> serve_request dev sample_env count_post (\<lambda>_ d. d + 100) sample_ids sample_ctrl 2 (Some (sample_rc 9))"

lemma rej_established:
  assumes "cm_state cm = IB_CM_ESTABLISHED" and "cm_lap_state cm = IB_CM_LAP_UNINIT"
  shows "cm_rej_handler cm = (0, cm\<lparr>cm_state := IB_CM_TIMEWAIT\<rparr>)"
  using assms by (simp add: cm_rej_handler_def)

theorem connection_handshake_witness:
  "\<exists>cm rc'. rc_connect sample_dev sample_env (\<lambda>m. Option.bind (sample_serve sample_dev m) fst)
      new_cm_id (sample_rc 8) 7 3 4 = Some (Inr (), cm, rc') \<and> cm_state cm = IB_CM_ESTABLISHED \<and> vq_state (rc_verbs rc') = IB_QPS_RTS"
proof -
  have p: "\<exists>r. count_post (rc_qp (sample_rc 9)) d ws = Some r" for d ws by (simp add: count_post_def)
  have n: "vq_num (rc_verbs (sample_rc 8)) < 2 ^ 24" "vq_num (rc_verbs (sample_rc 9)) < 2 ^ 24" "rh_cur_idx (ct_recv sample_ctrl) + 512 < 2 ^ 64" "(7 :: u64) \<noteq> 0"
    by (simp_all add: sample_rc_def sample_qp_def sample_ctrl_create)
  from connection_handshake [where post = count_post, OF sample_suits(1) sample_env_suits(1) sample_env_suits(2) n(1) sample_suits(1) sample_env_suits(1)
      sample_env_suits(2) n(2) sample_ctrl_ring n(3) n(4) p, of "\<lambda>_ d. d + 100" sample_ids 2 3 4]
  show ?thesis by (auto simp: connected_def)
qed

text \<open>
  C20. A server that cannot bring its queue pair up hangs, and its client may take the connection for open.  The
  callback replies all the same, with the status it always sends; then the queue pair goes out of scope, which rejects the connection
  and destroys the identifier from its own handler: the handler never returns, and nothing is registered.  The
  client does not look at the status of the reply: when it has confirmed it before the rejection arrives, its call succeeds, with a memory region of the
  server and a queue pair that is ready to send; the rejection then closes its identifier only.
\<close>

theorem failed_server_hangs:
  assumes "dev_suits devC" and "env_suits devC envC" and "fresh_rc rc" and "env_suits devS envS" and "qd \<noteq> 0"
    and "rc_bring_to_rtr devS (server_cm envS rc) (rc_verbs q) = Some (err, v)" and "err \<noteq> 0"
  shows "\<exists>rep cm rc'. serve_request devS envS post destroy_qp ids ct d (Some q) (cm_format_req (rc_req_param rc qd sid mtu)) =
      Some (Some rep, [(rc_qp q, CmRej)], False, ct, destroy_qp (rc_qp q) d) \<and>
    rc_connect devC envC (\<lambda>m. Option.bind (serve_request devS envS post destroy_qp ids ct d (Some q) m) fst) new_cm_id rc qd sid mtu = Some (Inr (), cm, rc') \<and>
    vq_state (rc_verbs rc') = IB_QPS_RTS \<and> rc_remote_mr rc' = Some (get_self_test_mr ct) \<and>
    cm_state cm = IB_CM_ESTABLISHED \<and> cm_rej_handler cm = (0, cm\<lparr>cm_state := IB_CM_TIMEWAIT\<rparr>)"
proof -
  let ?cm = "server_cm envS rc" and ?payload = "\<lparr>pl_qd = qd, pl_mr = get_self_test_mr ct, pl_status = ReplyNil\<rparr>" and ?q = "q\<lparr>rc_verbs := v\<rparr>"
  let ?net = "\<lambda>m. Option.bind (serve_request devS envS post destroy_qp ids ct d (Some q) m) fst"
  obtain ev where ev: "ev_responder_resources ev = 16" and serve: "serve_request devS envS post destroy_qp ids ct d (Some q)
      (cm_format_req (rc_req_param rc qd sid mtu)) = do {
       (res, ct, cm, rep, cl, d) \<leftarrow> rc_conn_callback devS ?cm (reply_beside envS ev) (post_beside post)
         (rc_drop envS destroy_qp ids) ct (?cm, None, [], d) qd (Some q);
       Some (rep, cl, res \<noteq> None, ct, d)
     }" using serve_request_callback [OF assms(4), of qd post destroy_qp ids ct d q rc sid mtu] by blast
  obtain cm' rep where r: "connect_reply envS ev ?cm ?q ?payload = (0, cm', Some rep)" "cm_state cm' = IB_CM_REP_SENT"
    "rep_private rep = ?payload" "unat (rep_resp_resources rep) = 16"
    using connect_reply_sent [OF assms(4) ev] by blast
  have x: "rc_drop envS destroy_qp ids True ?q (cm', Some rep, [], d) = (False, cm', Some rep, [(rc_qp q, CmRej)], destroy_qp (rc_qp q) d)"
    using r(2) assms(4) by (simp add: rc_drop_def cm_destroy_id_def ib_send_cm_rej_def cm_send_close_def env_suits_def)
  have s: "serve_request devS envS post destroy_qp ids ct d (Some q) (cm_format_req (rc_req_param rc qd sid mtu)) =
      Some (Some rep, [(rc_qp q, CmRej)], False, ct, destroy_qp (rc_qp q) d)"
    unfolding serve using assms(5-7) r(1) x by (simp add: rc_conn_callback_def get_next_in_qp_key_def reply_beside_def)
  then have "?net (cm_format_req (rc_req_param rc qd sid mtu)) = Some rep" by simp
  from rc_connect_reply [where network = ?net, OF assms(1-3) this] r(3,4) s
  show ?thesis using rej_established by fastforce
qed

theorem failed_server_hangs_witness:
  "\<exists>rep cm rc'. sample_serve (sample_dev\<lparr>apply_modify := \<lambda>_ _ _ _. - 5\<rparr>) (cm_format_req (rc_req_param (sample_rc 8) 7 3 4)) =
      Some (Some rep, [(9, CmRej)], False, sample_ctrl, 102) \<and>
    rc_connect sample_dev sample_env (\<lambda>m. Option.bind (sample_serve (sample_dev\<lparr>apply_modify := \<lambda>_ _ _ _. - 5\<rparr>) m) fst)
      new_cm_id (sample_rc 8) 7 3 4 = Some (Inr (), cm, rc') \<and> vq_state (rc_verbs rc') = IB_QPS_RTS"
proof -
  have e: "env_suits (sample_dev\<lparr>apply_modify := \<lambda>_ _ _ _. - 5\<rparr>) sample_env" by (simp add: env_suits_def sample_env_def sample_dev_def)
  have b: "rc_bring_to_rtr (sample_dev\<lparr>apply_modify := \<lambda>_ _ _ _. - 5\<rparr>) (server_cm sample_env (sample_rc 8)) (rc_verbs (sample_rc 9)) = Some (- 5, rc_verbs (sample_rc 9))"
    using bring_masks_ok(1)
    by (simp add: rc_bring_to_rtr_def rc_bring_to_init_def ib_cm_init_qp_attr_def cm_init_qp_init_attr_def ib_modify_qp_def mlx5_ib_modify_qp_def
        server_cm_def new_cm_id_def cm_rtr_states_def sample_env_def sample_dev_def sample_rc_def sample_qp_def zero_attr_def qp_attr_masks)
  have "rc_qp (sample_rc 9) = 9" by (simp add: sample_rc_def)
  then show ?thesis
    using failed_server_hangs [OF sample_suits(1) sample_env_suits(1) sample_env_suits(2) e _ b, of 7 count_post "\<lambda>_ d. d + 100" sample_ids sample_ctrl 2 3 4]
    by fastforce
qed

end
