(* ===== verification/KrVq.thy ===== *)
theory KrVq
  imports KrCtrl
begin

text \<open>
  The virtual queue of KRCore: the system calls of \<^verbatim>\<open>KRdmaKit-syscall/src/virtual_queue.rs\<close> with their helpers in
  \<^verbatim>\<open>core.rs\<close>, \<^verbatim>\<open>client.rs\<close> and \<^verbatim>\<open>lib.rs\<close>, the requests built by \<^verbatim>\<open>KRdmaKit/src/qp/rc_op.rs\<close>, \<^verbatim>\<open>dc_op.rs\<close> and \<^verbatim>\<open>ud_op.rs\<close>,
  and the wrapper \<^verbatim>\<open>qconnect\<close> of \<^verbatim>\<open>include/syscall.h\<close>.  The network and the driver are a record of functions
  over a state of type \<open>'d\<close>; arguments that a call copies from user space are arguments of the
  command.  \<^const>\<open>None\<close> is a call that does not return: the kernel panics, accesses memory it must not,
  or waits for ever.
\<close>

unbundle bit_operations_syntax

section \<open>Requests\<close>

definition IB_WR_RDMA_WRITE :: u32 where "IB_WR_RDMA_WRITE = 0"
definition IB_WR_RDMA_WRITE_WITH_IMM :: u32 where "IB_WR_RDMA_WRITE_WITH_IMM = 1"
definition IB_WR_SEND :: u32 where "IB_WR_SEND = 2"
definition IB_WR_SEND_WITH_IMM :: u32 where "IB_WR_SEND_WITH_IMM = 3"
definition IB_WR_RDMA_READ :: u32 where "IB_WR_RDMA_READ = 4"
definition IB_SEND_SIGNALED :: u32 where "IB_SEND_SIGNALED = 2"
definition IB_SEND_INLINE :: u32 where "IB_SEND_INLINE = 8"

lemmas send_consts = IB_WR_RDMA_WRITE_def IB_WR_RDMA_WRITE_WITH_IMM_def IB_WR_SEND_def IB_WR_SEND_WITH_IMM_def IB_WR_RDMA_READ_def
  IB_SEND_SIGNALED_def IB_SEND_INLINE_def

text \<open>The types of requests are Read, Write, Send, SendImm and WriteImm; any other number panics.\<close>

definition op_code_table :: "u32 \<Rightarrow> u32 option" where
  "op_code_table ty =
     (if ty = 0 then Some IB_WR_RDMA_READ
      else if ty = 1 then Some IB_WR_RDMA_WRITE
      else if ty = 2 then Some IB_WR_SEND
      else if ty = 3 then Some IB_WR_SEND_WITH_IMM
      else if ty = 4 then Some IB_WR_RDMA_WRITE_WITH_IMM
      else None)"

record core_req =
  cr_addr :: u64
  cr_length :: u32
  cr_remote_addr :: u64
  cr_send_flags :: u32
  cr_vid :: u32
  cr_type :: u32

datatype wr_target =
    RdmaTo u64 u32
  | DcTo u64 u32 "nat option" u64 u32
  | UdTo u32 u32 "nat option"

record send_wr =
  sw_opcode :: u32
  sw_addr :: u64
  sw_length :: u32
  sw_lkey :: u32
  sw_flags :: u32
  sw_imm :: u32
  sw_target :: wr_target

definition rc_wr :: "u32 \<Rightarrow> u64 \<Rightarrow> u32 \<Rightarrow> u32 \<Rightarrow> u64 \<Rightarrow> u32 \<Rightarrow> u32 \<Rightarrow> u32 \<Rightarrow> send_wr" where
  "rc_wr op local_ptr lk sz remote_addr rk imm_data send_flag = \<lparr>sw_opcode = op, sw_addr = local_ptr, sw_length = sz, sw_lkey = lk,
     sw_flags = send_flag, sw_imm = imm_data, sw_target = RdmaTo remote_addr rk\<rparr>"

definition dc_wr :: "u32 \<Rightarrow> u64 \<Rightarrow> u32 \<Rightarrow> u32 \<Rightarrow> u64 \<Rightarrow> u32 \<Rightarrow> end_point \<Rightarrow> u32 \<Rightarrow> send_wr" where
  "dc_wr op local_ptr lk sz remote_addr rk point send_flag = \<lparr>sw_opcode = op, sw_addr = local_ptr, sw_length = sz, sw_lkey = lk,
     sw_flags = send_flag, sw_imm = 0, sw_target = DcTo remote_addr rk (ep_ah point) 73 (ep_dct_num point)\<rparr>"

definition ud_wr :: "u32 \<Rightarrow> u64 \<Rightarrow> u32 \<Rightarrow> end_point \<Rightarrow> u32 \<Rightarrow> u32 \<Rightarrow> u32 \<Rightarrow> send_wr" where
  "ud_wr op local_ptr lk point sz imm_data send_flag = \<lparr>sw_opcode = op, sw_addr = local_ptr, sw_length = sz, sw_lkey = lk,
     sw_flags = send_flag, sw_imm = imm_data, sw_target = UdTo (ep_qpn point) (ep_qkey point) (ep_ah point)\<rparr>"

section \<open>Kernel and driver\<close>

text \<open>
  \<open>dr_post_send\<close>, \<open>dr_post_recv\<close> and \<open>dr_poll_send\<close> act on a queue pair, \<open>dr_poll_recv\<close> on the receive completions of
  a control block.  \<open>dr_read_point\<close> reads an endpoint from memory, \<open>dr_memcpy\<close> copies inside the kernel.
  Connecting yields an error or the memory region the server replied with.  \<open>dr_meta_page\<close> stands for the two reads of the directory by a
  dynamic queue pair: its result is what the local region holds after them, whether they were accepted and succeeded or not,
  since the caller checks neither; a wait that does not end is \<^const>\<open>None\<close>.
\<close>

record 'd driver =
  dr_post_send :: "nat \<Rightarrow> send_wr \<Rightarrow> 'd \<Rightarrow> int \<times> 'd"
  dr_post_recv :: "nat \<Rightarrow> 'd \<Rightarrow> ib_recv_wr list \<Rightarrow> (int \<times> 'd) option"
  dr_poll_send :: "nat \<Rightarrow> 'd \<Rightarrow> ib_wc option \<times> 'd"
  dr_poll_recv :: "nat \<Rightarrow> 'd \<Rightarrow> ib_wc list \<Rightarrow> (nat \<times> ib_wc list \<times> 'd) option"
  dr_pa_to_va :: "u64 \<Rightarrow> u64"
  dr_create_ah :: "u16 \<Rightarrow> gid \<Rightarrow> nat option"
  dr_read_point :: "u64 \<Rightarrow> 'd \<Rightarrow> end_point"
  dr_memcpy :: "u64 \<Rightarrow> u64 \<Rightarrow> u32 \<Rightarrow> 'd \<Rightarrow> 'd"
  dr_parse_gid :: "block \<Rightarrow> gid option"
  dr_resolve :: "nat \<Rightarrow> nat \<Rightarrow> block \<Rightarrow> 'd \<Rightarrow> nat option \<times> 'd"
  dr_new_rc :: "nat \<Rightarrow> 'd \<Rightarrow> rc_conn option \<times> 'd"
  dr_rc_connect :: "rc_conn \<Rightarrow> nat \<Rightarrow> nat \<Rightarrow> nat \<Rightarrow> 'd \<Rightarrow> (int + temp_mr) \<times> 'd"
  dr_sidr_connect :: "nat \<Rightarrow> nat \<Rightarrow> 'd \<Rightarrow> (int + end_point) option \<times> 'd"
  dr_meta_page :: "nat \<Rightarrow> 'd \<Rightarrow> (kv_page \<times> 'd) option"

record 'd kern =
  k_rctrl :: "rctrl list"
  k_dev :: 'd

definition MAX_SERVICE_NUM :: nat where "MAX_SERVICE_NUM = 25"
definition UD_HEADER_SZ :: nat where "UD_HEADER_SZ = 40"
definition HOST_LEN :: nat where "HOST_LEN = 12"
definition pop_wc_len :: nat where "pop_wc_len = 2048"

text \<open>The control block at an index; the result is the index reduced to the number of blocks.\<close>

definition get_global_rctrl :: "'d kern \<Rightarrow> nat \<Rightarrow> nat option" where
  "get_global_rctrl k idx = (if k_rctrl k = [] then None else Some (idx mod length (k_rctrl k)))"

definition get_bind_ctrl :: "'d kern \<Rightarrow> nat \<Rightarrow> nat option" where
  "get_bind_ctrl k port = get_global_rctrl k (port * 2)"

text \<open>The blocks are created service by service, for each service one per network card.\<close>

definition rctrl_services :: "nat \<Rightarrow> (nat \<times> nat) list" where
  "rctrl_services nics = concat (map (\<lambda>i. map (\<lambda>j. (i, j)) [0..<nics]) [0..<MAX_SERVICE_NUM])"

partial_function (option) wait_til_comp :: "('d \<Rightarrow> ib_wc option \<times> 'd) \<Rightarrow> 'd \<Rightarrow> (ib_wc \<times> 'd) option" where
  "wait_til_comp pop d = (case pop d of
     (Some wc, d) \<Rightarrow> Some (wc, d)
   | (None, d) \<Rightarrow> wait_til_comp pop d)"

section \<open>The virtual queue\<close>

datatype reply_status =
    st_err | st_ok | st_timeout | st_already_connected | st_already_bind | st_addr_error | st_nil | st_not_connected | st_not_bind

definition status_value :: "reply_status \<Rightarrow> int" where
  "status_value s = (case s of st_err \<Rightarrow> 0 | st_ok \<Rightarrow> 1 | st_timeout \<Rightarrow> 2 | st_already_connected \<Rightarrow> 3 | st_already_bind \<Rightarrow> 4
     | st_addr_error \<Rightarrow> 5 | st_nil \<Rightarrow> 6 | st_not_connected \<Rightarrow> 7 | st_not_bind \<Rightarrow> 8)"

record dct_target_meta =
  dm_dct_num :: u32
  dm_lid :: u16
  dm_gid :: gid
  dm_mr :: temp_mr

text \<open>
  A path is known by a number.  The cache of targets is keyed by the address followed by the port; the
  address has always 39 bytes, so that the key is the pair.
\<close>

record vq =
  q_virtual_queue :: "rc_conn option"
  q_local_dc :: "nat option"
  q_local_ud :: "ud_conn option"
  q_connect_param :: "(nat \<times> nat \<times> nat) option"
  q_path_cache :: "block \<rightharpoonup> nat"
  q_dct_cache :: "block \<times> nat \<rightharpoonup> dct_target_meta"
  q_local_mr :: "temp_mr option"
  q_client_endpoint :: "nat \<rightharpoonup> end_point"
  q_remote_endpoint :: "end_point option"
  q_bind_port :: "nat option"
  q_connect_port :: "nat option"

definition vq_open :: "temp_mr \<Rightarrow> vq" where
  "vq_open mr = \<lparr>q_virtual_queue = None, q_local_dc = None, q_local_ud = None, q_connect_param = None, q_path_cache = Map.empty,
     q_dct_cache = Map.empty, q_local_mr = Some mr, q_client_endpoint = Map.empty, q_remote_endpoint = None, q_bind_port = None,
     q_connect_port = None\<rparr>"

text \<open>The features the module is compiled with.\<close>

record features =
  ft_virtual_queue :: bool
  ft_dct_qp :: bool
  ft_meta_kv :: bool
  ft_meta_cache :: bool
  ft_migrate_qp :: bool

section \<open>Connecting\<close>

definition explore_path :: "'d driver \<Rightarrow> vq \<Rightarrow> 'd kern \<Rightarrow> nat \<Rightarrow> block \<Rightarrow> (nat option \<times> vq \<times> 'd kern) option" where
  "explore_path drv q k port host = (case q_path_cache q host of
     Some path \<Rightarrow> Some (Some path, q, k)
   | None \<Rightarrow> do {
       ci \<leftarrow> get_global_rctrl k port;
       let (res, d) = dr_resolve drv ci port host (k_dev k);
       Some (res, case res of None \<Rightarrow> q | Some path \<Rightarrow> q\<lparr>q_path_cache := (q_path_cache q)(host \<mapsto> path)\<rparr>, k\<lparr>k_dev := d\<rparr>)
     })"

definition qp_connect :: "'d driver \<Rightarrow> 'd kern \<Rightarrow> nat \<Rightarrow> nat \<Rightarrow> nat \<Rightarrow> ((int + rc_conn option) \<times> 'd kern) option" where
  "qp_connect drv k vid port path = do {
     ci \<leftarrow> get_global_rctrl k port;
     (case dr_new_rc drv ci (k_dev k) of
        (None, d) \<Rightarrow> Some (Inr None, k\<lparr>k_dev := d\<rparr>)
      | (Some rc, d) \<Rightarrow> (case dr_rc_connect drv rc vid path port d of
          (Inl e, d) \<Rightarrow> Some (Inl e, k\<lparr>k_dev := d\<rparr>)
        | (Inr mr, d) \<Rightarrow> Some (Inr (Some (rc\<lparr>rc_remote_mr := Some mr\<rparr>)), k\<lparr>k_dev := d\<rparr>)))
   }"

definition connect_rc :: "features \<Rightarrow> 'd driver \<Rightarrow> vq \<Rightarrow> 'd kern \<Rightarrow> block \<Rightarrow> nat \<Rightarrow> nat \<Rightarrow> (reply_status \<times> vq \<times> 'd kern) option" where
  "connect_rc ft drv q k host port vid = do {
     (path, q, k) \<leftarrow> explore_path drv q k port host;
     (case path of
        None \<Rightarrow> Some (st_err, q, k)
      | Some path \<Rightarrow> do {
          (res, k) \<leftarrow> qp_connect drv k vid port path;
          Some (case res of
            Inl _ \<Rightarrow> (st_err, q, k)
          | Inr qp \<Rightarrow> (st_ok, if ft_virtual_queue ft then q\<lparr>q_virtual_queue := qp\<rparr> else q, k))
        })
   }"

text \<open>The lookup in the directory, when it is compiled in, and the handshake it falls back to.\<close>

definition find_target :: "features \<Rightarrow> 'd driver \<Rightarrow> vq \<Rightarrow> 'd kern \<Rightarrow> block \<Rightarrow> nat \<Rightarrow> (end_point option \<times> vq \<times> 'd kern) option" where
  "find_target ft drv q k host port = do {
     (point, k) \<leftarrow> (if ft_meta_kv ft then do {
         dc \<leftarrow> q_local_dc q;
         (page, d) \<leftarrow> dr_meta_page drv dc (k_dev k);
         g \<leftarrow> dr_parse_gid drv host;
         point \<leftarrow> query_dct_meta page g;
         Some (point, k\<lparr>k_dev := d\<rparr>)
       } else Some (None, k));
     (case point of
        Some p \<Rightarrow> Some (Some p, q, k)
      | None \<Rightarrow> do {
          (path, q, k) \<leftarrow> explore_path drv q k port host;
          (case path of
             None \<Rightarrow> Some (None, q, k)
           | Some path \<Rightarrow> (case dr_sidr_connect drv path port (k_dev k) of
               (None, d) \<Rightarrow> None
             | (Some (Inl _), d) \<Rightarrow> Some (None, q, k\<lparr>k_dev := d\<rparr>)
             | (Some (Inr p), d) \<Rightarrow> Some (Some p, q, k\<lparr>k_dev := d\<rparr>)))
        })
   }"

definition use_target :: "features \<Rightarrow> 'd driver \<Rightarrow> vq \<Rightarrow> block \<times> nat \<Rightarrow> end_point \<Rightarrow> vq" where
  "use_target ft drv q key p =
     (let q = q\<lparr>q_remote_endpoint := Some (end_point_new (dr_create_ah drv) (ep_qpn p) (ep_qkey p) (ep_lid p) (ep_gid p) (ep_dct_num p) (ep_mr p))\<rparr> in
      if ft_meta_cache ft then q\<lparr>q_dct_cache := (q_dct_cache q)(key \<mapsto>
        \<lparr>dm_dct_num = ep_dct_num p, dm_lid = ep_lid p, dm_gid = ep_gid p, dm_mr = ep_mr p\<rparr>)\<rparr>
      else q)"

definition connect_dct :: "features \<Rightarrow> 'd driver \<Rightarrow> vq \<Rightarrow> 'd kern \<Rightarrow> block \<Rightarrow> nat \<Rightarrow> nat \<Rightarrow> (reply_status \<times> vq \<times> 'd kern) option" where
  "connect_dct ft drv q k host port vid = (case q_dct_cache q (host, port) of
     Some _ \<Rightarrow> Some (st_ok, q, k)
   | None \<Rightarrow> do {
       (go, q, k) \<leftarrow> (if ft_migrate_qp ft then do {
           (path, q, k) \<leftarrow> explore_path drv q k port host;
           Some (path \<noteq> None, case path of None \<Rightarrow> q | Some path \<Rightarrow> q\<lparr>q_connect_param := Some (vid, port, path)\<rparr>, k)
         } else Some (True, q, k));
       if \<not> go then Some (st_err, q, k) else do {
         (point, q, k) \<leftarrow> find_target ft drv q k host port;
         Some (case point of None \<Rightarrow> (st_err, q, k) | Some p \<Rightarrow> (st_ok, use_target ft drv q (host, port) p, k))
       }
     })"

definition connect_impl :: "features \<Rightarrow> 'd driver \<Rightarrow> vq \<Rightarrow> 'd kern \<Rightarrow> block \<Rightarrow> nat \<Rightarrow> nat \<Rightarrow> (reply_status \<times> vq \<times> 'd kern) option" where
  "connect_impl ft drv q k host port vid =
     (if q_virtual_queue q \<noteq> None then Some (st_already_connected, q, k)
      else if dr_parse_gid drv host = None then Some (st_addr_error, q, k)
      else do {
        ci \<leftarrow> get_global_rctrl k port;
        let ct = k_rctrl k ! ci;
        let q = q\<lparr>q_local_mr := Some \<lparr>mr_addr = mr_addr (get_self_test_mr ct), mr_capacity = of_nat MAX_KMALLOC_SZ,
          mr_rkey = cx_lkey (ct_context ct)\<rparr>, q_connect_port := Some port\<rparr>;
        let q = (if q_local_dc q = None then q\<lparr>q_local_dc := ct_dc ct, q_local_ud := get_ud ct DEFAULT_RPC_HINT\<rparr> else q);
        if ft_dct_qp ft then connect_dct ft drv q k host port vid else connect_rc ft drv q k host port vid
      })"

text \<open>The thread that replaces the dynamic connection by a reliable one.\<close>

definition bg_rc_migrate_thread :: "features \<Rightarrow> 'd driver \<Rightarrow> vq \<Rightarrow> 'd kern \<Rightarrow> (vq \<times> 'd kern) option" where
  "bg_rc_migrate_thread ft drv q k = do {
     (vid, port, path) \<leftarrow> q_connect_param q;
     if q_virtual_queue q = None then do {
       (res, k) \<leftarrow> qp_connect drv k vid port path;
       Some (case res of Inl _ \<Rightarrow> q | Inr qp \<Rightarrow> if ft_virtual_queue ft then q\<lparr>q_virtual_queue := qp\<rparr> else q, k)
     } else Some (q, k)
   }"


section \<open>Pushing requests\<close>

text \<open>
  What both kinds of push compute for a request: the operation, the local and the remote address and the
  flags.  An inline request carries the virtual address.
\<close>

definition send_params :: "(u64 \<Rightarrow> u64) \<Rightarrow> u64 \<Rightarrow> u64 \<Rightarrow> core_req \<Rightarrow> (u32 \<times> u64 \<times> u64 \<times> u32) option" where
  "send_params pa_to_va local_pa remote_pa req = do {
     laddr \<leftarrow> add_u64 local_pa (cr_addr req);
     raddr \<leftarrow> add_u64 (cr_remote_addr req) remote_pa;
     op \<leftarrow> op_code_table (cr_type req);
     let (laddr, send_flag) = (if cr_length req < 64 then
         (if op = IB_WR_RDMA_READ then (laddr, 0)
          else if op = IB_WR_RDMA_WRITE then (pa_to_va laddr, IB_SEND_INLINE)
          else if op = IB_WR_RDMA_WRITE_WITH_IMM then (pa_to_va laddr, IB_SEND_INLINE)
          else (laddr, 0))
       else (laddr, 0));
     let send_flag = send_flag OR (if cr_send_flags req = 0 then send_flag OR 0 else send_flag OR IB_SEND_SIGNALED);
     Some (op, laddr, raddr, send_flag)
   }"

fun rc_push_loop :: "'d driver \<Rightarrow> rc_conn \<Rightarrow> temp_mr \<Rightarrow> temp_mr \<Rightarrow> core_req list \<Rightarrow> 'd \<Rightarrow> (reply_status \<times> 'd) option" where
  "rc_push_loop drv rc local_mr remote_mr [] d = Some (st_ok, d)"
| "rc_push_loop drv rc local_mr remote_mr (req # reqs) d = do {
     (op, laddr, raddr, send_flag) \<leftarrow> send_params (dr_pa_to_va drv) (mr_addr local_mr) (mr_addr remote_mr) req;
     let (err, d) = dr_post_send drv (rc_qp rc)
       (rc_wr op laddr (mr_rkey local_mr) (cr_length req) raddr (mr_rkey remote_mr) (cr_vid req) send_flag) d;
     if err \<noteq> 0 then Some (st_err, d) else rc_push_loop drv rc local_mr remote_mr reqs d
   }"

definition rc_push_impl :: "'d driver \<Rightarrow> vq \<Rightarrow> core_req list \<Rightarrow> 'd \<Rightarrow> (reply_status \<times> 'd) option" where
  "rc_push_impl drv q reqs d = (case q_virtual_queue q of
     None \<Rightarrow> Some (st_nil, d)
   | Some rc \<Rightarrow> do {
       local_mr \<leftarrow> q_local_mr q;
       remote_mr \<leftarrow> rc_remote_mr rc;
       rc_push_loop drv rc local_mr remote_mr reqs d
     })"

fun dc_push_loop :: "'d driver \<Rightarrow> nat \<Rightarrow> temp_mr \<Rightarrow> end_point \<Rightarrow> core_req list \<Rightarrow> 'd \<Rightarrow> (reply_status \<times> 'd) option" where
  "dc_push_loop drv dc local_mr point [] d = Some (st_ok, d)"
| "dc_push_loop drv dc local_mr point (req # reqs) d = do {
     (op, laddr, raddr, send_flag) \<leftarrow> send_params (dr_pa_to_va drv) (mr_addr local_mr) (mr_addr (ep_mr point)) req;
     let (err, d) = dr_post_send drv dc
       (dc_wr op laddr (mr_rkey local_mr) (cr_length req) raddr (mr_rkey (ep_mr point)) point send_flag) d;
     if err \<noteq> 0 then Some (st_err, d) else dc_push_loop drv dc local_mr point reqs d
   }"

definition dc_push_impl :: "'d driver \<Rightarrow> vq \<Rightarrow> core_req list \<Rightarrow> 'd \<Rightarrow> (reply_status \<times> 'd) option" where
  "dc_push_impl drv q reqs d = do {
     local_mr \<leftarrow> q_local_mr q;
     (case q_local_dc q of
        None \<Rightarrow> Some (st_nil, d)
      | Some dc \<Rightarrow> do { point \<leftarrow> q_remote_endpoint q; dc_push_loop drv dc local_mr point reqs d })
   }"

text \<open>The reply of a server, to one client; \<open>rcs\<close> and \<open>uds\<close> count the requests per client.\<close>

definition bind_push_ud :: "'d driver \<Rightarrow> rctrl \<Rightarrow> temp_mr \<Rightarrow> core_req \<Rightarrow> nat \<Rightarrow> vq \<Rightarrow> 'd \<Rightarrow> nat list \<Rightarrow> (int \<times> vq \<times> 'd) option" where
  "bind_push_ud drv ct local_mr req vid q d uds = do {
     wr_id \<leftarrow> add_u64 (cr_remote_addr req) (of_nat UD_HEADER_SZ);
     let (point, q) = (case q_client_endpoint q vid of
         Some point \<Rightarrow> (point, q)
       | None \<Rightarrow> let p = dr_read_point drv wr_id d;
             point = end_point_new (dr_create_ah drv) (ep_qpn p) (ep_qkey p) (ep_lid p) (ep_gid p) (ep_dct_num p) (ep_mr p) in
           (point, q\<lparr>q_client_endpoint := (q_client_endpoint q)(vid \<mapsto> point)\<rparr>));
     ud \<leftarrow> get_ud ct DEFAULT_RPC_HINT;
     op \<leftarrow> op_code_table (cr_type req);
     let (err, d) = dr_post_send drv (ud_qp ud)
       (ud_wr op (mr_addr local_mr) (mr_rkey local_mr) point 0 0 (if uds ! vid = 0 then IB_SEND_SIGNALED else 0)) d;
     Some (err, q, d)
   }"

definition bind_push_rc :: "'d driver \<Rightarrow> rctrl \<Rightarrow> temp_mr \<Rightarrow> core_req \<Rightarrow> nat \<Rightarrow> rc_conn \<Rightarrow> 'd \<Rightarrow> nat list \<Rightarrow> (int \<times> 'd) option" where
  "bind_push_rc drv ct local_mr req vid rc d rcs = do {
     laddr \<leftarrow> add_u64 (mr_addr local_mr) (cr_addr req);
     raddr \<leftarrow> add_u64 (cr_remote_addr req) (mr_addr local_mr);
     op \<leftarrow> op_code_table (cr_type req);
     Some (dr_post_send drv (rc_qp rc) (rc_wr op laddr (mr_rkey local_mr) (cr_length req) raddr (cx_rkey (ct_context ct)) (of_nat vid)
       (if rcs ! vid = 0 then IB_SEND_SIGNALED else 0)) d)
   }"

fun bind_push_loop :: "'d driver \<Rightarrow> rctrl \<Rightarrow> temp_mr \<Rightarrow> core_req list \<Rightarrow> vq \<Rightarrow> 'd \<Rightarrow> nat list \<Rightarrow> nat list \<Rightarrow>
    (reply_status \<times> vq \<times> 'd \<times> nat list \<times> nat list) option" where
  "bind_push_loop drv ct local_mr [] q d rcs uds = Some (st_ok, q, d, rcs, uds)"
| "bind_push_loop drv ct local_mr (req # reqs) q d rcs uds =
     (let vid = unat (cr_vid req) mod HOST_LEN in
      case get_trc ct vid of
        None \<Rightarrow> do {
          (err, q, d) \<leftarrow> bind_push_ud drv ct local_mr req vid q d uds;
          let uds = uds[vid := uds ! vid + 1];
          if err \<noteq> 0 then Some (st_err, q, d, rcs, uds) else bind_push_loop drv ct local_mr reqs q d rcs uds
        }
      | Some rc \<Rightarrow> do {
          (err, d) \<leftarrow> bind_push_rc drv ct local_mr req vid rc d rcs;
          let rcs = rcs[vid := rcs ! vid + 1];
          if err \<noteq> 0 then Some (st_err, q, d, rcs, uds) else bind_push_loop drv ct local_mr reqs q d rcs uds
        })"

text \<open>New receive buffers for a client, and one completion if it is to be awaited.\<close>

definition replenish :: "'d driver \<Rightarrow> bool \<Rightarrow> (rctrl \<Rightarrow> 'd \<Rightarrow> (int \<times> rctrl \<times> 'd) option) \<Rightarrow> nat \<Rightarrow> rctrl \<Rightarrow> 'd \<Rightarrow>
    (reply_status \<times> rctrl \<times> 'd) option" where
  "replenish drv pop_at_once post_recv qp ct d = do {
     (err, ct, d) \<leftarrow> post_recv ct d;
     if err \<noteq> 0 then Some (st_err, ct, d)
     else if pop_at_once then do { (_, d) \<leftarrow> wait_til_comp (dr_poll_send drv qp) d; Some (st_ok, ct, d) }
     else Some (st_ok, ct, d)
   }"

definition reap_ud :: "'d driver \<Rightarrow> bool \<Rightarrow> nat \<Rightarrow> rctrl \<Rightarrow> 'd \<Rightarrow> (reply_status \<times> rctrl \<times> 'd) option" where
  "reap_ud drv pop_at_once cnt ct d =
     (if cnt = 0 then Some (st_ok, ct, d)
      else do {
        ud \<leftarrow> get_ud ct DEFAULT_RPC_HINT;
        replenish drv pop_at_once (\<lambda>ct d. ud_post_recv (dr_post_recv drv) ct d cnt) (ud_qp ud) ct d
      })"

definition reap_rc :: "'d driver \<Rightarrow> bool \<Rightarrow> nat \<Rightarrow> nat \<Rightarrow> rctrl \<Rightarrow> 'd \<Rightarrow> (reply_status \<times> rctrl \<times> 'd) option" where
  "reap_rc drv pop_at_once vid cnt ct d =
     (if cnt = 0 then Some (st_ok, ct, d)
      else do {
        rc \<leftarrow> get_trc ct vid;
        replenish drv pop_at_once (\<lambda>ct d. trc_post_recv (dr_post_recv drv) ct d vid cnt) (rc_qp rc) ct d
      })"

fun bind_reap :: "'d driver \<Rightarrow> bool \<Rightarrow> nat list \<Rightarrow> nat list \<Rightarrow> nat list \<Rightarrow> rctrl \<Rightarrow> 'd \<Rightarrow> (reply_status \<times> rctrl \<times> 'd) option" where
  "bind_reap drv pop_at_once rcs uds [] ct d = Some (st_ok, ct, d)"
| "bind_reap drv pop_at_once rcs uds (vid # vids) ct d = do {
     (st, ct, d) \<leftarrow> reap_ud drv pop_at_once (uds ! vid) ct d;
     if st = st_err then Some (st_err, ct, d) else do {
       (st, ct, d) \<leftarrow> reap_rc drv pop_at_once vid (rcs ! vid) ct d;
       if st = st_err then Some (st_err, ct, d) else bind_reap drv pop_at_once rcs uds vids ct d
     }
   }"

definition bind_server_push_impl :: "'d driver \<Rightarrow> vq \<Rightarrow> 'd kern \<Rightarrow> core_req list \<Rightarrow> bool \<Rightarrow> (reply_status \<times> vq \<times> 'd kern) option" where
  "bind_server_push_impl drv q k reqs pop_at_once = do {
     port \<leftarrow> q_bind_port q;
     ci \<leftarrow> get_bind_ctrl k port;
     local_mr \<leftarrow> q_local_mr q;
     (res, q, d, rcs, uds) \<leftarrow> bind_push_loop drv (k_rctrl k ! ci) local_mr reqs q (k_dev k) (replicate HOST_LEN 0) (replicate HOST_LEN 0);
     if res = st_ok then do {
       (res, ct, d) \<leftarrow> bind_reap drv pop_at_once rcs uds [1..<HOST_LEN] (k_rctrl k ! ci) d;
       Some (res, q, k\<lparr>k_rctrl := (k_rctrl k)[ci := ct], k_dev := d\<rparr>)
     } else Some (res, q, k\<lparr>k_dev := d\<rparr>)
   }"

definition push_recv_impl :: "'d driver \<Rightarrow> vq \<Rightarrow> 'd kern \<Rightarrow> nat \<Rightarrow> (reply_status \<times> 'd kern) option" where
  "push_recv_impl drv q k push_cnt = (case q_bind_port q of
     Some port \<Rightarrow> do {
       ci \<leftarrow> get_bind_ctrl k port;
       (case get_trc (k_rctrl k ! ci) 1 of
          None \<Rightarrow> Some (st_not_connected, k)
        | Some _ \<Rightarrow> do {
            (err, ct, d) \<leftarrow> trc_post_recv (dr_post_recv drv) (k_rctrl k ! ci) (k_dev k) 1 push_cnt;
            Some (if err = 0 then st_ok else st_err, k\<lparr>k_rctrl := (k_rctrl k)[ci := ct], k_dev := d\<rparr>)
          })
     }
   | None \<Rightarrow> (case q_connect_port q of
       None \<Rightarrow> Some (st_not_connected, k)
     | Some port \<Rightarrow> do {
         ci \<leftarrow> get_global_rctrl k port;
         qp \<leftarrow> (case q_virtual_queue q of Some rc \<Rightarrow> Some (rc_qp rc) | None \<Rightarrow> map_option ud_qp (q_local_ud q));
         let ct = k_rctrl k ! ci;
         (err, recv, d) \<leftarrow> post_recvs (dr_post_recv drv qp) (ct_recv ct) (k_dev k) push_cnt;
         Some (if err = 0 then st_ok else st_err, k\<lparr>k_rctrl := (k_rctrl k)[ci := ct\<lparr>ct_recv := recv\<rparr>], k_dev := d\<rparr>)
       }))"

definition DEFAULT_BATCH_SZ :: nat where "DEFAULT_BATCH_SZ = 64"

text \<open>One batch of at most 64 requests.\<close>

definition push_batch :: "'d driver \<Rightarrow> bool \<Rightarrow> vq \<Rightarrow> 'd kern \<Rightarrow> core_req list \<Rightarrow> (reply_status \<times> vq \<times> 'd kern) option" where
  "push_batch drv pop_at_once q k reqs =
     (if q_bind_port q \<noteq> None then bind_server_push_impl drv q k reqs pop_at_once
      else do {
        (ret, d) \<leftarrow> (if q_virtual_queue q \<noteq> None then rc_push_impl drv q reqs (k_dev k) else dc_push_impl drv q reqs (k_dev k));
        Some (ret, q, k\<lparr>k_dev := d\<rparr>)
      })"

function push_loop :: "'d driver \<Rightarrow> bool \<Rightarrow> reply_status \<Rightarrow> vq \<Rightarrow> 'd kern \<Rightarrow> core_req list \<Rightarrow> (reply_status \<times> vq \<times> 'd kern) option" where
  "push_loop drv pop_at_once ret q k reqs =
     (if reqs = [] then Some (ret, q, k)
      else do {
        (ret, q, k) \<leftarrow> push_batch drv pop_at_once q k (take DEFAULT_BATCH_SZ reqs);
        if ret = st_err then Some (ret, q, k) else push_loop drv pop_at_once ret q k (drop DEFAULT_BATCH_SZ reqs)
      })"
  by pat_completeness auto
termination by (relation "measure (\<lambda>(_, _, _, _, _, reqs). length reqs)") (auto simp: DEFAULT_BATCH_SZ_def)

declare push_loop.simps [simp del]

definition push_impl :: "'d driver \<Rightarrow> vq \<Rightarrow> 'd kern \<Rightarrow> core_req list \<Rightarrow> bool \<Rightarrow> nat \<Rightarrow> (reply_status \<times> vq \<times> 'd kern) option" where
  "push_impl drv q k reqs pop_at_once push_recv_cnt = do {
     (ret, k) \<leftarrow> (if q_bind_port q = None \<and> push_recv_cnt > 0 then push_recv_impl drv q k push_recv_cnt else Some (st_ok, k));
     (ret, q, k) \<leftarrow> push_loop drv pop_at_once ret q k reqs;
     if q_bind_port q = None \<and> pop_at_once \<and> ret = st_ok then do {
       qp \<leftarrow> (case q_virtual_queue q of None \<Rightarrow> map_option ud_qp (q_local_ud q) | Some rc \<Rightarrow> Some (rc_qp rc));
       (_, d) \<leftarrow> wait_til_comp (dr_poll_send drv qp) (k_dev k);
       Some (ret, q, k\<lparr>k_dev := d\<rparr>)
     } else Some (ret, q, k)
   }"

section \<open>Popping completions\<close>

record user_wc =
  uw_op :: ib_wc_opcode
  uw_status :: ib_wc_status
  uw_imm_data :: u32
  uw_wr_id :: u64

definition user_wc_of :: "ib_wc \<Rightarrow> user_wc" where
  "user_wc_of wc = \<lparr>uw_op = wc_opcode wc, uw_status = wc_status wc, uw_imm_data = wc_ex wc, uw_wr_id = wc_wr_id wc\<rparr>"

text \<open>Copying \<open>n\<close> completions out, with the payload of each message moved behind it.\<close>

fun copy_wcs :: "'d driver \<Rightarrow> u32 \<Rightarrow> nat \<Rightarrow> ib_wc list \<Rightarrow> 'd \<Rightarrow> (user_wc list \<times> 'd) option" where
  "copy_wcs drv payload_sz 0 wcs d = Some ([], d)"
| "copy_wcs drv payload_sz (Suc n) [] d = None"
| "copy_wcs drv payload_sz (Suc n) (wc # wcs) d = do {
     dst \<leftarrow> add_u64 (wc_wr_id wc) (ucast payload_sz);
     (us, d) \<leftarrow> copy_wcs drv payload_sz n wcs (dr_memcpy drv dst (wc_wr_id wc) payload_sz d);
     Some (user_wc_of wc # us, d)
   }"

text \<open>The completions and their number in the buffer of the caller, if there are any.\<close>

definition handle_pop_ret :: "'d driver \<Rightarrow> ib_wc list option \<Rightarrow> nat \<Rightarrow> u32 \<Rightarrow> 'd \<Rightarrow>
    (reply_status \<times> (user_wc list \<times> u32) option \<times> 'd) option" where
  "handle_pop_ret drv pop_ret wc_len payload_sz d = (case pop_ret of
     Some wcs \<Rightarrow> do { (us, d) \<leftarrow> copy_wcs drv payload_sz wc_len wcs d; Some (st_ok, Some (us, of_nat wc_len), d) }
   | None \<Rightarrow> Some (st_nil, None, d))"

definition pop_recv :: "'d driver \<Rightarrow> 'd kern \<Rightarrow> nat \<Rightarrow> nat \<Rightarrow> nat \<Rightarrow> (ib_wc list \<times> nat \<times> 'd kern) option" where
  "pop_recv drv k core_id pop_cnt offset = do {
     ci \<leftarrow> get_global_rctrl k core_id;
     let ct = k_rctrl k ! ci;
     (n, recv, d) \<leftarrow> pop_recvs (dr_poll_recv drv ci) (ct_recv ct) (k_dev k) pop_cnt offset;
     Some (rh_wcs recv, n, k\<lparr>k_rctrl := (k_rctrl k)[ci := ct\<lparr>ct_recv := recv\<rparr>], k_dev := d\<rparr>)
   }"

text \<open>The loop ends when enough messages are there or \<open>retries\<close> are used up.\<close>

fun pop_msg_loop :: "'d driver \<Rightarrow> vq \<Rightarrow> u32 \<Rightarrow> u32 \<Rightarrow> nat \<Rightarrow> nat \<Rightarrow> 'd kern \<Rightarrow>
    (reply_status \<times> (user_wc list \<times> u32) option \<times> 'd kern) option" where
  "pop_msg_loop drv q least payload_sz retries act k = do {
     (wcs, n, k) \<leftarrow> (case q_connect_port q of
         None \<Rightarrow> Some (None, 0, k)
       | Some port \<Rightarrow> map_option (\<lambda>(wcs, n, k). (Some wcs, n, k)) (pop_recv drv k port 2048 act));
     if unat least \<le> act + n \<or> retries = 0 then do {
       (ret, out, d) \<leftarrow> handle_pop_ret drv wcs (act + n) payload_sz (k_dev k);
       Some (ret, out, k\<lparr>k_dev := d\<rparr>)
     } else pop_msg_loop drv q least payload_sz (retries - 1) (act + n) k
   }"

declare pop_msg_loop.simps [simp del]

definition pop_msg_impl :: "'d driver \<Rightarrow> vq \<Rightarrow> 'd kern \<Rightarrow> u32 \<Rightarrow> u32 \<Rightarrow>
    (reply_status \<times> (user_wc list \<times> u32) option \<times> 'd kern) option" where
  "pop_msg_impl drv q k least payload_sz = (case q_bind_port q of
     Some port \<Rightarrow> do {
       (wcs, n, k) \<leftarrow> pop_recv drv k (2 * port) 2048 0;
       (ret, out, d) \<leftarrow> handle_pop_ret drv (Some wcs) n payload_sz (k_dev k);
       Some (ret, out, k\<lparr>k_dev := d\<rparr>)
     }
   | None \<Rightarrow> pop_msg_loop drv q least payload_sz 50001 0 k)"

text \<open>Polling one completion of a request.\<close>

definition pop_impl :: "features \<Rightarrow> 'd driver \<Rightarrow> vq \<Rightarrow> 'd kern \<Rightarrow> nat \<Rightarrow>
    (reply_status \<times> (user_wc list \<times> u32) option \<times> 'd kern) option" where
  "pop_impl ft drv q k vid = do {
     (wc, d) \<leftarrow> (case q_bind_port q of
         Some port \<Rightarrow> do {
           ci \<leftarrow> get_bind_ctrl k port;
           Some (case get_trc (k_rctrl k ! ci) vid of
               None \<Rightarrow> (None, k_dev k)
             | Some rc \<Rightarrow> dr_poll_send drv (rc_qp rc) (k_dev k))
         }
       | None \<Rightarrow> do {
           (wc, d) \<leftarrow> (if ft_dct_qp ft then do { dc \<leftarrow> q_local_dc q; Some (dr_poll_send drv dc (k_dev k)) } else Some (None, k_dev k));
           Some (case (wc, q_virtual_queue q) of
               (None, Some rc) \<Rightarrow> dr_poll_send drv (rc_qp rc) d
             | _ \<Rightarrow> (wc, d))
         });
     (ret, out, d) \<leftarrow> handle_pop_ret drv (map_option (\<lambda>wc. [wc]) wc) 1 0 d;
     Some (ret, out, k\<lparr>k_dev := d\<rparr>)
   }"


section \<open>System calls\<close>

text \<open>The check of \<^verbatim>\<open>core::str::from_utf8\<close>; continuation bytes are those from 0x80 to 0xBF.\<close>

abbreviation cont :: "u8 \<Rightarrow> bool" where
  "cont b \<equiv> 0x80 \<le> b \<and> b \<le> 0xBF"

fun utf8_ok :: "block \<Rightarrow> bool" where
  "utf8_ok [] \<longleftrightarrow> True"
| "utf8_ok (a # bs) \<longleftrightarrow>
     (if a < 0x80 then utf8_ok bs
      else case bs of
        [] \<Rightarrow> False
      | b # bs \<Rightarrow>
          if 0xC2 \<le> a \<and> a \<le> 0xDF then cont b \<and> utf8_ok bs
          else case bs of
            [] \<Rightarrow> False
          | c # bs \<Rightarrow>
              if 0xE0 \<le> a \<and> a \<le> 0xEF then
                cont b \<and> (a = 0xE0 \<longrightarrow> 0xA0 \<le> b) \<and> (a = 0xED \<longrightarrow> b \<le> 0x9F) \<and> cont c \<and> utf8_ok bs
              else case bs of
                [] \<Rightarrow> False
              | e # bs \<Rightarrow>
                  0xF0 \<le> a \<and> a \<le> 0xF4 \<and> cont b \<and> (a = 0xF0 \<longrightarrow> 0x90 \<le> b) \<and> (a = 0xF4 \<longrightarrow> b \<le> 0x8F) \<and> cont c \<and> cont e \<and> utf8_ok bs)"

definition ADDR_SZ :: nat where "ADDR_SZ = 39"

text \<open>Casts from \<^verbatim>\<open>i32\<close> and the remainder of Rust, which has the sign of the dividend.\<close>

definition as_usize :: "int \<Rightarrow> nat" where
  "as_usize x = nat (x mod 2 ^ 64)"

definition service_id :: "int \<Rightarrow> nat" where
  "service_id port = as_usize (sgn port * (\<bar>port\<bar> mod int MAX_SERVICE_NUM))"

text \<open>
  The commands with the arguments they copy from user space; \<open>CmdConnect\<close> has the bytes at the address of the
  host name, its length, the port and the identifier.
\<close>

datatype lib_r_cmd =
    CmdNil
  | CmdConnect "nat \<Rightarrow> u8" int int int
  | CmdPush "core_req list" u32 u8
  | CmdPushRecv int
  | CmdPop u32
  | CmdPopMsgs u32 u32
  | CmdBinds int
  | CmdUnBinds int
  | CmdUnknown

definition addr_buf :: "(nat \<Rightarrow> u8) \<Rightarrow> int \<Rightarrow> block" where
  "addr_buf mem sz = (let n = min ADDR_SZ (as_usize sz) in map mem [0..<n] @ replicate (ADDR_SZ - n) 0)"

definition unbind :: "'d driver \<Rightarrow> vq \<Rightarrow> 'd kern \<Rightarrow> nat \<Rightarrow> (reply_status \<times> vq \<times> 'd kern) option" where
  "unbind drv q k port =
     (if q_bind_port q \<noteq> Some port then Some (st_not_bind, q, k)
      else do {
        (_, _, k) \<leftarrow> pop_recv drv k (port * 2) 2048 0;
        Some (st_ok, q\<lparr>q_bind_port := None\<rparr>, k)
      })"

definition bind_q :: "vq \<Rightarrow> nat \<Rightarrow> reply_status \<times> vq" where
  "bind_q q port =
     (if q_bind_port q \<noteq> None then (st_already_bind, q)
      else if port > MAX_SERVICE_NUM then (st_nil, q)
      else (st_ok, q\<lparr>q_bind_port := Some port\<rparr>))"

text \<open>A reply with no completions.\<close>

abbreviation plain_reply :: "(reply_status \<times> vq \<times> 'd kern) option \<Rightarrow>
    (int \<times> (reply_status \<times> (user_wc list \<times> u32) option) option \<times> vq \<times> 'd kern) option" where
  "plain_reply r \<equiv> map_option (\<lambda>(st, q, k). (0, Some (st, None), q, k)) r"

abbreviation pop_reply :: "vq \<Rightarrow> (reply_status \<times> (user_wc list \<times> u32) option \<times> 'd kern) option \<Rightarrow>
    (int \<times> (reply_status \<times> (user_wc list \<times> u32) option) option \<times> vq \<times> 'd kern) option" where
  "pop_reply q r \<equiv> map_option (\<lambda>(st, out, k). (0, Some (st, out), q, k)) r"

text \<open>The return value of the call and the reply, if one is written to the caller; only \<^verbatim>\<open>Connect\<close> may return without one.\<close>

definition connect_cmd :: "features \<Rightarrow> 'd driver \<Rightarrow> vq \<Rightarrow> 'd kern \<Rightarrow> (nat \<Rightarrow> u8) \<Rightarrow> int \<Rightarrow> int \<Rightarrow> int \<Rightarrow>
    (int \<times> (reply_status \<times> (user_wc list \<times> u32) option) option \<times> vq \<times> 'd kern) option" where
  "connect_cmd ft drv q k mem sz port vid =
     (if q_virtual_queue q \<noteq> None then Some (status_value st_already_connected, None, q, k)
      else if \<not> utf8_ok (addr_buf mem sz) then None
      else plain_reply (connect_impl ft drv q k (addr_buf mem sz) (service_id port) (as_usize vid)))"

definition ioctrl :: "features \<Rightarrow> 'd driver \<Rightarrow> vq \<Rightarrow> 'd kern \<Rightarrow> lib_r_cmd \<Rightarrow>
    (int \<times> (reply_status \<times> (user_wc list \<times> u32) option) option \<times> vq \<times> 'd kern) option" where
  "ioctrl ft drv q k cmd = (case cmd of
     CmdNil \<Rightarrow> plain_reply (Some (st_ok, q, k))
   | CmdConnect mem sz port vid \<Rightarrow> connect_cmd ft drv q k mem sz port vid
   | CmdPush reqs push_recv_cnt pop_res \<Rightarrow> plain_reply (push_impl drv q k reqs (pop_res \<noteq> 0) (unat push_recv_cnt))
   | CmdPushRecv push_cnt \<Rightarrow> plain_reply (map_option (\<lambda>(st, k). (st, q, k)) (push_recv_impl drv q k (as_usize push_cnt)))
   | CmdPop vid \<Rightarrow> pop_reply q (pop_impl ft drv q k (unat vid))
   | CmdPopMsgs least payload_sz \<Rightarrow> pop_reply q (pop_msg_impl drv q k least payload_sz)
   | CmdBinds port \<Rightarrow> (case bind_q q (as_usize port) of (st, q) \<Rightarrow> plain_reply (Some (st, q, k)))
   | CmdUnBinds port \<Rightarrow> plain_reply (unbind drv q k (as_usize port))
   | CmdUnknown \<Rightarrow> plain_reply (Some (st_err, q, k)))"

text \<open>The wrapper of the user library: the status is \<^verbatim>\<open>err\<close> unless the call writes a reply.\<close>

definition qconnect :: "features \<Rightarrow> 'd driver \<Rightarrow> vq \<Rightarrow> 'd kern \<Rightarrow> (nat \<Rightarrow> u8) \<Rightarrow> int \<Rightarrow> int \<Rightarrow> int \<Rightarrow> (int \<times> vq \<times> 'd kern) option" where
  "qconnect ft drv q k mem sz port vid = do {
     (ret, reply, q, k) \<leftarrow> ioctrl ft drv q k (CmdConnect mem sz port vid);
     Some (if ret = - 1 then - 1 else status_value (case reply of None \<Rightarrow> st_err | Some (st, _) \<Rightarrow> st), q, k)
   }"

end
