(* ===== verification/KrVqProps.thy ===== *)
theory KrVqProps
  imports KrVq
begin

text \<open>
  Properties of the virtual queue: what its system calls post to the device and report to the caller, and
  where they fail.
\<close>

unbundle bit_operations_syntax

section \<open>What is posted for a request\<close>

text \<open>A request whose addresses do not overflow and whose type exists.\<close>

definition req_ok :: "u64 \<Rightarrow> u64 \<Rightarrow> core_req \<Rightarrow> bool" where
  "req_ok local_pa remote_pa req \<longleftrightarrow> unat local_pa + unat (cr_addr req) < 2 ^ 64 \<and> unat (cr_remote_addr req) + unat remote_pa < 2 ^ 64 \<and>
     cr_type req < 5"

text \<open>
  The work request it stands for: short writes are sent inline from the virtual address, all others from the
  physical one; the offsets of the request are added to the two regions.
\<close>

definition inline_req :: "core_req \<Rightarrow> bool" where
  "inline_req req \<longleftrightarrow> cr_length req < 64 \<and> cr_type req \<in> {1, 4}"

definition wr_of :: "(u64 \<Rightarrow> u64) \<Rightarrow> temp_mr \<Rightarrow> u32 \<Rightarrow> wr_target \<Rightarrow> core_req \<Rightarrow> send_wr" where
  "wr_of pa_to_va mr imm tgt req = \<lparr>
     sw_opcode = [IB_WR_RDMA_READ, IB_WR_RDMA_WRITE, IB_WR_SEND, IB_WR_SEND_WITH_IMM, IB_WR_RDMA_WRITE_WITH_IMM] ! unat (cr_type req),
     sw_addr = (if inline_req req then pa_to_va (mr_addr mr + cr_addr req) else mr_addr mr + cr_addr req),
     sw_length = cr_length req, sw_lkey = mr_rkey mr,
     sw_flags = (if inline_req req then IB_SEND_INLINE else 0) OR (if cr_send_flags req = 0 then 0 else IB_SEND_SIGNALED),
     sw_imm = imm, sw_target = tgt\<rparr>"

text \<open>Posting a list of work requests up to the first that is refused.\<close>

fun post_all :: "(send_wr \<Rightarrow> 'd \<Rightarrow> int \<times> 'd) \<Rightarrow> send_wr list \<Rightarrow> 'd \<Rightarrow> reply_status \<times> 'd" where
  "post_all post [] d = (st_ok, d)"
| "post_all post (w # ws) d = (case post w d of (err, d) \<Rightarrow> if err \<noteq> 0 then (st_err, d) else post_all post ws d)"

lemma post_all_status: "fst (post_all post ws d) = st_ok \<or> fst (post_all post ws d) = st_err"
  by (induction ws arbitrary: d) (auto split: prod.splits)

lemma cr_type_cases:
  fixes t :: u32
  assumes "t < 5"
  shows "t = 0 \<or> t = 1 \<or> t = 2 \<or> t = 3 \<or> t = 4"
proof -
  have "unat t < 5" using assms by (simp add: word_less_nat_alt)
  then have "unat t \<in> {0, 1, 2, 3, 4}" by auto
  then show ?thesis by (auto simp: word_unat_eq_iff)
qed

lemma send_params_ok:
  assumes "req_ok (mr_addr mr) remote_pa req" and w: "w = wr_of pa_to_va mr imm tgt req"
  shows "send_params pa_to_va (mr_addr mr) remote_pa req = Some (sw_opcode w, sw_addr w, cr_remote_addr req + remote_pa, sw_flags w)"
proof -
  from assms(1) have t: "cr_type req = 0 \<or> cr_type req = 1 \<or> cr_type req = 2 \<or> cr_type req = 3 \<or> cr_type req = 4"
    and a: "add_u64 (mr_addr mr) (cr_addr req) = Some (mr_addr mr + cr_addr req)"
      "add_u64 (cr_remote_addr req) remote_pa = Some (cr_remote_addr req + remote_pa)"
    by (auto simp: req_ok_def add_u64_def dest: cr_type_cases)
  from t show ?thesis
    by (elim disjE) (simp_all add: send_params_def a op_code_table_def w wr_of_def inline_req_def send_consts)
qed

lemma send_params_bad: "\<not> req_ok local_pa remote_pa req \<Longrightarrow> send_params pa_to_va local_pa remote_pa req = None"
proof -
  assume bad: "\<not> req_ok local_pa remote_pa req"
  have "op_code_table t = None" if "\<not> t < 5" for t
    using that by (auto simp: op_code_table_def)
  then show ?thesis using bad
    by (cases "add_u64 local_pa (cr_addr req)"; cases "add_u64 (cr_remote_addr req) remote_pa")
      (auto simp: send_params_def req_ok_def add_u64_def split: if_splits)
qed


section \<open>Pushing request by request\<close>

text \<open>
  The contract of a loop that posts one work request per request: it panics at the first request that is
  not sound, and stops at the first that the device refuses.
\<close>

locale push_method =
  fixes push :: "core_req list \<Rightarrow> 'd \<Rightarrow> (reply_status \<times> 'd) option"
    and post :: "send_wr \<Rightarrow> 'd \<Rightarrow> int \<times> 'd"
    and wr :: "core_req \<Rightarrow> send_wr"
    and sound :: "core_req \<Rightarrow> bool"
  assumes push_Nil: "push [] d = Some (st_ok, d)"
    and push_sound: "sound r \<Longrightarrow> push (r # rs) d = (case post (wr r) d of (err, d) \<Rightarrow> if err \<noteq> 0 then Some (st_err, d) else push rs d)"
    and push_unsound: "\<not> sound r \<Longrightarrow> push (r # rs) d = None"
begin

lemma push_post_all: "\<forall>r \<in> set rs. sound r \<Longrightarrow> push rs d = Some (post_all post (map wr rs) d)"
  by (induction rs arbitrary: d) (simp_all add: push_Nil push_sound split: prod.split)

lemma push_append:
  "push (xs @ ys) d = Option.bind (push xs d) (\<lambda>(st, d). if st = st_err then Some (st, d) else push ys d)"
proof (induction xs arbitrary: d)
  case (Cons x xs)
  then show ?case by (cases "sound x") (simp_all add: push_sound push_unsound split: prod.split)
qed (simp add: push_Nil)

lemma push_stops:
  assumes "\<forall>r \<in> set rs. sound r" "\<not> sound bad"
  shows "push (rs @ bad # rest) d = (case post_all post (map wr rs) d of (st, d) \<Rightarrow> if st = st_err then Some (st, d) else None)"
  using push_post_all [OF assms(1)] assms(2) by (simp add: push_append push_unsound split: prod.splits)

text \<open>Splitting the requests into batches makes no difference.\<close>

lemma push_loop_one_pass:
  assumes b: "\<And>k xs. push_batch drv pop q k xs = map_option (\<lambda>(st, d). (st, q, k\<lparr>k_dev := d\<rparr>)) (push xs (k_dev k))"
  shows "push_loop drv pop ret q k rs =
    (if rs = [] then Some (ret, q, k) else map_option (\<lambda>(st, d). (st, q, k\<lparr>k_dev := d\<rparr>)) (push rs (k_dev k)))"
proof (induction rs arbitrary: ret k rule: length_induct)
  case (1 rs)
  let ?n = "DEFAULT_BATCH_SZ"
  show ?case
  proof (cases "rs = [] \<or> push (take ?n rs) (k_dev k) = None")
    case True
    then show ?thesis using push_append [of "take ?n rs" "drop ?n rs" "k_dev k"] by (subst push_loop.simps) (auto simp: b)
  next
    case False
    then obtain st d where p: "push (take ?n rs) (k_dev k) = Some (st, d)" "rs \<noteq> []" by auto
    have IH: "push_loop drv pop st q (k\<lparr>k_dev := d\<rparr>) (drop ?n rs) =
        (if drop ?n rs = [] then Some (st, q, k\<lparr>k_dev := d\<rparr>)
         else map_option (\<lambda>(st, d). (st, q, k\<lparr>k_dev := d\<rparr>)) (push (drop ?n rs) d))"
      using 1 p(2) by (auto simp: DEFAULT_BATCH_SZ_def)
    show ?thesis
    proof (cases "drop ?n rs = []")
      case True
      then show ?thesis using p IH by (subst push_loop.simps) (simp add: b)
    next
      case False
      then show ?thesis using p IH push_append [of "take ?n rs" "drop ?n rs" "k_dev k"] by (subst push_loop.simps) (simp add: b)
    qed
  qed
qed

end

interpretation rc_push: push_method "rc_push_loop drv rc mr remote" "dr_post_send drv (rc_qp rc)"
    "\<lambda>r. wr_of (dr_pa_to_va drv) mr (cr_vid r) (RdmaTo (cr_remote_addr r + mr_addr remote) (mr_rkey remote)) r" "req_ok (mr_addr mr) (mr_addr remote)"
  for drv rc mr remote
proof
  fix r :: core_req and rs and d :: 'a
  let ?w = "wr_of (dr_pa_to_va drv) mr (cr_vid r) (RdmaTo (cr_remote_addr r + mr_addr remote) (mr_rkey remote)) r"
  assume "req_ok (mr_addr mr) (mr_addr remote) r"
  note p = send_params_ok [OF this refl, of "dr_pa_to_va drv" "cr_vid r" "RdmaTo (cr_remote_addr r + mr_addr remote) (mr_rkey remote)"]
  have "rc_wr (sw_opcode ?w) (sw_addr ?w) (mr_rkey mr) (cr_length r) (cr_remote_addr r + mr_addr remote) (mr_rkey remote) (cr_vid r) (sw_flags ?w) = ?w"
    by (simp add: rc_wr_def wr_of_def)
  then show "rc_push_loop drv rc mr remote (r # rs) d = (case dr_post_send drv (rc_qp rc) ?w d of
      (err, d) \<Rightarrow> if err \<noteq> 0 then Some (st_err, d) else rc_push_loop drv rc mr remote rs d)"
    by (simp add: p)
qed (simp_all add: send_params_bad)

interpretation dc_push: push_method "dc_push_loop drv dc mr point" "dr_post_send drv dc"
    "\<lambda>r. wr_of (dr_pa_to_va drv) mr 0 (DcTo (cr_remote_addr r + mr_addr (ep_mr point)) (mr_rkey (ep_mr point)) (ep_ah point) 73 (ep_dct_num point)) r"
    "req_ok (mr_addr mr) (mr_addr (ep_mr point))"
  for drv dc mr point
proof
  fix r :: core_req and rs and d :: 'a
  let ?t = "DcTo (cr_remote_addr r + mr_addr (ep_mr point)) (mr_rkey (ep_mr point)) (ep_ah point) 73 (ep_dct_num point)"
  let ?w = "wr_of (dr_pa_to_va drv) mr 0 ?t r"
  assume "req_ok (mr_addr mr) (mr_addr (ep_mr point)) r"
  note p = send_params_ok [OF this refl, of "dr_pa_to_va drv" 0 ?t]
  have "dc_wr (sw_opcode ?w) (sw_addr ?w) (mr_rkey mr) (cr_length r) (cr_remote_addr r + mr_addr (ep_mr point)) (mr_rkey (ep_mr point)) point (sw_flags ?w) = ?w"
    by (simp add: dc_wr_def wr_of_def)
  then show "dc_push_loop drv dc mr point (r # rs) d = (case dr_post_send drv dc ?w d of
      (err, d) \<Rightarrow> if err \<noteq> 0 then Some (st_err, d) else dc_push_loop drv dc mr point rs d)"
    by (simp add: p)
qed (simp_all add: send_params_bad)


section \<open>Push\<close>

text \<open>Where a client's requests go: queue pair, base of the remote region, immediate data and target.\<close>

definition push_target :: "vq \<Rightarrow> (nat \<times> u64 \<times> (core_req \<Rightarrow> u32) \<times> (core_req \<Rightarrow> wr_target)) option" where
  "push_target q = (case q_virtual_queue q of
     Some rc \<Rightarrow> map_option (\<lambda>mr. (rc_qp rc, mr_addr mr, cr_vid, \<lambda>r. RdmaTo (cr_remote_addr r + mr_addr mr) (mr_rkey mr))) (rc_remote_mr rc)
   | None \<Rightarrow> (case (q_local_dc q, q_remote_endpoint q) of
       (Some dc, Some p) \<Rightarrow> Some (dc, mr_addr (ep_mr p), \<lambda>_. 0,
         \<lambda>r. DcTo (cr_remote_addr r + mr_addr (ep_mr p)) (mr_rkey (ep_mr p)) (ep_ah p) 73 (ep_dct_num p))
     | _ \<Rightarrow> None))"

lemma push_loop_target:
  fixes drv :: "'d driver"
  assumes q: "q_bind_port q = None" "q_local_mr q = Some mr" "push_target q = Some (qp, base, imm, tgt)"
  defines "wr \<equiv> \<lambda>r. wr_of (dr_pa_to_va drv) mr (imm r) (tgt r) r"
  shows "rs \<noteq> [] \<Longrightarrow> \<forall>r \<in> set rs. req_ok (mr_addr mr) base r \<Longrightarrow> push_loop drv pop ret q k rs =
      (case post_all (dr_post_send drv qp) (map wr rs) (k_dev k) of (st, d) \<Rightarrow> Some (st, q, k\<lparr>k_dev := d\<rparr>))"
    "\<forall>r \<in> set rs. req_ok (mr_addr mr) base r \<Longrightarrow> \<not> req_ok (mr_addr mr) base bad \<Longrightarrow> push_loop drv pop ret q k (rs @ bad # rest) =
      (case post_all (dr_post_send drv qp) (map wr rs) (k_dev k) of (st, d) \<Rightarrow> if st = st_err then Some (st, q, k\<lparr>k_dev := d\<rparr>) else None)"
proof -
  have "(rs \<noteq> [] \<longrightarrow> (\<forall>r \<in> set rs. req_ok (mr_addr mr) base r) \<longrightarrow> push_loop drv pop ret q k rs =
      (case post_all (dr_post_send drv qp) (map wr rs) (k_dev k) of (st, d) \<Rightarrow> Some (st, q, k\<lparr>k_dev := d\<rparr>))) \<and>
    ((\<forall>r \<in> set rs. req_ok (mr_addr mr) base r) \<longrightarrow> \<not> req_ok (mr_addr mr) base bad \<longrightarrow> push_loop drv pop ret q k (rs @ bad # rest) =
      (case post_all (dr_post_send drv qp) (map wr rs) (k_dev k) of (st, d) \<Rightarrow> if st = st_err then Some (st, q, k\<lparr>k_dev := d\<rparr>) else None))"
  proof (cases "q_virtual_queue q")
    case (Some rc)
    with q(3) obtain rm where rm: "rc_remote_mr rc = Some rm" "qp = rc_qp rc" "base = mr_addr rm" "imm = cr_vid"
      "tgt = (\<lambda>r. RdmaTo (cr_remote_addr r + mr_addr rm) (mr_rkey rm))" by (auto simp: push_target_def)
    have b: "push_batch drv pop q k xs = map_option (\<lambda>(st, d). (st, q, k\<lparr>k_dev := d\<rparr>)) (rc_push_loop drv rc mr rm xs (k_dev k))" for k xs
      using q(1,2) Some rm(1) by (cases "rc_push_loop drv rc mr rm xs (k_dev k)") (auto simp: push_batch_def rc_push_impl_def)
    show ?thesis unfolding rc_push.push_loop_one_pass [OF b] wr_def rm(2-)
      using rc_push.push_post_all [of rs mr rm drv rc "k_dev k"] rc_push.push_stops [of rs mr rm bad drv rc rest "k_dev k"]
      by (auto split: prod.splits)
  next
    case None
    with q(3) obtain p where p: "q_local_dc q = Some qp" "q_remote_endpoint q = Some p" "base = mr_addr (ep_mr p)" "imm = (\<lambda>_. 0)"
      "tgt = (\<lambda>r. DcTo (cr_remote_addr r + mr_addr (ep_mr p)) (mr_rkey (ep_mr p)) (ep_ah p) 73 (ep_dct_num p))"
      by (auto simp: push_target_def split: option.splits)
    have b: "push_batch drv pop q k xs = map_option (\<lambda>(st, d). (st, q, k\<lparr>k_dev := d\<rparr>)) (dc_push_loop drv qp mr p xs (k_dev k))" for k xs
      using q(1,2) None p(1,2) by (cases "dc_push_loop drv qp mr p xs (k_dev k)") (auto simp: push_batch_def dc_push_impl_def)
    show ?thesis unfolding dc_push.push_loop_one_pass [OF b] wr_def p(3-)
      using dc_push.push_post_all [of rs mr p drv qp "k_dev k"] dc_push.push_stops [of rs mr p bad drv qp rest "k_dev k"]
      by (auto split: prod.splits)
  qed
  then show "rs \<noteq> [] \<Longrightarrow> \<forall>r \<in> set rs. req_ok (mr_addr mr) base r \<Longrightarrow> push_loop drv pop ret q k rs =
      (case post_all (dr_post_send drv qp) (map wr rs) (k_dev k) of (st, d) \<Rightarrow> Some (st, q, k\<lparr>k_dev := d\<rparr>))"
    "\<forall>r \<in> set rs. req_ok (mr_addr mr) base r \<Longrightarrow> \<not> req_ok (mr_addr mr) base bad \<Longrightarrow> push_loop drv pop ret q k (rs @ bad # rest) =
      (case post_all (dr_post_send drv qp) (map wr rs) (k_dev k) of (st, d) \<Rightarrow> if st = st_err then Some (st, q, k\<lparr>k_dev := d\<rparr>) else None)" by blast+
qed

lemma push_calls_post:
  assumes "q_bind_port q = None" and "q_local_mr q = Some mr" and "push_target q = Some (qp, base, imm, tgt)"
    and "\<forall>r \<in> set reqs. req_ok (mr_addr mr) base r"
  shows "ioctrl ft drv q k (CmdPush reqs 0 0) =
    (case post_all (dr_post_send drv qp) (map (\<lambda>r. wr_of (dr_pa_to_va drv) mr (imm r) (tgt r) r) reqs) (k_dev k) of
       (st, d) \<Rightarrow> Some (0, Some (st, None), q, k\<lparr>k_dev := d\<rparr>))"
proof (cases "reqs = []")
  case True
  then show ?thesis by (simp add: ioctrl_def connect_cmd_def push_impl_def push_loop.simps)
next
  case False
  then show ?thesis using push_loop_target(1) [OF assms(1-3) False assms(4), where drv = drv and pop = False and ret = st_ok and k = k] assms(1)
    by (simp add: ioctrl_def connect_cmd_def push_impl_def split: prod.splits)
qed

text \<open>
  C2. A push posts the requests of the caller.  However many there are, each becomes one work request with the
  operation asked for, the offsets added to the local and the remote region, the keys of the regions and
  a completion exactly when one is asked for; they are posted in order over the reliable or the dynamic
  connection, up to the first that the device refuses, and the status tells whether all were
  accepted.  That an offset lies inside its region is not required.
\<close>

theorem push_posts_requests:
  assumes "q_bind_port q = None" and "q_local_mr q = Some mr" and "push_target q = Some (qp, base, imm, tgt)"
    and "\<forall>r \<in> set reqs. req_ok (mr_addr mr) base r"
  shows "ioctrl ft drv q k (CmdPush reqs 0 0) =
    (case post_all (dr_post_send drv qp) (map (\<lambda>r. wr_of (dr_pa_to_va drv) mr (imm r) (tgt r) r) reqs) (k_dev k) of
       (st, d) \<Rightarrow> Some (0, Some (st, None), q, k\<lparr>k_dev := d\<rparr>))"
  by (rule push_calls_post [OF assms])

text \<open>
  C23. One unsound request halts the kernel.  The offsets and the type of a request come from the caller
  unchecked.  The requests before the first unsound one are posted in order; when the device refuses one of them the
  call ends there, with the error, and otherwise the unsound one is reached: an
  addition overflows or the type is not in the table, and the call panics in kernel mode.
\<close>

theorem push_unsound_panics:
  assumes "q_bind_port q = None" and "q_local_mr q = Some mr" and "push_target q = Some (qp, base, imm, tgt)"
    and "\<forall>r \<in> set reqs. req_ok (mr_addr mr) base r" and "\<not> req_ok (mr_addr mr) base bad"
  shows "ioctrl ft drv q k (CmdPush (reqs @ bad # rest) 0 pop_res) =
    (case post_all (dr_post_send drv qp) (map (\<lambda>r. wr_of (dr_pa_to_va drv) mr (imm r) (tgt r) r) reqs) (k_dev k) of
       (st, d) \<Rightarrow> if st = st_ok then None else Some (0, Some (st, None), q, k\<lparr>k_dev := d\<rparr>))"
  using push_loop_target(2) [OF assms, where drv = drv and pop = "pop_res \<noteq> 0" and ret = st_ok and k = k and rest = rest] assms(1)
    post_all_status [of "dr_post_send drv qp" "map (\<lambda>r. wr_of (dr_pa_to_va drv) mr (imm r) (tgt r) r) reqs" "k_dev k"]
  by (auto simp: ioctrl_def connect_cmd_def push_impl_def split: prod.splits)


lemma wait_til_comp_never:
  assumes "\<And>d. fst (pop d) = None"
  shows "wait_til_comp pop d = None"
proof (rule ccontr)
  assume "wait_til_comp pop d \<noteq> None"
  then obtain y where "wait_til_comp pop d = Some y" by blast
  then have "pop \<noteq> pop"
  proof (rule wait_til_comp.raw_induct [where P = "\<lambda>p _ _. p \<noteq> pop", rotated])
    fix w :: "('a \<Rightarrow> ib_wc option \<times> 'a) \<Rightarrow> 'a \<Rightarrow> (ib_wc \<times> 'a) option" and p d y
    assume IH: "\<And>p d y. w p d = Some y \<Longrightarrow> p \<noteq> pop"
      and w: "(case p d of (Some wc, d) \<Rightarrow> Some (wc, d) | (None, d) \<Rightarrow> w p d) = Some y"
    show "p \<noteq> pop"
      using IH [of p "snd (p d)" y] w assms [of d] by (cases "p d") (auto split: option.splits)
  qed
  then show False by simp
qed

text \<open>
  C24. A push that is to await its completion waits for the wrong queue over a dynamic connection.  The requests
  go to the dynamic queue pair, but the completion is awaited on the datagram queue pair: when nothing
  else uses that one, the call never returns, although all requests were accepted.
\<close>

theorem push_awaits_wrong_queue:
  assumes "q_bind_port q = None" and "q_local_mr q = Some mr" and "push_target q = Some (qp, base, imm, tgt)"
    and "\<forall>r \<in> set reqs. req_ok (mr_addr mr) base r"
    and "post_all (dr_post_send drv qp) (map (\<lambda>r. wr_of (dr_pa_to_va drv) mr (imm r) (tgt r) r) reqs) (k_dev k) = (st_ok, d)"
    and "q_virtual_queue q = None" and "q_local_ud q = Some ud" and "\<And>d. fst (dr_poll_send drv (ud_qp ud) d) = None"
  shows "ioctrl ft drv q k (CmdPush reqs 0 1) = None"
proof -
  have "push_loop drv True st_ok q k reqs = Some (st_ok, q, k\<lparr>k_dev := d\<rparr>)"
  proof (cases "reqs = []")
    case True
    then show ?thesis using assms(5) by (simp add: push_loop.simps)
  next
    case False
    then show ?thesis using push_loop_target(1) [OF assms(1-3) False assms(4), where drv = drv and pop = True and ret = st_ok and k = k] assms(5)
      by simp
  qed
  then show ?thesis using assms(1,6-8) by (simp add: ioctrl_def connect_cmd_def push_impl_def wait_til_comp_never)
qed

section \<open>Connect\<close>

lemma explore_fresh:
  assumes "q_path_cache q host = None" "get_global_rctrl k port = Some ci" "dr_resolve drv ci port host (k_dev k) = (Some path, d)"
  shows "explore_path drv q k port host = Some (Some path, q\<lparr>q_path_cache := (q_path_cache q)(host \<mapsto> path)\<rparr>, k\<lparr>k_dev := d\<rparr>)"
  using assms by (simp add: explore_path_def)

text \<open>
  C25. Connecting succeeds without a connection.  When no queue pair can be created, the call still reports
  success; the queue stays without a connection, and the first push after it panics, because there is no
  remote endpoint either.
\<close>

theorem connect_without_queue:
  assumes "\<not> ft_dct_qp ft" and "utf8_ok (addr_buf mem sz)" and "dr_parse_gid drv (addr_buf mem sz) = Some g"
    and "get_global_rctrl k (service_id port) = Some ci" and "ct_dc (k_rctrl k ! ci) = Some dc"
    and "dr_resolve drv ci (service_id port) (addr_buf mem sz) (k_dev k) = (Some path, d1)" and "dr_new_rc drv ci d1 = (None, d2)"
    and "reqs \<noteq> []"
  shows "\<exists>q' k'. qconnect ft drv (vq_open mr) k mem sz port vid = Some (status_value st_ok, q', k') \<and> q_virtual_queue q' = None \<and>
    ioctrl ft drv q' k' (CmdPush reqs 0 pop_res) = None"
proof -
  define q where "q = (vq_open mr)\<lparr>q_local_mr := Some \<lparr>mr_addr = mr_addr (get_self_test_mr (k_rctrl k ! ci)), mr_capacity = of_nat MAX_KMALLOC_SZ,
      mr_rkey = cx_lkey (ct_context (k_rctrl k ! ci))\<rparr>, q_connect_port := Some (service_id port), q_local_dc := Some dc,
      q_local_ud := get_ud (k_rctrl k ! ci) DEFAULT_RPC_HINT\<rparr>"
  define q' where "q' = q\<lparr>q_path_cache := [addr_buf mem sz \<mapsto> path]\<rparr>"
  have x: "explore_path drv q k (service_id port) (addr_buf mem sz) = Some (Some path, q', k\<lparr>k_dev := d1\<rparr>)"
    using explore_fresh [of q "addr_buf mem sz" k "service_id port" ci drv path d1] assms(4,6) by (simp add: q_def q'_def vq_open_def)
  have g: "get_global_rctrl (k\<lparr>k_dev := d1\<rparr>) (service_id port) = Some ci" using assms(4) by (simp add: get_global_rctrl_def split: if_splits)
  have v: "q_virtual_queue q' = None" "q_bind_port q' = None" "q_local_dc q' = Some dc" "q_remote_endpoint q' = None"
    by (simp_all add: q'_def q_def vq_open_def)
  have "connect_rc ft drv q k (addr_buf mem sz) (service_id port) (as_usize vid) = Some (st_ok, q', k\<lparr>k_dev := d2\<rparr>)"
    using x g assms(7) v(1) by (simp add: connect_rc_def qp_connect_def)
  then have "connect_impl ft drv (vq_open mr) k (addr_buf mem sz) (service_id port) (as_usize vid) = Some (st_ok, q', k\<lparr>k_dev := d2\<rparr>)"
    using assms(1,3-5) by (simp add: connect_impl_def q_def vq_open_def)
  then have "qconnect ft drv (vq_open mr) k mem sz port vid = Some (status_value st_ok, q', k\<lparr>k_dev := d2\<rparr>)"
    using assms(2) by (simp add: qconnect_def ioctrl_def connect_cmd_def vq_open_def)
  moreover have "ioctrl ft drv q' (k\<lparr>k_dev := d2\<rparr>) (CmdPush reqs 0 pop_res) = None"
    using v assms(8) by (simp add: ioctrl_def connect_cmd_def push_impl_def push_loop.simps push_batch_def dc_push_impl_def split: Option.bind_split)
  ultimately show ?thesis using v(1) by blast
qed


text \<open>A driver on which every host has a path and a target, whatever its state.\<close>

definition network_answers :: "'d driver \<Rightarrow> nat \<Rightarrow> nat \<Rightarrow> (block \<Rightarrow> end_point) \<Rightarrow> bool" where
  "network_answers drv ci port target \<longleftrightarrow> (\<forall>host d. \<exists>path d1. dr_resolve drv ci port host d = (Some path, d1) \<and>
     (\<forall>d. \<exists>d2. dr_sidr_connect drv path port d = (Some (Inr (target host)), d2)))"

text \<open>The endpoint a target becomes in the virtual queue.\<close>

definition remote_point :: "'d driver \<Rightarrow> end_point \<Rightarrow> end_point" where
  "remote_point drv p = end_point_new (dr_create_ah drv) (ep_qpn p) (ep_qkey p) (ep_lid p) (ep_gid p) (ep_dct_num p) (ep_mr p)"

text \<open>Paths in the cache lead to the right targets.\<close>

definition paths_ok :: "'d driver \<Rightarrow> nat \<Rightarrow> (block \<Rightarrow> end_point) \<Rightarrow> vq \<Rightarrow> bool" where
  "paths_ok drv port target q \<longleftrightarrow> (\<forall>host path. q_path_cache q host = Some path \<longrightarrow>
     (\<forall>d. \<exists>d2. dr_sidr_connect drv path port d = (Some (Inr (target host)), d2)))"

lemma connect_step:
  assumes ft: "ft_dct_qp ft" "ft_meta_cache ft" "\<not> ft_meta_kv ft" "\<not> ft_migrate_qp ft"
    and net: "network_answers drv ci (service_id port) target" "get_global_rctrl k (service_id port) = Some ci"
    and host: "utf8_ok (addr_buf mem sz)" "dr_parse_gid drv (addr_buf mem sz) \<noteq> None"
    and q: "q_virtual_queue q = None" "paths_ok drv (service_id port) target q"
  shows "\<exists>q' k'. qconnect ft drv q k mem sz port vid = Some (status_value st_ok, q', k') \<and> q_virtual_queue q' = None \<and>
    paths_ok drv (service_id port) target q' \<and> get_global_rctrl k' (service_id port) = Some ci \<and>
    dom (q_dct_cache q') = insert (addr_buf mem sz, service_id port) (dom (q_dct_cache q)) \<and>
    q_remote_endpoint q' = (if (addr_buf mem sz, service_id port) \<in> dom (q_dct_cache q) then q_remote_endpoint q
      else Some (remote_point drv (target (addr_buf mem sz))))"
proof -
  define host sid where "host = addr_buf mem sz" and "sid = service_id port"
  define q1 where "q1 = (let q = q\<lparr>q_local_mr := Some \<lparr>mr_addr = mr_addr (get_self_test_mr (k_rctrl k ! ci)), mr_capacity = of_nat MAX_KMALLOC_SZ,
      mr_rkey = cx_lkey (ct_context (k_rctrl k ! ci))\<rparr>, q_connect_port := Some sid\<rparr> in
    if q_local_dc q = None then q\<lparr>q_local_dc := ct_dc (k_rctrl k ! ci), q_local_ud := get_ud (k_rctrl k ! ci) DEFAULT_RPC_HINT\<rparr> else q)"
  have q1: "q_virtual_queue q1 = None" "q_path_cache q1 = q_path_cache q" "q_dct_cache q1 = q_dct_cache q" "q_remote_endpoint q1 = q_remote_endpoint q"
    using q(1) by (simp_all add: q1_def Let_def)
  have c: "qconnect ft drv q k mem sz port vid = map_option (\<lambda>(st, q, k). (status_value st, q, k)) (connect_dct ft drv q1 k host sid (as_usize vid))"
    using ft(1) host q(1) net(2)
    by (cases "connect_dct ft drv q1 k host sid (as_usize vid)")
      (auto simp: qconnect_def ioctrl_def connect_cmd_def connect_impl_def Let_def q1_def host_def sid_def status_value_def split: reply_status.split)
  show ?thesis
  proof (cases "q_dct_cache q (host, sid)")
    case (Some m)
    then have "connect_dct ft drv q1 k host sid (as_usize vid) = Some (st_ok, q1, k)" using q1(3) by (simp add: connect_dct_def)
    then show ?thesis using c q1 q(2) net(2) Some by (auto simp: paths_ok_def host_def sid_def)
  next
    case None
    obtain path q2 d1 where x: "explore_path drv q1 k sid host = Some (Some path, q2, k\<lparr>k_dev := d1\<rparr>)" "paths_ok drv sid target q2"
      "\<forall>d. \<exists>d2. dr_sidr_connect drv path sid d = (Some (Inr (target host)), d2)" "q_dct_cache q2 = q_dct_cache q" "q_virtual_queue q2 = None"
    proof (cases "q_path_cache q host")
      case (Some path)
      then show ?thesis using that [of path q1 "k_dev k"] q1 q(2) by (auto simp: explore_path_def paths_ok_def sid_def)
    next
      case None
      obtain path d1 where r: "dr_resolve drv ci sid host (k_dev k) = (Some path, d1)"
        "\<forall>d. \<exists>d2. dr_sidr_connect drv path sid d = (Some (Inr (target host)), d2)"
        using net(1) by (metis network_answers_def sid_def)
      then show ?thesis using that [of path "q1\<lparr>q_path_cache := (q_path_cache q1)(host \<mapsto> path)\<rparr>" d1] q1 q(2) None net(2)
        by (auto simp: explore_path_def paths_ok_def sid_def)
    qed
    obtain d2 where s: "dr_sidr_connect drv path sid d1 = (Some (Inr (target host)), d2)" using x(3) by blast
    then have "connect_dct ft drv q1 k host sid (as_usize vid) = Some (st_ok, use_target ft drv q2 (host, sid) (target host), k\<lparr>k_dev := d2\<rparr>)"
      using None q1(3) ft x(1) by (simp add: connect_dct_def find_target_def)
    then show ?thesis using c None ft(2) x(2,4,5) net(2)
      by (auto simp: use_target_def Let_def paths_ok_def remote_point_def host_def sid_def get_global_rctrl_def split: if_splits)
  qed
qed

text \<open>
  C22. Going back to a host does not go back to it.  With dynamic connections a virtual queue may be connected
  again; the target of a host it has been connected to before is found in the cache, and then the
  endpoint is left as it is.  After connecting to one host, to another, and to the first again, all
  calls having succeeded, requests are still sent to the second.
\<close>

theorem reconnect_keeps_endpoint:
  assumes "ft_dct_qp ft" and "ft_meta_cache ft" and "\<not> ft_meta_kv ft" and "\<not> ft_migrate_qp ft"
    and "network_answers drv ci (service_id port) target" and "get_global_rctrl k (service_id port) = Some ci"
    and "utf8_ok (addr_buf memA szA)" and "dr_parse_gid drv (addr_buf memA szA) \<noteq> None"
    and "utf8_ok (addr_buf memB szB)" and "dr_parse_gid drv (addr_buf memB szB) \<noteq> None" and "addr_buf memA szA \<noteq> addr_buf memB szB"
  shows "\<exists>qa ka qb kb q' k'. qconnect ft drv (vq_open mr) k memA szA port vid = Some (status_value st_ok, qa, ka) \<and>
    qconnect ft drv qa ka memB szB port vid = Some (status_value st_ok, qb, kb) \<and>
    qconnect ft drv qb kb memA szA port vid = Some (status_value st_ok, q', k') \<and>
    q_remote_endpoint qa = Some (remote_point drv (target (addr_buf memA szA))) \<and>
    q_remote_endpoint q' = Some (remote_point drv (target (addr_buf memB szB)))"
proof -
  note step = connect_step [OF assms(1-5)]
  have o: "q_virtual_queue (vq_open mr) = None" "paths_ok drv (service_id port) target (vq_open mr)" "dom (q_dct_cache (vq_open mr)) = {}"
    by (simp_all add: vq_open_def paths_ok_def)
  obtain qa ka where a: "qconnect ft drv (vq_open mr) k memA szA port vid = Some (status_value st_ok, qa, ka)" "q_virtual_queue qa = None"
      "paths_ok drv (service_id port) target qa" "get_global_rctrl ka (service_id port) = Some ci"
      "dom (q_dct_cache qa) = {(addr_buf memA szA, service_id port)}" "q_remote_endpoint qa = Some (remote_point drv (target (addr_buf memA szA)))"
    using step [OF assms(6-8) o(1,2), of vid] o(3) by auto
  obtain qb kb where b: "qconnect ft drv qa ka memB szB port vid = Some (status_value st_ok, qb, kb)" "q_virtual_queue qb = None"
      "paths_ok drv (service_id port) target qb" "get_global_rctrl kb (service_id port) = Some ci"
      "dom (q_dct_cache qb) = {(addr_buf memB szB, service_id port), (addr_buf memA szA, service_id port)}"
      "q_remote_endpoint qb = Some (remote_point drv (target (addr_buf memB szB)))"
    using step [OF a(4) assms(9,10) a(2,3), of vid] a(5) assms(11) by auto
  show ?thesis using step [OF b(4) assms(7,8) b(2,3), of vid] a(1,6) b(1,5,6) by auto
qed

section \<open>Bound ports\<close>

lemma services_layout:
  assumes "0 < n"
  shows "concat (map (\<lambda>i. map (\<lambda>j. (i, j)) [0..<n]) [0..<m]) = map (\<lambda>x. (x div n, x mod n)) [0..<m * n]"
proof (induction m)
  case (Suc m)
  have "[0..<Suc m * n] = [0..<m * n] @ map (\<lambda>j. m * n + j) [0..<n]"
    using upt_add_eq_append [of 0 "m * n" n] by (simp add: map_add_upt add.commute)
  then show ?case using Suc assms by (simp add: comp_def)
qed simp

lemma rctrl_services_nth:
  assumes "0 < nics"
  shows "length (rctrl_services nics) = 25 * nics" "i < 25 * nics \<Longrightarrow> rctrl_services nics ! i = (i div nics, i mod nics)"
  using services_layout [OF assms, of 25] by (simp_all add: rctrl_services_def MAX_SERVICE_NUM_def)

text \<open>
  C21. Binding finds the right service with two network cards only.  A server that binds a port is to be
  reached at the control block of that service on the first card; the index is computed as twice the
  port, which is right for every port exactly when there are two cards.  With two, the port one past
  the last is accepted too, and shares the control block of port 0.
\<close>

theorem bind_port_service:
  assumes "0 < nics" and "length (k_rctrl k) = length (rctrl_services nics)"
  shows "((\<forall>port < MAX_SERVICE_NUM. map_option (\<lambda>i. rctrl_services nics ! i) (get_bind_ctrl k port) = Some (port, 0)) \<longleftrightarrow> nics = 2) \<and>
    (nics = 2 \<longrightarrow> q_bind_port q = None \<longrightarrow> bind_q q MAX_SERVICE_NUM = (st_ok, q\<lparr>q_bind_port := Some MAX_SERVICE_NUM\<rparr>) \<and>
      get_bind_ctrl k MAX_SERVICE_NUM = get_bind_ctrl k 0)"
proof -
  have ne: "k_rctrl k \<noteq> []" and len: "length (k_rctrl k) = 25 * nics" using assms rctrl_services_nth(1) [OF assms(1)] by auto
  then have g: "get_bind_ctrl k port = Some (port * 2 mod (25 * nics))" for port by (simp add: get_bind_ctrl_def get_global_rctrl_def)
  have s: "rctrl_services nics ! (port * 2 mod (25 * nics)) = (port * 2 mod (25 * nics) div nics, port * 2 mod (25 * nics) mod nics)" for port
    using rctrl_services_nth(2) [OF assms(1)] assms(1) by simp
  have "nics = 2" if "map_option (\<lambda>i. rctrl_services nics ! i) (get_bind_ctrl k 1) = Some (1, 0)"
  proof -
    have "2 div nics = 1" "2 mod nics = 0" using that assms(1) s [of 1] by (simp_all add: g)
    then show ?thesis using assms(1) by (cases "nics = 1") (auto simp: div_if split: if_splits)
  qed
  moreover have "map_option (\<lambda>i. rctrl_services nics ! i) (get_bind_ctrl k port) = Some (port, 0)" if "nics = 2" "port < 25" for port
    using that unfolding option.map(2) g s by simp
  moreover have "(1 :: nat) < MAX_SERVICE_NUM" by (simp add: MAX_SERVICE_NUM_def)
  ultimately have "(\<forall>port < MAX_SERVICE_NUM. map_option (\<lambda>i. rctrl_services nics ! i) (get_bind_ctrl k port) = Some (port, 0)) \<longleftrightarrow> nics = 2"
    by (metis MAX_SERVICE_NUM_def)
  then show ?thesis by (auto simp: bind_q_def g MAX_SERVICE_NUM_def)
qed


section \<open>Replies of a server\<close>

lemma bind_reap_idle:
  assumes "\<forall>v \<in> set vids. uds ! v = 0 \<and> rcs ! v = 0"
  shows "bind_reap drv pop rcs uds vids ct d = Some (st_ok, ct, d)"
  using assms by (induction vids) (simp_all add: reap_ud_def reap_rc_def)

lemma bind_push_counts:
  assumes "bind_push_loop drv ct mr reqs q d rcs uds = Some (st, q', d', rcs', uds')"
    and "\<forall>r \<in> set reqs. unat (cr_vid r) mod HOST_LEN \<noteq> v"
  shows "rcs' ! v = rcs ! v \<and> uds' ! v = uds ! v"
  using assms
  by (induction reqs arbitrary: q d rcs uds) (auto simp: Let_def split: option.splits Option.bind_splits if_splits)

text \<open>
  C26. Clients whose identifier is a multiple of twelve starve.  Their number is reduced to 0, the server warns and
  replies nevertheless, but the loop that posts new receive buffers and collects the completions starts
  at 1: after the replies, whatever their number, no buffer has been posted and no completion
  awaited.
\<close>

theorem bind_push_skips_client_0:
  assumes "q_bind_port q = Some port" and "get_bind_ctrl k port = Some ci" and "q_local_mr q = Some mr"
    and "\<forall>r \<in> set reqs. unat (cr_vid r) mod HOST_LEN = 0"
    and "bind_push_loop drv (k_rctrl k ! ci) mr reqs q (k_dev k) (replicate HOST_LEN 0) (replicate HOST_LEN 0) = Some (st_ok, q', d', rcs, uds)"
  shows "bind_server_push_impl drv q k reqs pop_at_once = Some (st_ok, q', k\<lparr>k_dev := d'\<rparr>)"
proof -
  have "rcs ! v = 0 \<and> uds ! v = 0" if "v \<in> set [1..<HOST_LEN]" for v
  proof -
    have "\<forall>r \<in> set reqs. unat (cr_vid r) mod HOST_LEN \<noteq> v" using that assms(4) by auto
    from bind_push_counts [OF assms(5) this] show ?thesis using that by (simp add: HOST_LEN_def)
  qed
  then have "bind_reap drv pop_at_once rcs uds [1..<HOST_LEN] (k_rctrl k ! ci) d' = Some (st_ok, k_rctrl k ! ci, d')"
    by (intro bind_reap_idle) auto
  moreover have "k\<lparr>k_rctrl := (k_rctrl k)[ci := k_rctrl k ! ci], k_dev := d'\<rparr> = k\<lparr>k_dev := d'\<rparr>" by simp
  ultimately show ?thesis using assms(1-3,5) by (simp add: bind_server_push_impl_def del: upt_Suc)
qed

section \<open>Received messages\<close>

text \<open>A poll that delivers the completions \<open>nxt d\<close> in state \<open>d\<close>, into the front of the array.\<close>

definition poll_delivers :: "('d \<Rightarrow> ib_wc list \<Rightarrow> (nat \<times> ib_wc list \<times> 'd) option) \<Rightarrow> ('d \<Rightarrow> ib_wc list) \<Rightarrow> ('d \<Rightarrow> 'd) \<Rightarrow> bool" where
  "poll_delivers poll nxt step \<longleftrightarrow> (\<forall>d arr. length arr = 2048 \<longrightarrow>
     length (nxt d) \<le> 2048 \<and> poll d arr = Some (length (nxt d), nxt d @ drop (length (nxt d)) arr, step d))"

text \<open>The messages of successive polls, until there are enough or the retries are used up.\<close>

fun gather :: "('d \<Rightarrow> ib_wc list) \<Rightarrow> ('d \<Rightarrow> 'd) \<Rightarrow> nat \<Rightarrow> nat \<Rightarrow> ib_wc list \<Rightarrow> 'd \<Rightarrow> ib_wc list \<times> 'd" where
  "gather nxt step least retries ws d =
     (if least \<le> length (ws @ nxt d) \<or> retries = 0 then (ws @ nxt d, step d)
      else gather nxt step least (retries - 1) (ws @ nxt d) (step d))"

declare gather.simps [simp del]

lemma gather_longer: "length ws \<le> length (fst (gather nxt step least retries ws d))"
proof (induction nxt step least retries ws d rule: gather.induct)
  case (1 nxt step least retries ws d)
  then show ?case by (subst gather.simps) (auto intro: order_trans [rotated])
qed

lemma gather_next: "length (ws @ nxt d) \<le> length (fst (gather nxt step least retries ws d))"
  using gather_longer [of "ws @ nxt d" nxt step least "retries - 1" "step d"] by (subst gather.simps) simp

text \<open>The payloads of messages that are moved behind themselves, to an address that must exist.\<close>

definition payload_ok :: "u32 \<Rightarrow> ib_wc \<Rightarrow> bool" where
  "payload_ok psz w \<longleftrightarrow> unat (wc_wr_id w) + unat psz < 2 ^ 64"

definition move_payloads :: "'d driver \<Rightarrow> u32 \<Rightarrow> ib_wc list \<Rightarrow> 'd \<Rightarrow> 'd" where
  "move_payloads drv psz ws d = fold (\<lambda>w d. dr_memcpy drv (wc_wr_id w + ucast psz) (wc_wr_id w) psz d) ws d"

lemma copy_wcs_all:
  "copy_wcs drv psz n wcs d = (if n \<le> length wcs \<and> (\<forall>w \<in> set (take n wcs). payload_ok psz w)
     then Some (map user_wc_of (take n wcs), move_payloads drv psz (take n wcs) d) else None)"
proof (induction n arbitrary: wcs d)
  case (Suc n)
  have "unat (ucast psz :: u64) = unat psz" using unsigned_less [of psz, where ?'a = nat] by (simp add: unsigned_ucast_eq take_bit_nat_eq_self_iff)
  then have "add_u64 (wc_wr_id w) (ucast psz) = (if payload_ok psz w then Some (wc_wr_id w + ucast psz) else None)" for w
    by (simp add: add_u64_def payload_ok_def)
  then show ?case using Suc by (cases wcs) (simp_all add: move_payloads_def)
qed (simp add: move_payloads_def)

lemma pop_recvs_delivers_next:
  assumes p: "poll_delivers poll nxt step" and W: "rh_wcs h \<noteq> []" and off: "off = act mod length (rh_wcs h)"
  shows "pop_recvs poll h d 2048 act = (if length (rh_wcs h) - off < length (nxt d) then None
    else Some (length (nxt d), h\<lparr>rh_wcs := take off (rh_wcs h) @ nxt d @ drop (off + length (nxt d)) (rh_wcs h)\<rparr>, step d))"
proof -
  define arr where "arr = take 2048 (drop off (rh_wcs h) @ replicate 2048 zero_wc)"
  have "length arr = 2048" by (simp add: arr_def min_def)
  then have n: "length (nxt d) \<le> 2048" and q: "poll d arr = Some (length (nxt d), nxt d @ drop (length (nxt d)) arr, step d)"
    using p by (auto simp: poll_delivers_def)
  have "drop (length (nxt d)) arr @ drop (off + 2048) (rh_wcs h) =
      drop (length (nxt d)) (take 2048 (drop off (rh_wcs h) @ replicate 2048 zero_wc) @ drop 2048 (drop off (rh_wcs h)))"
    using n by (simp add: arr_def add.commute)
  then have "take (length (rh_wcs h) - off) (nxt d @ drop (length (nxt d)) arr @ drop (off + 2048) (rh_wcs h)) =
      nxt d @ drop (off + length (nxt d)) (rh_wcs h)" if "length (nxt d) \<le> length (rh_wcs h) - off"
    using that n poll_tail [of "length (nxt d)" 2048 "drop off (rh_wcs h)" "replicate 2048 zero_wc"]
    by (simp add: drop_append add.commute)
  moreover have "rem_usize act (length (rh_wcs h)) = Some off" using W off by (simp add: rem_usize_def)
  then have "pop_recvs poll h d 2048 act = Option.bind (poll d arr) (\<lambda>(n, out, d). if length (rh_wcs h) - off < n then None
      else Some (n, h\<lparr>rh_wcs := take off (rh_wcs h) @ take (length (rh_wcs h) - off) (out @ drop (off + 2048) (rh_wcs h))\<rparr>, d))"
    unfolding pop_recvs_def arr_def by (simp add: Let_def)
  ultimately show ?thesis unfolding q by simp
qed

lemma pop_recv_next:
  assumes "poll_delivers (dr_poll_recv drv ci) nxt step" "get_global_rctrl k port = Some ci" "rh_wcs (ct_recv (k_rctrl k ! ci)) \<noteq> []"
    and W: "W = rh_wcs (ct_recv (k_rctrl k ! ci))" and off: "off = act mod length W"
  shows "if length W - off < length (nxt (k_dev k)) then pop_recv drv k port 2048 act = None
    else \<exists>W' k'. pop_recv drv k port 2048 act = Some (W', length (nxt (k_dev k)), k') \<and>
      k_dev k' = step (k_dev k) \<and> get_global_rctrl k' port = Some ci \<and> rh_wcs (ct_recv (k_rctrl k' ! ci)) = W' \<and>
      W' = take off W @ nxt (k_dev k) @ drop (off + length (nxt (k_dev k))) W \<and> length W' = length W"
proof -
  have "ci < length (k_rctrl k)" "off \<le> length W"
    using assms(2,3) W off by (auto simp: get_global_rctrl_def less_imp_le split: if_splits)
  then show ?thesis
    using pop_recvs_delivers_next [OF assms(1,3) off [unfolded W], of "k_dev k"] assms(2) off
    by (auto simp: pop_recv_def W get_global_rctrl_def Let_def split: if_splits)
qed

lemma pop_msg_step:
  assumes "q_connect_port q = Some port"
  shows "pop_msg_loop drv q least psz retries act k = Option.bind (pop_recv drv k port 2048 act) (\<lambda>(W, n, k).
    if unat least \<le> act + n \<or> retries = 0
    then if act + n \<le> length W \<and> (\<forall>w \<in> set (take (act + n) W). payload_ok psz w)
      then Some (st_ok, Some (map user_wc_of (take (act + n) W), of_nat (act + n)), k\<lparr>k_dev := move_payloads drv psz (take (act + n) W) (k_dev k)\<rparr>) else None
    else pop_msg_loop drv q least psz (retries - 1) (act + n) k)"
  by (subst pop_msg_loop.simps)
    (cases "pop_recv drv k port 2048 act"; auto simp: assms(1) handle_pop_ret_def copy_wcs_all split: prod.split)

lemma pop_msg_overfull:
  assumes p: "poll_delivers (dr_poll_recv drv ci) nxt step" and q: "q_connect_port q = Some port"
    and "get_global_rctrl k port = Some ci" "rh_wcs (ct_recv (k_rctrl k ! ci)) \<noteq> []" "length (rh_wcs (ct_recv (k_rctrl k ! ci))) < act"
  shows "pop_msg_loop drv q least psz retries act k = None"
  using assms(3-)
proof (induction retries arbitrary: act k rule: less_induct)
  case (less retries)
  show ?case
  proof (cases "pop_recv drv k port 2048 act")
    case None
    then show ?thesis by (subst pop_msg_step [OF q]) simp
  next
    case (Some r)
    then obtain W' k' where k': "r = (W', length (nxt (k_dev k)), k')" "get_global_rctrl k' port = Some ci"
      "rh_wcs (ct_recv (k_rctrl k' ! ci)) = W'" "length W' = length (rh_wcs (ct_recv (k_rctrl k ! ci)))"
      using pop_recv_next [OF p less.prems(1,2) refl refl, of act] by (auto split: if_splits)
    then have "W' \<noteq> []" "length W' < act" using less.prems by auto
    then show ?thesis using Some k' less.IH [OF _ k'(2)] by (subst pop_msg_step [OF q]) auto
  qed
qed

lemma pop_msg_gathers:
  assumes p: "poll_delivers (dr_poll_recv drv ci) nxt step" and q: "q_connect_port q = Some port"
    and "get_global_rctrl k port = Some ci" "rh_wcs (ct_recv (k_rctrl k ! ci)) \<noteq> []" "length ws \<le> length (rh_wcs (ct_recv (k_rctrl k ! ci)))"
      "take (length ws) (rh_wcs (ct_recv (k_rctrl k ! ci))) = ws" "gather nxt step (unat least) retries ws (k_dev k) = (ws', d')"
  shows "if length ws' \<le> length (rh_wcs (ct_recv (k_rctrl k ! ci))) \<and> (\<forall>w \<in> set ws'. payload_ok psz w)
    then \<exists>k'. pop_msg_loop drv q least psz retries (length ws) k = Some (st_ok, Some (map user_wc_of ws', of_nat (length ws')), k') \<and> k_dev k' = move_payloads drv psz ws' d'
    else pop_msg_loop drv q least psz retries (length ws) k = None"
  using assms(3-)
proof (induction retries arbitrary: ws k rule: less_induct)
  case (less retries)
  define W off n where "W = rh_wcs (ct_recv (k_rctrl k ! ci))" and "off = length ws mod length W" and "n = nxt (k_dev k)"
  have W: "W \<noteq> []" "length ws \<le> length W" "take (length ws) W = ws" using less.prems(2-4) by (simp_all add: W_def)
  have le: "length (ws @ n) \<le> length ws'" using gather_next [of ws nxt "k_dev k" step "unat least" retries] less.prems(5) by (simp add: n_def)
  note r = pop_recv_next [OF p less.prems(1,2) refl refl, of "length ws", folded W_def, folded off_def n_def]
  show ?case
  proof (cases "length W - off < length n")
    case True
    then have "length W < length (ws @ n)" using W by (cases "length ws = length W") (auto simp: off_def)
    then show ?thesis using True r le by (subst pop_msg_step [OF q]) (simp add: W_def)
  next
    case False
    then obtain W' k' where k': "pop_recv drv k port 2048 (length ws) = Some (W', length n, k')" "k_dev k' = step (k_dev k)"
      "get_global_rctrl k' port = Some ci" "rh_wcs (ct_recv (k_rctrl k' ! ci)) = W'" "W' = take off W @ n @ drop (off + length n) W"
      "length W' = length W" using r by auto
    show ?thesis
    proof (cases "length (ws @ n) \<le> length W")
      case False
      then have "length W < length ws'" using le by simp
      moreover have "W' \<noteq> []" using k'(6) W(1) by auto
      ultimately show ?thesis
        using False k' pop_msg_overfull [OF p q k'(3), of "length ws + length n" least psz "retries - 1"]
        by (subst pop_msg_step [OF q]) (simp add: W_def)
    next
      case True
      have t: "take (length (ws @ n)) W' = ws @ n"
      proof (cases "length ws = length W")
        case eq: True
        then have "n = []" "off = 0" "W = ws" using True W by (simp_all add: off_def)
        then show ?thesis using k'(5) by simp
      next
        case neq: False
        then have "off = length ws" using W(2) by (simp add: off_def)
        then show ?thesis unfolding k'(5) using W(3) by simp
      qed
      show ?thesis
      proof (cases "unat least \<le> length (ws @ n) \<or> retries = 0")
        case stop: True
        then have "ws' = ws @ n" "d' = step (k_dev k)" using less.prems(5) by (subst (asm) gather.simps; simp add: n_def)+
        then show ?thesis using stop True t k'(1,2,6) pop_msg_step [OF q, of drv least psz retries "length ws" k] by (auto simp: W_def)
      next
        case go: False
        then have "gather nxt step (unat least) (retries - 1) (ws @ n) (k_dev k') = (ws', d')"
          using less.prems(5) k'(2) by (subst (asm) gather.simps) (simp add: n_def)
        moreover have "W' \<noteq> []" using k'(6) W(1) by auto
        ultimately have "if length ws' \<le> length W \<and> (\<forall>w \<in> set ws'. payload_ok psz w)
          then \<exists>k''. pop_msg_loop drv q least psz (retries - 1) (length (ws @ n)) k' = Some (st_ok, Some (map user_wc_of ws', of_nat (length ws')), k'') \<and> k_dev k'' = move_payloads drv psz ws' d'
          else pop_msg_loop drv q least psz (retries - 1) (length (ws @ n)) k' = None"
          using less.IH [of "retries - 1" k' "ws @ n"] go True t k'(3,4,6) by simp
        then show ?thesis using go k'(1) by (subst (1 2) pop_msg_step [OF q]) (auto simp: W_def split: if_splits)
      qed
    qed
  qed
qed


text \<open>
  C7. A client receives its messages in order.  On a queue that is connected and not bound, popping messages repeats the poll until as many as asked for
  have come, at most 50002 times, and hands the caller the completions of all these polls in the order
  in which they were delivered, with their number; before that, the payload of each message is copied behind itself, in the
  size the caller names, to wherever that may be.  This
  is so when the messages fit into the array of the control block and no payload's address overflows.
  With one message more, memory behind the array is written or read; an address that overflows panics.
\<close>

theorem pop_msgs_delivers:
  assumes "q_bind_port q = None" and "q_connect_port q = Some port" and "get_global_rctrl k port = Some ci"
    and "W = rh_wcs (ct_recv (k_rctrl k ! ci))" and "W \<noteq> []" and "poll_delivers (dr_poll_recv drv ci) nxt step"
    and "gather nxt step (unat least) 50001 [] (k_dev k) = (ws, d)"
  shows "if length ws \<le> length W \<and> (\<forall>w \<in> set ws. payload_ok psz w)
    then \<exists>k'. ioctrl ft drv q k (CmdPopMsgs least psz) = Some (0, Some (st_ok, Some (map user_wc_of ws, of_nat (length ws))), q, k') \<and>
      k_dev k' = move_payloads drv psz ws d
    else ioctrl ft drv q k (CmdPopMsgs least psz) = None"
  using pop_msg_gathers [OF assms(6,2,3), of "[]" least 50001 ws d psz] assms(1,4,5,7)
  by (auto simp: ioctrl_def connect_cmd_def pop_msg_impl_def split: if_splits)

section \<open>The properties on a small module\<close>

text \<open>
  A driver whose state is the log of the requests posted: nothing is completed on the sending side, every poll
  of the receiving side delivers one message, and each host has a path and a target of its own.
\<close>

definition host_point :: "nat \<Rightarrow> end_point" where
  "host_point n = \<lparr>ep_qpn = 9, ep_qkey = 11, ep_lid = 4, ep_gid = 42, ep_dct_num = of_nat n,
     ep_mr = \<lparr>mr_addr = 4096, mr_capacity = 8192, mr_rkey = 7\<rparr>, ep_ah = None\<rparr>"

definition sample_driver :: "send_wr list driver" where
  "sample_driver = \<lparr>dr_post_send = (\<lambda>_ w d. (0, d @ [w])), dr_post_recv = (\<lambda>_ d _. Some (0, d)), dr_poll_send = (\<lambda>_ d. (None, d)),
     dr_poll_recv = (\<lambda>_ d arr. Some (min 1 (length arr), take (length arr) [zero_wc] @ drop 1 arr, d)), dr_pa_to_va = (\<lambda>pa. pa), dr_create_ah = (\<lambda>_ _. Some 1),
     dr_read_point = (\<lambda>_ _. host_point 5), dr_memcpy = (\<lambda>_ _ _ d. d), dr_parse_gid = (\<lambda>_. Some 42),
     dr_resolve = (\<lambda>_ _ host d. (Some (unat (hd host)), d)), dr_new_rc = (\<lambda>_ d. (None, d)), dr_rc_connect = (\<lambda>_ _ _ _ d. (Inl 1, d)),
     dr_sidr_connect = (\<lambda>path _ d. (Some (Inr (host_point path)), d)), dr_meta_page = (\<lambda>_ d. Some (\<lparr>kv_count = 0, kv_slots = []\<rparr>, d))\<rparr>"

definition sample_kern :: "send_wr list kern" where
  "sample_kern = \<lparr>k_rctrl = [sample_ctrl], k_dev = []\<rparr>"

definition sample_features :: "bool \<Rightarrow> features" where
  "sample_features dct = \<lparr>ft_virtual_queue = True, ft_dct_qp = dct, ft_meta_kv = False, ft_meta_cache = True, ft_migrate_qp = False\<rparr>"

definition sample_mr :: temp_mr where
  "sample_mr = \<lparr>mr_addr = 8192, mr_capacity = 4194304, mr_rkey = 6\<rparr>"

definition sample_queue :: vq where
  "sample_queue = (vq_open sample_mr)\<lparr>q_local_dc := Some 2, q_local_ud := Some \<lparr>ud_qp = 1, ud_qp_num = 9, ud_qkey = 11\<rparr>,
     q_remote_endpoint := Some (host_point 5), q_connect_port := Some 3\<rparr>"

definition sample_call :: "u32 \<Rightarrow> core_req" where
  "sample_call ty = \<lparr>cr_addr = 64, cr_length = 128, cr_remote_addr = 256, cr_send_flags = 0, cr_vid = 12, cr_type = ty\<rparr>"

lemmas sample_defs = host_point_def sample_driver_def sample_kern_def sample_mr_def sample_queue_def sample_call_def vq_open_def sample_features_def

lemma sample_target: "push_target sample_queue = Some (2, 4096, \<lambda>_. 0, \<lambda>r. DcTo (cr_remote_addr r + 4096) 7 None 73 5)"
  "q_bind_port sample_queue = None" "q_local_mr sample_queue = Some sample_mr" "q_virtual_queue sample_queue = None"
  "q_local_ud sample_queue = Some \<lparr>ud_qp = 1, ud_qp_num = 9, ud_qkey = 11\<rparr>" "q_connect_port sample_queue = Some 3"
  by (simp_all add: push_target_def sample_defs)

lemma sample_calls_ok: "\<forall>r \<in> set [sample_call 0, sample_call 1]. req_ok (mr_addr sample_mr) 4096 r" "\<not> req_ok (mr_addr sample_mr) 4096 (sample_call 5)"
  by (simp_all add: req_ok_def sample_defs)

theorem push_posts_requests_witness:
  "ioctrl (sample_features True) sample_driver sample_queue sample_kern (CmdPush [sample_call 0, sample_call 1] 0 0) = Some (0, Some (st_ok, None), sample_queue,
     sample_kern\<lparr>k_dev := map (\<lambda>op. \<lparr>sw_opcode = op, sw_addr = 8256, sw_length = 128, sw_lkey = 6, sw_flags = 0, sw_imm = 0,
       sw_target = DcTo 4352 7 None 73 5\<rparr>) [IB_WR_RDMA_READ, IB_WR_RDMA_WRITE]\<rparr>)"
  by (subst push_posts_requests [OF sample_target(2,3,1) sample_calls_ok(1)]) (simp add: sample_defs wr_of_def inline_req_def)

theorem push_unsound_panics_witness:
  "ioctrl (sample_features True) sample_driver sample_queue sample_kern (CmdPush [sample_call 0, sample_call 1, sample_call 5] 0 0) = None \<and>
   ioctrl (sample_features True) (sample_driver\<lparr>dr_post_send := \<lambda>_ w d. (int (length d), d @ [w])\<rparr>) sample_queue sample_kern
     (CmdPush [sample_call 0, sample_call 1, sample_call 5] 0 0) = Some (0, Some (st_err, None), sample_queue,
     sample_kern\<lparr>k_dev := map (\<lambda>op. \<lparr>sw_opcode = op, sw_addr = 8256, sw_length = 128, sw_lkey = 6, sw_flags = 0, sw_imm = 0,
       sw_target = DcTo 4352 7 None 73 5\<rparr>) [IB_WR_RDMA_READ, IB_WR_RDMA_WRITE]\<rparr>)"
  using push_unsound_panics [OF sample_target(2,3,1) sample_calls_ok, of "sample_features True" sample_driver sample_kern "[]" 0]
    push_unsound_panics [OF sample_target(2,3,1) sample_calls_ok, of "sample_features True" "sample_driver\<lparr>dr_post_send := \<lambda>_ w d. (int (length d), d @ [w])\<rparr>" sample_kern "[]" 0]
  by (simp add: sample_defs wr_of_def inline_req_def)

theorem push_awaits_wrong_queue_witness:
  "ioctrl (sample_features True) sample_driver sample_queue sample_kern (CmdPush [sample_call 0, sample_call 1] 0 1) = None"
  using push_awaits_wrong_queue [OF sample_target(2,3,1) sample_calls_ok(1) _ sample_target(4,5), of sample_driver sample_kern _ "sample_features True"]
  by (simp add: sample_driver_def)

text \<open>The name of a host that repeats one letter.\<close>

lemma sample_host [simp]: "addr_buf (\<lambda>_. a) 39 = replicate 39 a" "a < 0x80 \<Longrightarrow> utf8_ok (replicate n a)"
  by (simp add: addr_buf_def as_usize_def ADDR_SZ_def map_replicate_const) (induction n, simp_all)

theorem connect_without_queue_witness:
  "\<exists>q' k'. qconnect (sample_features False) sample_driver (vq_open sample_mr) sample_kern (\<lambda>_. 65) 39 3 1 = Some (status_value st_ok, q', k') \<and>
     q_virtual_queue q' = None \<and> ioctrl (sample_features False) sample_driver q' k' (CmdPush [sample_call 0] 0 0) = None"
  by (rule connect_without_queue [where ci = 0 and dc = 2 and g = 42 and path = 65 and ?d1.0 = "[]" and ?d2.0 = "[]"])
    (simp_all add: sample_host sample_driver_def sample_kern_def sample_features_def get_global_rctrl_def sample_ctrl_create(5))

theorem reconnect_keeps_endpoint_witness:
  "\<exists>qa ka qb kb q' k'. qconnect (sample_features True) sample_driver (vq_open sample_mr) sample_kern (\<lambda>_. 65) 39 3 1 = Some (status_value st_ok, qa, ka) \<and>
     qconnect (sample_features True) sample_driver qa ka (\<lambda>_. 66) 39 3 1 = Some (status_value st_ok, qb, kb) \<and>
     qconnect (sample_features True) sample_driver qb kb (\<lambda>_. 65) 39 3 1 = Some (status_value st_ok, q', k') \<and>
     q_remote_endpoint qa = Some (remote_point sample_driver (host_point 65)) \<and> q_remote_endpoint q' = Some (remote_point sample_driver (host_point 66))"
proof -
  let ?target = "\<lambda>host. host_point (unat (hd host))"
  have "hd (replicate 39 a) = a" for a :: u8 by (simp add: hd_replicate)
  then have "?target (addr_buf (\<lambda>_. 65) 39) = host_point 65" "?target (addr_buf (\<lambda>_. 66) 39) = host_point 66" "replicate 39 (65 :: u8) \<noteq> replicate 39 66"
    by (simp_all add: replicate_eq_replicate)
  moreover have "network_answers sample_driver 0 (service_id 3) ?target" by (simp add: network_answers_def sample_driver_def)
  ultimately show ?thesis
    using reconnect_keeps_endpoint [of "sample_features True" sample_driver 0 3 ?target sample_kern "\<lambda>_. 65" 39 "\<lambda>_. 66" 39 sample_mr 1]
    by (simp add: sample_features_def sample_kern_def get_global_rctrl_def sample_driver_def)
qed

theorem bind_port_service_witness:
  "map_option (\<lambda>i. rctrl_services 2 ! i) (get_bind_ctrl (sample_kern\<lparr>k_rctrl := replicate 50 sample_ctrl\<rparr>) 7) = Some (7, 0) \<and>
   get_bind_ctrl (sample_kern\<lparr>k_rctrl := replicate 50 sample_ctrl\<rparr>) 25 = Some 0"
proof -
  have "length (k_rctrl (sample_kern\<lparr>k_rctrl := replicate 50 sample_ctrl\<rparr>)) = length (rctrl_services 2)" by (simp add: rctrl_services_def MAX_SERVICE_NUM_def upt_rec)
  from bind_port_service [OF _ this, of sample_queue] have "map_option (\<lambda>i. rctrl_services 2 ! i) (get_bind_ctrl (sample_kern\<lparr>k_rctrl := replicate 50 sample_ctrl\<rparr>) port) = Some (port, 0)"
    "get_bind_ctrl (sample_kern\<lparr>k_rctrl := replicate 50 sample_ctrl\<rparr>) 25 = get_bind_ctrl (sample_kern\<lparr>k_rctrl := replicate 50 sample_ctrl\<rparr>) 0" if "port < 25" for port
    using that sample_target(2) by (simp_all add: MAX_SERVICE_NUM_def)
  from this(1) [of 7] this(2) [of 7] show ?thesis by (simp add: get_bind_ctrl_def get_global_rctrl_def)
qed

theorem bind_push_skips_client_0_witness:
  "\<exists>q' d'. length d' = 1 \<and> bind_server_push_impl sample_driver (sample_queue\<lparr>q_bind_port := Some 3\<rparr>) sample_kern [sample_call 0] True =
     Some (st_ok, q', sample_kern\<lparr>k_dev := d'\<rparr>)"
proof -
  define q where "q = sample_queue\<lparr>q_bind_port := Some 3\<rparr>"
  have k: "get_bind_ctrl sample_kern 3 = Some 0" "k_rctrl sample_kern ! 0 = sample_ctrl" by (simp_all add: get_bind_ctrl_def get_global_rctrl_def sample_kern_def)
  have q: "q_bind_port q = Some 3" "q_local_mr q = Some sample_mr" by (simp_all add: q_def sample_defs)
  have c: "\<forall>r \<in> set [sample_call 0]. unat (cr_vid r) mod HOST_LEN = 0" by (simp add: sample_call_def HOST_LEN_def)
  obtain q' d' uds where b: "bind_push_loop sample_driver (k_rctrl sample_kern ! 0) sample_mr [sample_call 0] q (k_dev sample_kern) (replicate HOST_LEN 0) (replicate HOST_LEN 0) =
      Some (st_ok, q', d', replicate HOST_LEN 0, uds)" "length d' = 1"
    using rctrl_create_fields [OF sample_ctrl_create(1)]
    by (simp add: k(2) get_trc_def bind_push_ud_def get_ud_def add_u64_def UD_HEADER_SZ_def op_code_table_def q_def sample_defs Let_def)
  from bind_push_skips_client_0 [OF q(1) k(1) q(2) c b(1)] b(2) show ?thesis by (auto simp: q_def)
qed

theorem pop_msgs_delivers_witness:
  "(\<exists>k'. ioctrl (sample_features True) sample_driver sample_queue sample_kern (CmdPopMsgs 2 16) =
      Some (0, Some (st_ok, Some (replicate 2 (user_wc_of zero_wc), 2)), sample_queue, k')) \<and>
   ioctrl (sample_features True) sample_driver sample_queue sample_kern (CmdPopMsgs 3 16) = None"
proof -
  have p: "poll_delivers (dr_poll_recv sample_driver 0) (\<lambda>_. [zero_wc]) (\<lambda>d. d)" by (simp add: poll_delivers_def sample_driver_def)
  have k: "get_global_rctrl sample_kern 3 = Some 0" "rh_wcs (ct_recv (k_rctrl sample_kern ! 0)) = replicate 2 zero_wc" "replicate 2 zero_wc \<noteq> []"
    by (simp_all add: get_global_rctrl_def sample_kern_def sample_ctrl_create(3) numeral_2_eq_2)
  have m: "payload_ok 16 zero_wc" by (simp add: payload_ok_def zero_wc_def)
  have g: "gather (\<lambda>_. [zero_wc]) (\<lambda>d. d) least n ws d = (if least \<le> length ws + 1 then (ws @ [zero_wc], d)
      else gather (\<lambda>_. [zero_wc]) (\<lambda>d. d) least (n - 1) (ws @ [zero_wc]) d)" if "0 < n" for least n ws and d :: "send_wr list"
    using that by (subst gather.simps) simp
  have "gather (\<lambda>_. [zero_wc]) (\<lambda>d. d) (unat (2 :: u32)) 50001 [] (k_dev sample_kern) = (replicate 2 zero_wc, [])"
    by (simp add: g sample_kern_def) (simp add: numeral_2_eq_2)
  moreover have "gather (\<lambda>_. [zero_wc]) (\<lambda>d. d) (unat (3 :: u32)) 50001 [] (k_dev sample_kern) = (replicate 3 zero_wc, [])"
    by (simp add: g sample_kern_def) (simp add: numeral_3_eq_3)
  ultimately show ?thesis
    using pop_msgs_delivers [OF sample_target(2,6) k(1) k(2) [symmetric] k(3) p, of 2 "replicate 2 zero_wc" "[]" 16 "sample_features True"]
      pop_msgs_delivers [OF sample_target(2,6) k(1) k(2) [symmetric] k(3) p, of 3 "replicate 3 zero_wc" "[]" 16 "sample_features True"] m
    by (auto simp: map_replicate)
qed

end
