(* ===== verification/KrRun.thy ===== *)
theory KrRun
  imports KrVqProps
begin

text \<open>
  The kernel module as a whole: any number of virtual queues that share the control blocks, with the
  commands, the thread and the events that change them as one step relation, and what holds in every state
  it reaches.
\<close>

section \<open>The state of a virtual queue\<close>

text \<open>
  A virtual queue always has a local region, a remote region if it has a connection, and a port that exists if
  it is bound; the receive rings of the control blocks are rings, with one completion per buffer.
\<close>

definition vq_ok :: "vq \<Rightarrow> bool" where
  "vq_ok q \<longleftrightarrow> q_local_mr q \<noteq> None \<and> (\<forall>rc. q_virtual_queue q = Some rc \<longrightarrow> rc_remote_mr rc \<noteq> None) \<and>
     (\<forall>port. q_bind_port q = Some port \<longrightarrow> port \<le> MAX_SERVICE_NUM)"

definition ctrl_ok :: "rctrl \<Rightarrow> bool" where
  "ctrl_ok ct \<longleftrightarrow> rh_ring (ct_recv ct) \<and> length (rh_wcs (ct_recv ct)) = rh_capacity (ct_recv ct)"

definition kern_ok :: "'d kern \<Rightarrow> bool" where
  "kern_ok k \<longleftrightarrow> (\<forall>ct \<in> set (k_rctrl k). ctrl_ok ct)"

text \<open>A poll does not change the size of the array it is given.\<close>

definition driver_ok :: "'d driver \<Rightarrow> bool" where
  "driver_ok drv \<longleftrightarrow> (\<forall>ci d arr n out d'. dr_poll_recv drv ci d arr = Some (n, out, d') \<longrightarrow> length out = length arr)"

lemma kern_ok_upd [intro]: "kern_ok k \<Longrightarrow> ctrl_ok ct \<Longrightarrow> kern_ok (k\<lparr>k_rctrl := (k_rctrl k)[ci := ct], k_dev := d\<rparr>)"
  by (auto simp: kern_ok_def dest!: set_update_subset_insert [THEN subsetD])

lemma kern_ok_dev [simp]: "kern_ok (k\<lparr>k_dev := d\<rparr>) = kern_ok k"
  by (simp add: kern_ok_def)

lemma kern_ok_rctrl [intro]: "kern_ok k \<Longrightarrow> ctrl_ok ct \<Longrightarrow> kern_ok (k\<lparr>k_rctrl := (k_rctrl k)[ci := ct]\<rparr>)"
  by (auto simp: kern_ok_def dest!: set_update_subset_insert [THEN subsetD])

lemma kern_ok_nth [intro]: "kern_ok k \<Longrightarrow> get_global_rctrl k i = Some ci \<Longrightarrow> ctrl_ok (k_rctrl k ! ci)"
  by (auto simp: kern_ok_def get_global_rctrl_def split: if_splits)

lemma ctrl_ok_post:
  assumes "post_recvs post (ct_recv ct) d n = Some (e, h, d')" "ctrl_ok ct"
  shows "ctrl_ok (ct\<lparr>ct_recv := h\<rparr>)"
  using assms post_recvs_keeps [OF _ assms(1)] by (auto simp: ctrl_ok_def)

lemma post_recv_ok:
  "trc_post_recv post ct d vid n = Some (e, ct', d') \<Longrightarrow> ctrl_ok ct \<Longrightarrow> ctrl_ok ct'"
  "ud_post_recv post ct d n = Some (e, ct', d') \<Longrightarrow> ctrl_ok ct \<Longrightarrow> ctrl_ok ct'"
  by (auto simp: trc_post_recv_def ud_post_recv_def split: Option.bind_splits intro: ctrl_ok_post)

lemma reap_ok:
  "reap_ud drv pop cnt ct d = Some (st, ct', d') \<Longrightarrow> ctrl_ok ct \<Longrightarrow> ctrl_ok ct'"
  "reap_rc drv pop vid cnt ct d = Some (st, ct', d') \<Longrightarrow> ctrl_ok ct \<Longrightarrow> ctrl_ok ct'"
  by (auto simp: reap_ud_def reap_rc_def replenish_def split: Option.bind_splits if_splits dest: post_recv_ok)

lemma bind_reap_ok:
  assumes "ctrl_ok ct" "bind_reap drv pop rcs uds vids ct d = Some (st, ct', d')"
  shows "ctrl_ok ct'"
  using assms
proof (induction vids arbitrary: ct d)
  case (Cons v vids)
  then obtain s1 c1 d1 where u: "reap_ud drv pop (uds ! v) ct d = Some (s1, c1, d1)" by (auto split: Option.bind_splits)
  have c1: "ctrl_ok c1" using reap_ok(1) [OF u Cons.prems(1)] .
  show ?case
  proof (cases "s1 = st_err")
    case True
    then show ?thesis using Cons.prems(2) u c1 by simp
  next
    case False
    then obtain s2 c2 d2 where r: "reap_rc drv pop v (rcs ! v) c1 d1 = Some (s2, c2, d2)"
      using Cons.prems(2) u by (auto split: Option.bind_splits)
    show ?thesis using Cons.prems(2) Cons.IH u r False reap_ok(2) [OF r c1] by (auto split: if_splits)
  qed
qed simp

lemma pop_recvs_keeps:
  assumes "\<And>d arr n out d'. poll d arr = Some (n, out, d') \<Longrightarrow> length out = length arr"
    and "pop_recvs poll h d cnt off = Some (n, h', d')" "rh_ring h" "length (rh_wcs h) = rh_capacity h"
  shows "rh_ring h' \<and> length (rh_wcs h') = rh_capacity h'"
proof -
  let ?K = "length (rh_wcs h)"
  define e arr where "e = off mod ?K" and "arr = take cnt (drop e (rh_wcs h) @ replicate cnt zero_wc)"
  from assms(2) obtain out where o: "0 < ?K" "poll d arr = Some (n, out, d')"
    "h' = h\<lparr>rh_wcs := take e (rh_wcs h) @ take (?K - e) (out @ drop (e + cnt) (rh_wcs h))\<rparr>"
    unfolding e_def arr_def by (auto simp: pop_recvs_def rem_usize_def Let_def simp del: take_append split: Option.bind_splits if_splits)
  have "length arr = cnt" by (simp add: arr_def min_def)
  then have "length out = cnt" using assms(1) [OF o(2)] by simp
  moreover have "e < ?K" using o(1) by (simp add: e_def)
  ultimately have "length (rh_wcs h') = ?K" using o(3) by (simp del: take_append)
  moreover have "rh_ring h'" "rh_capacity h' = rh_capacity h" using o(3) assms(3) by (simp_all add: rh_ring_def)
  ultimately show ?thesis using assms(4) by simp
qed

text \<open>What the parts of a call leave unchanged or well-formed.\<close>

lemma pop_recv_ok:
  assumes "driver_ok drv" "kern_ok k" "pop_recv drv k i cnt off = Some (wcs, n, k')"
  shows "kern_ok k'"
proof -
  from assms(3) obtain ci h d where c: "get_global_rctrl k i = Some ci" "pop_recvs (dr_poll_recv drv ci) (ct_recv (k_rctrl k ! ci)) (k_dev k) cnt off = Some (n, h, d)"
    "k' = k\<lparr>k_rctrl := (k_rctrl k)[ci := (k_rctrl k ! ci)\<lparr>ct_recv := h\<rparr>], k_dev := d\<rparr>"
    by (auto simp: pop_recv_def Let_def split: Option.bind_splits)
  have len: "length out = length arr" if "dr_poll_recv drv ci d arr = Some (n, out, d')" for d arr n out d'
    using assms(1) that unfolding driver_ok_def by blast
  have "ctrl_ok (k_rctrl k ! ci)" using assms(2) c(1) by blast
  then have "ctrl_ok ((k_rctrl k ! ci)\<lparr>ct_recv := h\<rparr>)"
    using pop_recvs_keeps [OF len c(2)] by (simp add: ctrl_ok_def)
  then show ?thesis using assms(2) c(3) by blast
qed

lemma pop_msg_ok:
  assumes "driver_ok drv" "kern_ok k" "pop_msg_impl drv q k least sz = Some (st, out, k')"
  shows "kern_ok k'"
proof (cases "q_bind_port q")
  case None
  have "kern_ok k'" if "pop_msg_loop drv q least sz retries act k = Some (st, out, k')" "kern_ok k" for retries act k
    using that
  proof (induction retries arbitrary: act k rule: less_induct)
    case (less retries)
    from less.prems(1) obtain w n k1 where
      r: "(case q_connect_port q of None \<Rightarrow> Some (None, 0, k)
           | Some port \<Rightarrow> map_option (\<lambda>(wcs, n, k). (Some wcs, n, k)) (pop_recv drv k port 2048 act)) = Some (w, n, k1)"
      by (subst (asm) pop_msg_loop.simps) (auto split: Option.bind_splits)
    then have k1: "kern_ok k1" using pop_recv_ok [OF assms(1) less.prems(2)] less.prems(2) by (auto split: option.splits)
    show ?case
    proof (cases "unat least \<le> act + n \<or> retries = 0")
      case True
      then show ?thesis using less.prems(1) r k1 by (subst (asm) pop_msg_loop.simps) (auto split: Option.bind_splits)
    next
      case False
      then have "pop_msg_loop drv q least sz (retries - 1) (act + n) k1 = Some (st, out, k')"
        using less.prems(1) r by (subst (asm) pop_msg_loop.simps) simp
      moreover have "retries - 1 < retries" using False by simp
      ultimately show ?thesis using less.IH k1 by blast
    qed
  qed
  then show ?thesis using None assms(2,3) by (auto simp: pop_msg_impl_def)
qed (use assms(3) pop_recv_ok [OF assms(1,2)] in \<open>auto simp: pop_msg_impl_def split: Option.bind_splits\<close>)

lemma push_recv_ok:
  assumes "kern_ok k" "push_recv_impl drv q k n = Some (st, k')"
  shows "kern_ok k'"
  using assms kern_ok_nth [OF assms(1)]
  by (auto simp: push_recv_impl_def get_bind_ctrl_def Let_def intro!: kern_ok_upd split: option.splits Option.bind_splits dest: post_recv_ok ctrl_ok_post)

lemma bind_push_ud_ok:
  "bind_push_ud drv ct mr r v q d uds = Some (err, q', d') \<Longrightarrow> vq_ok q' = vq_ok q"
  by (auto simp: bind_push_ud_def vq_ok_def Let_def split: Option.bind_splits option.splits prod.splits)

lemma bind_push_loop_ok:
  assumes "bind_push_loop drv ct mr reqs q d rcs uds = Some (st, q', d', rcs', uds')"
  shows "vq_ok q' = vq_ok q"
  using assms
proof (induction reqs arbitrary: q d rcs uds)
  case (Cons r reqs)
  define v where "v = unat (cr_vid r) mod HOST_LEN"
  show ?case
  proof (cases "get_trc ct v")
    case None
    with Cons.prems obtain err q1 d1 where u: "bind_push_ud drv ct mr r v q d uds = Some (err, q1, d1)"
      by (auto simp: v_def Let_def split: Option.bind_splits)
    show ?thesis using Cons None u bind_push_ud_ok [OF u] by (auto simp: v_def Let_def split: if_splits)
  next
    case (Some rc)
    then show ?thesis using Cons by (auto simp: v_def Let_def split: Option.bind_splits if_splits)
  qed
qed simp

lemma push_batch_ok:
  assumes "push_batch drv pop q k reqs = Some (st, q', k')" "vq_ok q" "kern_ok k"
  shows "vq_ok q' \<and> kern_ok k'"
proof (cases "q_bind_port q")
  case None
  then show ?thesis using assms by (auto simp: push_batch_def split: Option.bind_splits)
next
  case (Some port)
  then obtain ci mr res q1 d rcs uds where b: "get_bind_ctrl k port = Some ci" "q_local_mr q = Some mr"
    "bind_push_loop drv (k_rctrl k ! ci) mr reqs q (k_dev k) (replicate HOST_LEN 0) (replicate HOST_LEN 0) = Some (res, q1, d, rcs, uds)"
    using assms(1) by (auto simp: push_batch_def bind_server_push_impl_def split: Option.bind_splits)
  have "ctrl_ok (k_rctrl k ! ci)" using assms(3) b(1) by (auto simp: get_bind_ctrl_def)
  from bind_reap_ok [OF this] bind_push_loop_ok [OF b(3)] Some b assms show ?thesis
    by (auto simp: push_batch_def bind_server_push_impl_def intro!: kern_ok_upd split: Option.bind_splits if_splits)
qed

lemma push_loop_ok:
  assumes "push_loop drv pop ret q k reqs = Some (st, q', k')" "vq_ok q" "kern_ok k"
  shows "vq_ok q' \<and> kern_ok k'"
  using assms
proof (induction reqs arbitrary: ret q k rule: length_induct)
  case (1 reqs)
  show ?case
  proof (cases "reqs = []")
    case True
    then show ?thesis using 1(2-) by (simp add: push_loop.simps)
  next
    case False
    then obtain s1 q1 k1 where b: "push_batch drv pop q k (take DEFAULT_BATCH_SZ reqs) = Some (s1, q1, k1)"
      using 1(2) by (subst (asm) push_loop.simps) (auto split: Option.bind_splits)
    note ok = push_batch_ok [OF b 1(3,4)]
    have "length (drop DEFAULT_BATCH_SZ reqs) < length reqs" using False by (simp add: DEFAULT_BATCH_SZ_def)
    moreover have "(if s1 = st_err then Some (s1, q1, k1) else push_loop drv pop s1 q1 k1 (drop DEFAULT_BATCH_SZ reqs)) = Some (st, q', k')"
      using 1(2) False b by (subst (asm) push_loop.simps) simp
    ultimately show ?thesis using 1(1) [rule_format, of "drop DEFAULT_BATCH_SZ reqs" s1 q1 k1] ok by (cases "s1 = st_err") auto
  qed
qed

lemma push_impl_ok:
  assumes "push_impl drv q k reqs pop n = Some (st, q', k')" "vq_ok q" "kern_ok k"
  shows "vq_ok q' \<and> kern_ok k'"
proof -
  from assms(1) obtain r0 k0 r1 k1 where p: "push_loop drv pop r0 q k0 reqs = Some (r1, q', k1)" "kern_ok k1 \<longrightarrow> kern_ok k'"
    "(if q_bind_port q = None \<and> n > 0 then push_recv_impl drv q k n else Some (st_ok, k)) = Some (r0, k0)"
    by (auto simp: push_impl_def split: Option.bind_splits if_splits)
  have "kern_ok k0" using p(3) push_recv_ok [OF assms(3)] assms(3) by (auto split: if_splits)
  then show ?thesis using push_loop_ok [OF p(1) assms(2)] p(2) by blast
qed


lemma explore_ok:
  "explore_path drv q k port host = Some (path, q', k') \<Longrightarrow> vq_ok q' = vq_ok q \<and> q_virtual_queue q' = q_virtual_queue q \<and> kern_ok k' = kern_ok k"
  by (auto simp: explore_path_def vq_ok_def Let_def split: option.splits Option.bind_splits prod.splits)

lemma qp_connect_ok:
  "qp_connect drv k vid port path = Some (res, k') \<Longrightarrow> kern_ok k' = kern_ok k \<and> (\<forall>rc. res = Inr (Some rc) \<longrightarrow> rc_remote_mr rc \<noteq> None)"
  by (auto simp: qp_connect_def split: Option.bind_splits prod.splits option.splits sum.splits)

lemma set_queue_ok: "vq_ok q \<Longrightarrow> (\<And>rc. qp = Some rc \<Longrightarrow> rc_remote_mr rc \<noteq> None) \<Longrightarrow> vq_ok (q\<lparr>q_virtual_queue := qp\<rparr>)"
  by (auto simp: vq_ok_def)

lemma connect_rc_ok:
  assumes "connect_rc ft drv q k host port vid = Some (st, q', k')" "vq_ok q" "kern_ok k"
  shows "vq_ok q' \<and> kern_ok k'"
proof -
  from assms(1) obtain path q1 k1 where x: "explore_path drv q k port host = Some (path, q1, k1)"
    by (auto simp: connect_rc_def split: Option.bind_splits)
  have ok: "vq_ok q1" "kern_ok k1" using explore_ok [OF x] assms(2,3) by simp_all
  show ?thesis
  proof (cases path)
    case None
    then show ?thesis using assms(1) x ok by (simp add: connect_rc_def)
  next
    case (Some p)
    then obtain res k2 where c: "qp_connect drv k1 vid port p = Some (res, k2)"
      using assms(1) x by (auto simp: connect_rc_def split: Option.bind_splits)
    then show ?thesis using assms(1) x Some ok qp_connect_ok [OF c]
      by (auto simp: connect_rc_def intro!: set_queue_ok split: sum.splits if_splits)
  qed
qed

lemma find_target_ok:
  assumes "find_target ft drv q k host port = Some (point, q', k')"
  shows "vq_ok q' = vq_ok q \<and> kern_ok k' = kern_ok k"
  using assms
  by (auto simp: find_target_def split: Option.bind_splits option.splits prod.splits sum.splits if_splits dest!: explore_ok)

lemma connect_dct_ok:
  assumes "connect_dct ft drv q k host port vid = Some (st, q', k')" "vq_ok q" "kern_ok k"
  shows "vq_ok q' \<and> kern_ok k'"
proof (cases "q_dct_cache q (host, port)")
  case None
  then obtain go q1 k1 where m: "(if ft_migrate_qp ft then do {
       (path, q, k) \<leftarrow> explore_path drv q k port host;
       Some (path \<noteq> None, case path of None \<Rightarrow> q | Some path \<Rightarrow> q\<lparr>q_connect_param := Some (vid, port, path)\<rparr>, k)
     } else Some (True, q, k)) = Some (go, q1, k1)"
    using assms(1) by (auto simp: connect_dct_def split: Option.bind_splits)
  then have ok: "vq_ok q1" "kern_ok k1"
    using assms(2,3) by (auto simp: vq_ok_def split: Option.bind_splits option.splits if_splits dest!: explore_ok)
  show ?thesis using assms(1) None m ok
    by (auto simp: connect_dct_def use_target_def vq_ok_def Let_def split: Option.bind_splits option.splits if_splits dest!: find_target_ok)
qed (use assms in \<open>simp add: connect_dct_def\<close>)

lemma connect_impl_ok:
  assumes "connect_impl ft drv q k host port vid = Some (st, q', k')" "vq_ok q" "kern_ok k"
  shows "vq_ok q' \<and> kern_ok k'"
proof -
  have "vq_ok (q\<lparr>q_local_mr := Some m, q_connect_port := p\<rparr>)" "vq_ok (q\<lparr>q_local_mr := Some m, q_connect_port := p, q_local_dc := dc, q_local_ud := ud\<rparr>)" for m p dc ud
    using assms(2) by (simp_all add: vq_ok_def)
  then show ?thesis using assms
    by (auto simp: connect_impl_def Let_def split: Option.bind_splits if_splits dest: connect_rc_ok connect_dct_ok)
qed

lemma pop_impl_ok:
  assumes "pop_impl ft drv q k vid = Some (st, out, k')" "kern_ok k"
  shows "kern_ok k'"
  using assms by (auto simp: pop_impl_def split: Option.bind_splits option.splits prod.splits if_splits)

lemma bind_ok: "vq_ok q \<Longrightarrow> bind_q q port = (st, q') \<Longrightarrow> vq_ok q'"
  by (auto simp: bind_q_def vq_ok_def split: if_splits)

lemma unbind_ok:
  assumes "driver_ok drv" "unbind drv q k port = Some (st, q', k')" "vq_ok q" "kern_ok k"
  shows "vq_ok q' \<and> kern_ok k'"
  using assms by (auto simp: unbind_def vq_ok_def split: Option.bind_splits if_splits dest: pop_recv_ok)

lemma ioctrl_ok:
  assumes "driver_ok drv" "vq_ok q" "kern_ok k" "ioctrl ft drv q k cmd = Some (ret, reply, q', k')"
  shows "vq_ok q' \<and> kern_ok k'"
proof (cases cmd)
  case (CmdConnect mem sz port vid)
  then show ?thesis using assms by (auto simp: ioctrl_def connect_cmd_def split: if_splits dest: connect_impl_ok)
next
  case (CmdPush reqs cnt pop)
  then show ?thesis using assms by (auto simp: ioctrl_def connect_cmd_def dest: push_impl_ok)
next
  case (CmdPushRecv cnt)
  then show ?thesis using assms by (auto simp: ioctrl_def connect_cmd_def dest: push_recv_ok)
next
  case (CmdPop vid)
  then show ?thesis using assms by (auto simp: ioctrl_def connect_cmd_def dest: pop_impl_ok)
next
  case (CmdPopMsgs least sz)
  then show ?thesis using assms by (auto simp: ioctrl_def connect_cmd_def dest: pop_msg_ok)
next
  case (CmdBinds port)
  then show ?thesis using assms by (auto simp: ioctrl_def connect_cmd_def dest: bind_ok split: prod.splits)
next
  case (CmdUnBinds port)
  then show ?thesis using assms by (auto simp: ioctrl_def connect_cmd_def dest: unbind_ok)
qed (use assms in \<open>auto simp: ioctrl_def connect_cmd_def\<close>)

lemma migrate_ok:
  assumes "bg_rc_migrate_thread ft drv q k = Some (q', k')" "vq_ok q" "kern_ok k"
  shows "vq_ok q' \<and> kern_ok k'"
  using assms by (auto simp: bg_rc_migrate_thread_def intro!: set_queue_ok split: Option.bind_splits if_splits sum.splits dest!: qp_connect_ok)

lemma conn_callback_ok:
  assumes "rc_conn_callback dev cm send_reply post drop_rc ct d qd new_qp = Some (res, ct', d')" "ctrl_ok ct"
  shows "ctrl_ok ct'"
proof -
  have "get_next_in_qp_key ct qd = Some (key, ct1) \<Longrightarrow> ct_recv ct1 = ct_recv ct" for key ct1
    by (auto simp: get_next_in_qp_key_def split: if_splits Option.bind_splits)
  then show ?thesis using assms
    by (auto simp: rc_conn_callback_def ctrl_ok_def Let_def split: Option.bind_splits if_splits prod.splits dest: post_recvs_keeps [rotated])
qed

section \<open>The module at work\<close>

text \<open>
  The control blocks are shared by all the open queues.  A step opens a queue, runs one command of a caller or the
  thread that migrates a queue, or is an event of the connection manager or of the device; commands are taken to
  be atomic, and a handler that waits forever leaves the state it has reached.
\<close>

inductive kr_step :: "features \<Rightarrow> 'd driver \<Rightarrow> vq list \<times> 'd kern \<Rightarrow> vq list \<times> 'd kern \<Rightarrow> bool" for ft drv where
  step_open: "kr_step ft drv (qs, k) (qs @ [vq_open mr], k)"
| step_ioctrl: "i < length qs \<Longrightarrow> ioctrl ft drv (qs ! i) k cmd = Some (ret, reply, q', k') \<Longrightarrow> kr_step ft drv (qs, k) (qs[i := q'], k')"
| step_migrate: "i < length qs \<Longrightarrow> bg_rc_migrate_thread ft drv (qs ! i) k = Some (q', k') \<Longrightarrow> kr_step ft drv (qs, k) (qs[i := q'], k')"
| step_accept: "ci < length (k_rctrl k) \<Longrightarrow>
    rc_conn_callback dev cm send_reply (dr_post_recv drv) drop_rc (k_rctrl k ! ci) (k_dev k) qd new_qp = Some (res, ct', d') \<Longrightarrow>
    kr_step ft drv (qs, k) (qs, k\<lparr>k_rctrl := (k_rctrl k)[ci := ct'], k_dev := d'\<rparr>)"
| step_disconnect: "ci < length (k_rctrl k) \<Longrightarrow>
    kr_step ft drv (qs, k) (qs, k\<lparr>k_rctrl := (k_rctrl k)[ci := dereg_rc (k_rctrl k ! ci) qd]\<rparr>)"
| step_device: "kr_step ft drv (qs, k) (qs, k\<lparr>k_dev := d\<rparr>)"

inductive_cases kr_stepE: "kr_step ft drv s s'"

text \<open>A module that has just been loaded: every control block is one that was created, over memory that does not wrap around.\<close>

definition booted :: "'d driver \<Rightarrow> 'd kern \<Rightarrow> bool" where
  "booted drv k \<longleftrightarrow> (\<forall>ct \<in> set (k_rctrl k). \<exists>sid ctx ud dc dct_num pa d d'.
     rctrl_create (dr_pa_to_va drv) (dr_post_recv drv) sid ctx ud dc dct_num pa d = Some (ct, d') \<and> unat pa + MAX_KMALLOC_SZ < 2 ^ 64)"

definition state_ok :: "vq list \<times> 'd kern \<Rightarrow> bool" where
  "state_ok s \<longleftrightarrow> (\<forall>q \<in> set (fst s). vq_ok q) \<and> kern_ok (snd s)"

lemma booted_ok: "booted drv k \<Longrightarrow> state_ok ([], k)"
  using rctrl_create_ring by (fastforce simp: booted_def state_ok_def kern_ok_def ctrl_ok_def)

lemma state_ok_upd: "state_ok (qs, k) \<Longrightarrow> vq_ok q \<and> kern_ok k' \<Longrightarrow> state_ok (qs[i := q], k')"
  by (auto simp: state_ok_def dest!: set_update_subset_insert [THEN subsetD])

lemma kr_step_ok:
  assumes "kr_step ft drv s s'" "driver_ok drv" "state_ok s"
  shows "state_ok s'"
  using assms
proof cases
  case (step_open qs k mr)
  then show ?thesis using assms(3) by (auto simp: state_ok_def vq_ok_def vq_open_def)
next
  case (step_ioctrl i qs k cmd ret reply q' k')
  then show ?thesis using assms(2,3) ioctrl_ok [OF assms(2) _ _ step_ioctrl(4)] by (auto intro!: state_ok_upd) (auto simp: state_ok_def)
next
  case (step_migrate i qs k q' k')
  then show ?thesis using assms(3) migrate_ok [OF step_migrate(4)] by (auto intro!: state_ok_upd) (auto simp: state_ok_def)
next
  case (step_accept ci k dev cm send_reply qd new_qp ret key ct' d' qs)
  then have "ctrl_ok (k_rctrl k ! ci)" using assms(3) by (auto simp: state_ok_def kern_ok_def)
  then show ?thesis using step_accept assms(3) conn_callback_ok [OF step_accept(4)] by (auto simp: state_ok_def)
next
  case (step_disconnect ci k qs qd)
  have "ctrl_ok (k_rctrl k ! ci)" using step_disconnect assms(3) by (auto simp: state_ok_def kern_ok_def)
  then have "ctrl_ok (dereg_rc (k_rctrl k ! ci) qd)" by (simp add: ctrl_ok_def dereg_rc_def)
  then show ?thesis using step_disconnect(1,2) assms(3) by (auto simp: state_ok_def)
next
  case (step_device qs k d)
  then show ?thesis using assms(3) by (auto simp: state_ok_def)
qed

lemma kr_run_ok:
  "(kr_step ft drv)\<^sup>*\<^sup>* s s' \<Longrightarrow> driver_ok drv \<Longrightarrow> state_ok s \<Longrightarrow> state_ok s'"
  by (induction rule: rtranclp_induct) (auto intro: kr_step_ok)

text \<open>
  C3. In every state the module reaches, by any interleaving of the commands of its callers, the migration
  thread and the events of the connection manager and the device, each queue has a registered local region, a queue
  with a reliable connection knows the remote region, a bound queue has a port of the table, and the
  receive buffers of every control block form a ring with one completion slot for each buffer.
\<close>

theorem kr_run_typed:
  assumes "driver_ok drv" and "booted drv k0" and "(kr_step ft drv)\<^sup>*\<^sup>* ([], k0) (qs, k)"
  shows "(\<forall>q \<in> set qs. q_local_mr q \<noteq> None \<and> (\<forall>rc. q_virtual_queue q = Some rc \<longrightarrow> rc_remote_mr rc \<noteq> None) \<and>
      (\<forall>port. q_bind_port q = Some port \<longrightarrow> port \<le> MAX_SERVICE_NUM)) \<and>
    (\<forall>ct \<in> set (k_rctrl k). rh_ring (ct_recv ct) \<and> length (rh_wcs (ct_recv ct)) = rh_capacity (ct_recv ct))"
  using kr_run_ok [OF assms(3,1) booted_ok [OF assms(2)]] by (simp add: state_ok_def vq_ok_def kern_ok_def ctrl_ok_def)


text \<open>The small module of the previous theory, with one queue that gets connected.\<close>

lemma sample_booted: "driver_ok sample_driver" "booted sample_driver sample_kern"
proof -
  show "driver_ok sample_driver" by (auto simp: driver_ok_def sample_driver_def)
  obtain h where h: "recv_helper_create (\<lambda>pa. pa) RCTRL_N (MAX_KMALLOC_SZ div RCTRL_N) (cx_lkey sample_context) 8192 = Some h" "rh_ring h"
    "rh_capacity h = 2" "rh_cur_idx h = 0"
    using recv_helper_create_ring [of RCTRL_N 8192 "MAX_KMALLOC_SZ div RCTRL_N" "\<lambda>pa. pa" "cx_lkey sample_context"]
    by (auto simp: RCTRL_N_def MAX_KMALLOC_SZ_def)
  then have "post_recvs (\<lambda>d ws. Some (0, d)) h ([] :: send_wr list) 2 = Some (0, h, [])" "post_recvs (count_post 1) h 0 2 = Some (0, h, 2)"
    by (simp_all add: post_recvs_window count_post_def posted_def window_requests)
  then have "rctrl_create (\<lambda>pa. pa) (\<lambda>_ d _. Some (0, d)) 3 sample_context \<lparr>ud_qp = 1, ud_qp_num = 9, ud_qkey = 11\<rparr> (Some 2) 5 8192 ([] :: send_wr list) = Some (sample_ctrl, [])"
    using h(1) sample_ctrl_create(1) by (simp add: rctrl_create_def RCTRL_N_def)
  moreover have "unat (8192 :: u64) + MAX_KMALLOC_SZ < 2 ^ 64" by (simp add: MAX_KMALLOC_SZ_def)
  ultimately show "booted sample_driver sample_kern" unfolding booted_def sample_kern_def sample_driver_def by fastforce
qed

lemma sample_run:
  obtains q where "(kr_step (sample_features True) sample_driver)\<^sup>*\<^sup>* ([], sample_kern) ([q], sample_kern)"
    "q_bind_port q = None" "q_local_dc q = Some 2" "q_remote_endpoint q = Some (remote_point sample_driver (host_point 65))"
    "q_local_mr q = Some \<lparr>mr_addr = 8192, mr_capacity = of_nat MAX_KMALLOC_SZ, mr_rkey = 6\<rparr>" "q_virtual_queue q = None"
proof -
  let ?step = "kr_step (sample_features True) sample_driver"
  have hd: "hd (replicate 39 a) = a" for a :: u8 by (simp add: hd_replicate)
  obtain q where q: "ioctrl (sample_features True) sample_driver (vq_open sample_mr) sample_kern (CmdConnect (\<lambda>_. 65) 39 3 1) = Some (0, Some (st_ok, None), q, sample_kern)"
    "q_bind_port q = None" "q_local_dc q = Some 2" "q_remote_endpoint q = Some (remote_point sample_driver (host_point 65))"
    "q_local_mr q = Some \<lparr>mr_addr = 8192, mr_capacity = of_nat MAX_KMALLOC_SZ, mr_rkey = 6\<rparr>" "q_virtual_queue q = None"
    using rctrl_create_fields [OF sample_ctrl_create(1)]
    by (simp add: ioctrl_def connect_cmd_def connect_impl_def connect_dct_def find_target_def explore_path_def use_target_def get_global_rctrl_def
        sample_kern_def sample_driver_def sample_features_def vq_open_def sample_ctrl_create(5) hd remote_point_def get_self_test_mr_def sample_context_def Let_def)
  have "?step ([], sample_kern) ([] @ [vq_open sample_mr], sample_kern)" by (rule step_open)
  moreover have "?step ([vq_open sample_mr], sample_kern) ([vq_open sample_mr][0 := q], sample_kern)" using q(1) by (intro step_ioctrl) simp_all
  ultimately have "?step\<^sup>*\<^sup>* ([], sample_kern) ([q], sample_kern)" by (auto intro: rtranclp.rtrancl_into_rtrancl)
  then show ?thesis using q(2-) that by blast
qed

theorem kr_run_typed_witness:
  "\<exists>q. (kr_step (sample_features True) sample_driver)\<^sup>*\<^sup>* ([], sample_kern) ([q], sample_kern) \<and> q_local_mr q \<noteq> None \<and> rh_ring (ct_recv sample_ctrl)"
proof -
  obtain q where q: "(kr_step (sample_features True) sample_driver)\<^sup>*\<^sup>* ([], sample_kern) ([q], sample_kern)" by (rule sample_run)
  from kr_run_typed [OF sample_booted this] q show ?thesis by (auto simp: sample_kern_def)
qed


end
