(* ===== verification/Spec2Isabelle.thy ===== *)
theory Spec2Isabelle
  imports Prelude Packer UdHeader SaQuery QpState Mlx5Sizing Mlx5Srq Mlx5Cq CqLock Mlx5Destroy Mlx5QpTables Smi Mlx5Wq Mlx5Poll KrRecv KrQp KrMeta CmMsg KrCtrl KrConn KrVq KrVqProps KrRun
begin

text \<open>
  Verification of KRCore, a kernel module that gives applications RDMA connections through system calls,
  together with the parts of the RDMA stack beneath it that the repository keeps.

  \<^bold>\<open>The program.\<close>  An application opens a device file and gets a virtual queue
  (\<^verbatim>\<open>KRdmaKit-syscall/src/virtual_queue.rs\<close>); it connects it to a host, pushes requests, pops completions, or
  binds it to a port and serves.  Virtual queues share a pool of control blocks, one per service and
  network card (\<^verbatim>\<open>rust-kernel-rdma/KRdmaKit/src/ctrl.rs\<close>), which hold a datagram queue pair, a dynamically connected
  one, the reliable connections that clients have opened, and a ring of receive buffers
  (\<^verbatim>\<open>KRdmaKit/src/qp/recv_helper.rs\<close>).  A directory server keeps the endpoints of all hosts in pages that clients
  read with RDMA (\<^verbatim>\<open>KRdmaKit-syscall/src/rpc\<close>).  Queue pairs are brought up by \<^verbatim>\<open>KRdmaKit/src/qp\<close> through the verbs
  layer and the connection manager (\<^verbatim>\<open>drivers/infiniband/core\<close>) and live in the mlx5 driver
  (\<^verbatim>\<open>drivers/infiniband/hw/mlx5\<close>), both from the distribution in \<^verbatim>\<open>mlnx-ofed-4.9-driver\<close>.

  \<^bold>\<open>Conventions.\<close>  A C or Rust structure is a record, an enumeration a datatype, a machine integer a word of its
  width; where C promotes to \<^verbatim>\<open>int\<close> the promotion is written out.  Memory is a list of bytes or entries, read and written
  with a bounds check.  A result is optional: \<^const>\<open>None\<close> stands for an access outside its block, a panic of
  Rust (which is compiled with overflow checks), an assertion, or a loop that does not end; so a conclusion with
  \<^const>\<open>Some\<close> is a safety and termination statement as well.  Error codes are negative integers, as in the kernel.
  Definitions bear the names of the functions they translate; \<open>_impl\<close> and \<open>_loop\<close> are the bodies and loops of the
  function before the suffix.  Code outside the repository or behind the firmware is an argument of the definitions: the record
  \<^typ>\<open>'d driver\<close> with the device state \<^typ>\<open>'d\<close>, the device limits and results in \<^typ>\<open>mod_dev\<close>, \<open>create_ah\<close>, the
  checksum function, the parser of addresses.

  \<^bold>\<open>Library.\<close>
  \<^item> \<open>Prelude\<close>: words, casts, C arithmetic, big-endian byte strings, memory blocks, blocks as strings of bits, rings of a
    power of two.
  \<^item> \<open>Packer\<close> (\<^verbatim>\<open>core/packer.c\<close>): \<^const>\<open>ib_pack\<close> and \<^const>\<open>ib_unpack\<close> with their three branches.  Each branch copies exactly the bits
    the table describes; the locale \<open>wire_table\<close> turns a table that passes executable checks into round trips, and
    is interpreted on the fifteen tables of the next two theories.
  \<^item> \<open>UdHeader\<close> (\<^verbatim>\<open>core/ud_header.c\<close>): datagram headers, initialisation, packing and unpacking.
  \<^item> \<open>SaQuery\<close> (\<^verbatim>\<open>core/sa_query.c\<close>, \<^verbatim>\<open>ib_sa.h\<close>, \<^verbatim>\<open>opa_addr.h\<close>): the record tables, path records with their union,
    and the conversions between InfiniBand and Omni-Path.
  \<^item> \<open>Smi\<close> (\<^verbatim>\<open>core/smi.c\<close>, \<^verbatim>\<open>smi.h\<close>, \<^verbatim>\<open>opa_smi.h\<close>, and the handlers in \<^verbatim>\<open>mad.c\<close>): directed-route packets.  The locale
    \<open>dr_router\<close> is what one hop promises, interpreted on both packet formats; paths through a fabric, the round
    trip and the bound on forwarding follow from it.
  \<^item> \<open>QpState\<close> (\<^verbatim>\<open>core/verbs.c\<close>): the transition table of queue pairs and an inductive relation of their lives.
  \<^item> \<open>Mlx5Sizing\<close>, \<open>Mlx5QpTables\<close> (\<^verbatim>\<open>mlx5/qp.c\<close>): sizes of work queues, and the tables of \<^verbatim>\<open>modify_qp\<close>.
  \<^item> \<open>Mlx5Srq\<close> (\<^verbatim>\<open>mlx5/srq.c\<close>): the shared receive queue; the locale \<open>wqe_pool\<close> is its contract as a pool of
    entries, on which the cleaning of completion queues relies.
  \<^item> \<open>Mlx5Cq\<close>, \<open>CqLock\<close>, \<open>Mlx5Destroy\<close> (\<^verbatim>\<open>mlx5/cq.c\<close>, \<^verbatim>\<open>mlx5/qp.c\<close>): completion queues, their cleaning and resizing, the order of
    their locks as an inductive relation of threads, and the destruction of a queue pair that uses all three.
  \<^item> \<open>Mlx5Wq\<close>, \<open>Mlx5Poll\<close> (\<^verbatim>\<open>mlx5/qp.c\<close>, \<^verbatim>\<open>mlx5/cq.c\<close>): work queues as queues of requests, with the locale \<open>completion_queue\<close>
    interpreted for receiving and for flushing both queues, and polling on top of them.
  \<^item> \<open>KrRecv\<close> (\<^verbatim>\<open>recv_helper.rs\<close>): the ring of receive buffers, over the work queues of the driver.
  \<^item> \<open>KrQp\<close> (\<^verbatim>\<open>qp/rc.rs\<close>, \<^verbatim>\<open>qp/ud.rs\<close>, \<^verbatim>\<open>qp/mod.rs\<close>, \<^verbatim>\<open>core/cm.c\<close>): the steps of queue pairs to the sending state, through the checks of
    \<open>QpState\<close> and \<open>Mlx5QpTables\<close>.
  \<^item> \<open>KrMeta\<close> (\<^verbatim>\<open>rpc/protocol.rs\<close>, \<^verbatim>\<open>rpc/client.rs\<close>): the directory.
  \<^item> \<open>KrCtrl\<close> (\<^verbatim>\<open>ctrl.rs\<close>, \<^verbatim>\<open>cm/sidr.rs\<close>, \<^verbatim>\<open>qp/conn.rs\<close>): control blocks, the callbacks of the connection manager, resolution
    of endpoints.
  \<^item> \<open>CmMsg\<close> (\<^verbatim>\<open>core/cm_msgs.h\<close>, \<^verbatim>\<open>core/cm.c\<close>): connection requests and replies, bit field by bit field.
  \<^item> \<open>KrConn\<close> (\<^verbatim>\<open>core/cm.c\<close>, \<^verbatim>\<open>qp/rc.rs\<close>, \<^verbatim>\<open>ctrl.rs\<close>): the opening of a connection, both sides with their identifiers, from the request of
    the client to the registered queue pair of the server, and the closing of a connection that goes out of scope meanwhile.
  \<^item> \<open>KrVq\<close>, \<open>KrVqProps\<close> (\<^verbatim>\<open>virtual_queue.rs\<close>, \<^verbatim>\<open>core.rs\<close>, \<^verbatim>\<open>client.rs\<close>, \<^verbatim>\<open>include/syscall.h\<close>): the system calls and their properties;
    the locale \<open>push_method\<close> is what pushing over a connection promises, interpreted for reliable and dynamic ones.
  \<^item> \<open>KrRun\<close>: the module as a whole, as an inductive step relation over all open queues and the control blocks.

  \<^bold>\<open>What is shown.\<close>  For KRCore: pushes post the requests of the caller and nothing else; messages are delivered in order; the
  two ends of a connection fit together, requests for connections and endpoints are served, and what a connected client pushes is
  addressed to the region of its server (the theorem of this theory, over the system calls and the handshake); the directory that clients read refines the server's map; receive buffers are posted
  in ring order; queue pairs reach the sending state; and in every state the module reaches, by any interleaving of commands
  and events, the regions, ports and rings are sound, so that connected callers are served.  For the stack beneath: the packer is
  a copy of bits and its users round-trip; directed routes lead there and back and forwarding ends; the transition table
  guarantees its attributes; sizes grant what is asked for; shared receive entries are neither lost nor given out twice; cleaning removes
  exactly the completions of one queue pair and locking cannot deadlock; work queues and polling report every request once and in
  order, in failure as well.  Properties of kind error state precisely where the code departs from this.

  \<^bold>\<open>Bounds and fuel.\<close>  Loops are structural or carry a termination proof.  \<^const>\<open>pop_msg_loop\<close> counts the retries of the code
  (50002 polls) and \<^const>\<open>push_loop\<close> the requests left.  Four loops may run forever: the search for a descriptor in
  \<open>Mlx5Wq\<close>, the skipping of completions in \<open>Mlx5Poll\<close>, the walk along a chain of receive requests in \<open>KrRecv\<close>, and
  the wait for a completion in \<open>KrVq\<close>.  They are partial functions; for the first three it is proved that they return in the states the
  operations build, and for the last that it never does in a case that occurs.  There is no other fuel.  The scalar bounds are those of the code:
  addresses are below \<open>2 ^ 64\<close>, rings have a power of two of entries where the driver requires it.

  \<^bold>\<open>Not modelled.\<close>  Failures of copying from and to the caller, which are taken to succeed, the release of an open queue, and what happens after a panic.    Interleaving inside one system call or one driver function: each is a step of its own, under the locks the
  driver takes, whose order is modelled.  Registration of user memory and mapping of pages, start-up of the module, the discovery of
  devices and paths: sequences of kernel calls that decide nothing here.  The firmware, and so the commands that create, modify
  and destroy hardware objects; the building of send descriptors, of which only sizes and opcodes matter here.  Transactions of the MAD layer, and
  of the connection managers all but the opening of a connection and the destruction of its identifier; user verbs, the other drivers and protocols of the distribution and
  its user libraries: KRCore calls the kernel interface of mlx5 only.  Experiments and benchmarks.
\<close>

section \<open>From the system call to the server\<close>

text \<open>Connecting a new queue when no step fails.\<close>

lemma connect_reliable:
  assumes "\<not> ft_dct_qp ft" "ft_virtual_queue ft" "utf8_ok (addr_buf mem sz)" "dr_parse_gid drv (addr_buf mem sz) = Some g"
    and "get_global_rctrl k (service_id port) = Some ci" "dr_resolve drv ci (service_id port) (addr_buf mem sz) (k_dev k) = (Some path, d1)"
    and "dr_new_rc drv ci d1 = (Some rc, d2)" "dr_rc_connect drv rc (as_usize vid) path (service_id port) d2 = (Inr rmr, d3)"
  shows "\<exists>q'. qconnect ft drv (vq_open mr) k mem sz port vid = Some (status_value st_ok, q', k\<lparr>k_dev := d3\<rparr>) \<and>
    q_virtual_queue q' = Some (rc\<lparr>rc_remote_mr := Some rmr\<rparr>) \<and> q_bind_port q' = None \<and>
    q_local_mr q' = Some \<lparr>mr_addr = ct_test_mr (k_rctrl k ! ci), mr_capacity = of_nat MAX_KMALLOC_SZ, mr_rkey = cx_lkey (ct_context (k_rctrl k ! ci))\<rparr>"
  using assms
  by (auto simp: qconnect_def ioctrl_def connect_cmd_def connect_impl_def connect_rc_def explore_path_def qp_connect_def vq_open_def get_self_test_mr_def
      get_global_rctrl_def Let_def status_value_def split: if_splits)

text \<open>
  C1. What a client writes goes to the server it has connected to.  A queue that is connected to a host whose control
  block serves the request, over a driver that connects as the connection manager does, is connected: the server has registered
  the connection under the identifier of the client, and every list of sound requests pushed afterwards is posted, in order, on
  the queue pair of the connection, at offsets into the test region of that control block and with the key of the server.
\<close>

theorem connected_requests_reach_server:
  assumes "\<not> ft_dct_qp ft" and "ft_virtual_queue ft" and "utf8_ok (addr_buf mem sz)" and "dr_parse_gid drv (addr_buf mem sz) = Some g"
    and "get_global_rctrl k (service_id port) = Some ci" and "dr_resolve drv ci (service_id port) (addr_buf mem sz) (k_dev k) = (Some path, d1)"
    and "dr_new_rc drv ci d1 = (Some rc, d2)"
    and "\<forall>cm rc' rmr. rc_connect devC envC (\<lambda>m. Option.bind (serve_request devS envS post destroy_qp ids ct d (Some q) m) fst) new_cm_id rc (of_int vid)
        (of_nat (service_id port)) mtu = Some (Inr (), cm, rc') \<longrightarrow> rc_remote_mr rc' = Some rmr \<longrightarrow>
      dr_rc_connect drv rc (as_usize vid) path (service_id port) d2 = (Inr rmr, d3)"
    and "dev_suits devC" and "env_suits devC envC" and "fresh_rc rc" and "vq_num (rc_verbs rc) < 2 ^ 24"
    and "dev_suits devS" and "env_suits devS envS" and "fresh_rc q" and "vq_num (rc_verbs q) < 2 ^ 24"
    and "rh_ring (ct_recv ct)" and "rh_cur_idx (ct_recv ct) + 512 < 2 ^ 64" and "\<And>d ws. \<exists>r. post (rc_qp q) d ws = Some r"
    and "0 < vid" and "vid < 2 ^ 31"
  shows "\<exists>q' k' lmr rep cl ct' d'. qconnect ft drv (vq_open mr) k mem sz port vid = Some (status_value st_ok, q', k') \<and> q_local_mr q' = Some lmr \<and> mr_addr lmr = ct_test_mr (k_rctrl k ! ci) \<and>
    serve_request devS envS post destroy_qp ids ct d (Some q) (cm_format_req (rc_req_param rc (of_int vid) (of_nat (service_id port)) mtu)) = Some (Some rep, cl, True, ct', d') \<and>
    get_trc ct' (nat vid) \<noteq> None \<and>
    (\<forall>reqs. (\<forall>r \<in> set reqs. req_ok (mr_addr lmr) (ct_test_mr ct) r) \<longrightarrow> ioctrl ft drv q' k' (CmdPush reqs 0 0) =
      (case post_all (dr_post_send drv (rc_qp rc)) (map (\<lambda>r. wr_of (dr_pa_to_va drv) lmr (cr_vid r)
          (RdmaTo (cr_remote_addr r + ct_test_mr ct) (cx_rkey (ct_context ct))) r) reqs) (k_dev k') of
        (st, dd) \<Rightarrow> Some (0, Some (st, None), q', k'\<lparr>k_dev := dd\<rparr>)))"
proof -
  let ?net = "\<lambda>m. Option.bind (serve_request devS envS post destroy_qp ids ct d (Some q) m) fst" and ?qd = "of_int vid :: u64"
  have v: "unat ?qd = nat vid" using assms(20,21) by (simp add: uint_word_of_int flip: nat_uint_eq)
  have z: "?qd \<noteq> 0"
  proof
    assume "?qd = 0"
    then have "unat ?qd = 0" by simp
    then show False using v assms(20) by simp
  qed
  obtain rep cl ct' d' cm rc' q2 where h: "serve_request devS envS post destroy_qp ids ct d (Some q) (cm_format_req (rc_req_param rc ?qd (of_nat (service_id port)) mtu)) = Some (Some rep, cl, True, ct', d')"
    "rc_connect devC envC ?net new_cm_id rc ?qd (of_nat (service_id port)) mtu = Some (Inr (), cm, rc')" "get_trc ct' (unat ?qd) = Some q2"
    "rc_remote_mr rc' = Some (get_self_test_mr ct)"
    using handshake_fits [where post = post, OF assms(9-18) z assms(19)] by blast
  have "dr_rc_connect drv rc (as_usize vid) path (service_id port) d2 = (Inr (get_self_test_mr ct), d3)"
    using assms(8) h(2,4) by blast
  from connect_reliable [where mr = mr, OF assms(1-7) this] obtain q' where c: "qconnect ft drv (vq_open mr) k mem sz port vid = Some (status_value st_ok, q', k\<lparr>k_dev := d3\<rparr>)"
    "q_virtual_queue q' = Some (rc\<lparr>rc_remote_mr := Some (get_self_test_mr ct)\<rparr>)" "q_bind_port q' = None" "\<exists>lmr. q_local_mr q' = Some lmr \<and> mr_addr lmr = ct_test_mr (k_rctrl k ! ci)" by auto
  then obtain lmr where l: "q_local_mr q' = Some lmr" "mr_addr lmr = ct_test_mr (k_rctrl k ! ci)" by blast
  have t: "push_target q' = Some (rc_qp rc, ct_test_mr ct, cr_vid, \<lambda>r. RdmaTo (cr_remote_addr r + ct_test_mr ct) (cx_rkey (ct_context ct)))"
    using c(2) by (simp add: push_target_def get_self_test_mr_def)
  have "\<forall>reqs. (\<forall>r \<in> set reqs. req_ok (mr_addr lmr) (ct_test_mr ct) r) \<longrightarrow> ioctrl ft drv q' (k\<lparr>k_dev := d3\<rparr>) (CmdPush reqs 0 0) =
      (case post_all (dr_post_send drv (rc_qp rc)) (map (\<lambda>r. wr_of (dr_pa_to_va drv) lmr (cr_vid r)
          (RdmaTo (cr_remote_addr r + ct_test_mr ct) (cx_rkey (ct_context ct))) r) reqs) (k_dev (k\<lparr>k_dev := d3\<rparr>)) of
        (st, dd) \<Rightarrow> Some (0, Some (st, None), q', k\<lparr>k_dev := d3, k_dev := dd\<rparr>))"
    using push_calls_post [OF c(3) l(1) t] by blast
  moreover have "get_trc ct' (nat vid) \<noteq> None" using h(3) v by simp
  ultimately show ?thesis using c(1) l h(1) by blast
qed

text \<open>A driver whose connections end at a second control block.\<close>

definition joined_driver :: "send_wr list driver" where
  "joined_driver = sample_driver\<lparr>dr_new_rc := (\<lambda>_ d. (Some (sample_rc 8), d)), dr_rc_connect := (\<lambda>rc vid _ port d.
     (case rc_connect sample_dev sample_env (\<lambda>m. Option.bind (sample_serve sample_dev m) fst)
         new_cm_id rc (of_nat vid) (of_nat port) 4 of
        Some (Inr _, _, rc) \<Rightarrow> (case rc_remote_mr rc of Some mr \<Rightarrow> (Inr mr, d) | None \<Rightarrow> (Inl 1, d))
      | _ \<Rightarrow> (Inl 1, d)))\<rparr>"

lemma joined_driver_sel:
  "dr_post_send joined_driver qp w d = (0, d @ [w])" "dr_pa_to_va joined_driver = (\<lambda>pa. pa)" "dr_parse_gid joined_driver h = Some 42"
  "dr_resolve joined_driver ci port host d = (Some (unat (hd host)), d)" "dr_new_rc joined_driver ci d = (Some (sample_rc 8), d)"
  by (simp_all add: joined_driver_def sample_driver_def)

lemma joined_driver_connects:
  "\<forall>cm rc' rmr. rc_connect sample_dev sample_env (\<lambda>m. Option.bind (sample_serve sample_dev m) fst)
      new_cm_id (sample_rc 8) (of_int 7) (of_nat (service_id 3)) 4 = Some (Inr (), cm, rc') \<longrightarrow> rc_remote_mr rc' = Some rmr \<longrightarrow>
    dr_rc_connect joined_driver (sample_rc 8) (as_usize 7) path (service_id 3) d = (Inr rmr, d)"
  by (simp add: joined_driver_def as_usize_def)

theorem connected_requests_reach_server_witness:
  "\<exists>q' k' lmr. qconnect (sample_features False) joined_driver (vq_open sample_mr) sample_kern (\<lambda>_. 65) 39 3 7 = Some (status_value st_ok, q', k') \<and>
     ioctrl (sample_features False) joined_driver q' k' (CmdPush [sample_call 1] 0 0) =
       Some (0, Some (st_ok, None), q', k'\<lparr>k_dev := k_dev k' @ [wr_of (\<lambda>pa. pa) lmr 12 (RdmaTo 8448 7) (sample_call 1)]\<rparr>)"
proof -
  have p: "\<exists>r. count_post (rc_qp (sample_rc 9)) d ws = Some r" for d ws by (simp add: count_post_def)
  have n: "vq_num (rc_verbs (sample_rc 8)) < 2 ^ 24" "vq_num (rc_verbs (sample_rc 9)) < 2 ^ 24" "rh_cur_idx (ct_recv sample_ctrl) + 512 < 2 ^ 64"
    by (simp_all add: sample_rc_def sample_qp_def sample_ctrl_create)
  have t: "ct_test_mr sample_ctrl = 8192" "cx_rkey (ct_context sample_ctrl) = 7"
    using rctrl_create_fields [OF sample_ctrl_create(1)] by (simp_all add: sample_context_def)
  have f: "\<not> ft_dct_qp (sample_features False)" "ft_virtual_queue (sample_features False)" "utf8_ok (addr_buf (\<lambda>_. 65) 39)"
    "get_global_rctrl sample_kern (service_id 3) = Some 0" "k_rctrl sample_kern ! 0 = sample_ctrl"
    by (simp_all add: sample_features_def sample_kern_def get_global_rctrl_def)
  have r: "\<forall>r \<in> set [sample_call 1]. req_ok (ct_test_mr sample_ctrl) (ct_test_mr sample_ctrl) r" by (simp add: t req_ok_def sample_call_def)
  from connected_requests_reach_server [where post = count_post and mr = sample_mr, OF f(1-3) joined_driver_sel(3) f(4) joined_driver_sel(4,5) joined_driver_connects
      sample_suits(1) sample_env_suits(1) sample_env_suits(2) n(1) sample_suits(1) sample_env_suits(1) sample_env_suits(2) n(2) sample_ctrl_ring n(3) p]
  obtain q' k' lmr where c: "qconnect (sample_features False) joined_driver (vq_open sample_mr) sample_kern (\<lambda>_. 65) 39 3 7 = Some (status_value st_ok, q', k')"
    "mr_addr lmr = ct_test_mr sample_ctrl" "\<And>reqs. \<forall>r \<in> set reqs. req_ok (mr_addr lmr) (ct_test_mr sample_ctrl) r \<Longrightarrow>
       ioctrl (sample_features False) joined_driver q' k' (CmdPush reqs 0 0) =
      (case post_all (dr_post_send joined_driver (rc_qp (sample_rc 8))) (map (\<lambda>r. wr_of (dr_pa_to_va joined_driver) lmr (cr_vid r)
          (RdmaTo (cr_remote_addr r + ct_test_mr sample_ctrl) (cx_rkey (ct_context sample_ctrl))) r) reqs) (k_dev k') of
        (st, dd) \<Rightarrow> Some (0, Some (st, None), q', k'\<lparr>k_dev := dd\<rparr>))" unfolding f(5) by auto
  show ?thesis using c(1) c(3) [of "[sample_call 1]"] r unfolding c(2)
    by (intro exI [of _ q'] exI [of _ k'] exI [of _ lmr]) (simp add: joined_driver_sel t sample_call_def)
qed

end
